(* ===== verification/Sched.thy ===== *)
theory Sched
  imports Main
begin

text \<open>
  The event loop of Node.js as it runs concurrent asynchronous handlers. A job (a bot
  update, a pipeline run) starts with a synchronous prefix that runs to its first
  \<^verbatim>\<open>await\<close> at once, and an asynchronous remainder whose events come one at a
  time, each after a suspension. Between suspensions the loop may resume any suspended
  job, so the output is an interleaving of the jobs' traces. The traces are fixed when a job
  starts: a job's events depend only on its input and on the answers of the services, not on
  what other jobs do (they share no mutable state). \<open>run j\<close> is the pair of the
  synchronous and the asynchronous events of job \<open>j\<close>.

  The state records the jobs started so far (job \<open>i\<close> is the \<open>i\<close>-th started), the
  events each job has still to emit, and the output so far, each event tagged with its job.
  \<open>sched_step\<close> is the step relation, \<open>sched_reachable\<close> its reachable states,
  \<open>sched_exec\<close> an executable run of a list of scheduler actions.
\<close>

record ('j, 'e) sched =
  started :: "'j list"
  pending :: "nat \<Rightarrow> 'e list"
  out :: "(nat \<times> 'e) list"

definition sched_init :: "('j, 'e) sched" where
  "sched_init = \<lparr>started = [], pending = (\<lambda>_. []), out = []\<rparr>"

text \<open>Start a job: its synchronous events are emitted, the rest waits.\<close>

definition sched_start :: "('j \<Rightarrow> 'e list \<times> 'e list) \<Rightarrow> 'j \<Rightarrow> ('j, 'e) sched \<Rightarrow> ('j, 'e) sched" where
  "sched_start run j s =
     s\<lparr>started := started s @ [j],
       out := out s @ map (Pair (length (started s))) (fst (run j)),
       pending := (pending s)(length (started s) := snd (run j))\<rparr>"

text \<open>Resume job \<open>i\<close>: it emits its next event and suspends again (or ends).\<close>

inductive sched_advance :: "('j, 'e) sched \<Rightarrow> ('j, 'e) sched \<Rightarrow> bool" where
  advance: "pending s i = e # es \<Longrightarrow>
     sched_advance s (s\<lparr>out := out s @ [(i, e)], pending := (pending s)(i := es)\<rparr>)"

inductive sched_step :: "('j \<Rightarrow> 'e list \<times> 'e list) \<Rightarrow> ('j, 'e) sched \<Rightarrow> ('j, 'e) sched \<Rightarrow> bool"
  for run :: "'j \<Rightarrow> 'e list \<times> 'e list" where
  start: "sched_step run s (sched_start run j s)"
| resume: "sched_advance s t \<Longrightarrow> sched_step run s t"

inductive sched_reachable :: "('j \<Rightarrow> 'e list \<times> 'e list) \<Rightarrow> ('j, 'e) sched \<Rightarrow> bool"
  for run :: "'j \<Rightarrow> 'e list \<times> 'e list" where
  init: "sched_reachable run sched_init"
| step: "sched_reachable run s \<Longrightarrow> sched_step run s t \<Longrightarrow> sched_reachable run t"

inductive_cases sched_advanceE: "sched_advance s t"

text \<open>An executable schedule: a list of actions, \<open>None\<close> when a resumed job has nothing left.\<close>

datatype 'j sched_act = Start 'j | Resume nat

fun sched_exec :: "('j \<Rightarrow> 'e list \<times> 'e list) \<Rightarrow> ('j, 'e) sched \<Rightarrow> 'j sched_act list \<Rightarrow> ('j, 'e) sched option" where
  "sched_exec run s [] = Some s"
| "sched_exec run s (Start j # acts) = sched_exec run (sched_start run j s) acts"
| "sched_exec run s (Resume i # acts) =
     (case pending s i of
        [] \<Rightarrow> None
      | e # es \<Rightarrow> sched_exec run (s\<lparr>out := out s @ [(i, e)], pending := (pending s)(i := es)\<rparr>) acts)"

text \<open>The events of job \<open>i\<close> in the output, in order.\<close>

definition out_of :: "('j, 'e) sched \<Rightarrow> nat \<Rightarrow> 'e list" where
  "out_of s i = map snd (filter (\<lambda>p. fst p = i) (out s))"

text \<open>The number of events still to come.\<close>

definition pending_size :: "('j, 'e) sched \<Rightarrow> nat" where
  "pending_size s = (\<Sum>i<length (started s). length (pending s i))"

text \<open>
  The invariant: each started job's output so far followed by its pending events is its
  whole trace, and no other index has output or pending events.
\<close>

definition sched_inv :: "('j \<Rightarrow> 'e list \<times> 'e list) \<Rightarrow> ('j, 'e) sched \<Rightarrow> bool" where
  "sched_inv run s \<longleftrightarrow>
     (\<forall>i. if i < length (started s)
          then out_of s i @ pending s i = fst (run (started s ! i)) @ snd (run (started s ! i))
          else out_of s i = [] \<and> pending s i = [])"

section \<open>Lemmas\<close>

lemma filter_Pair_map: "map snd (filter (\<lambda>p. fst p = i) (map (Pair n) xs)) = (if i = n then xs else [])"
  by (induction xs) auto

lemma sched_inv_init: "sched_inv run sched_init"
  by (simp add: sched_inv_def sched_init_def out_of_def)

lemma sched_inv_start: "sched_inv run s \<Longrightarrow> sched_inv run (sched_start run j s)"
  unfolding sched_inv_def sched_start_def out_of_def
  by (auto simp: filter_Pair_map nth_append less_Suc_eq split: if_splits)

lemma sched_inv_advance: "sched_advance s t \<Longrightarrow> sched_inv run s \<Longrightarrow> sched_inv run t"
proof (induction rule: sched_advance.induct)
  case (advance s i e es)
  let ?t = "s\<lparr>out := out s @ [(i, e)], pending := (pending s)(i := es)\<rparr>"
  have inv: "if k < length (started s)
          then out_of s k @ pending s k = fst (run (started s ! k)) @ snd (run (started s ! k))
          else out_of s k = [] \<and> pending s k = []" for k
    using advance.prems by (simp add: sched_inv_def)
  have i: "i < length (started s)" using inv [of i] advance.hyps by (auto split: if_splits)
  have "out_of ?t k = (if k = i then out_of s k @ [e] else out_of s k)" for k
    by (simp add: out_of_def)
  moreover have "out_of s i @ e # es = fst (run (started s ! i)) @ snd (run (started s ! i))"
    using inv [of i] i advance.hyps by simp
  ultimately show ?case using inv i unfolding sched_inv_def by auto
qed

lemma sched_reachable_inv: "sched_reachable run s \<Longrightarrow> sched_inv run s"
proof (induction rule: sched_reachable.induct)
  case init
  show ?case by (rule sched_inv_init)
next
  case (step s t)
  from step.hyps(2) step.IH show ?case
    by (cases rule: sched_step.cases) (auto intro: sched_inv_start sched_inv_advance)
qed


lemma sched_exec_reachable:
  "sched_exec run s acts = Some t \<Longrightarrow> sched_reachable run s \<Longrightarrow> sched_reachable run t"
proof (induction run s acts rule: sched_exec.induct)
  case (2 run s j acts)
  then show ?case by (auto intro: sched_reachable.step sched_step.start)
next
  case (3 run s i acts)
  then show ?case
    by (auto split: list.splits intro: sched_reachable.step sched_step.resume sched_advance.advance)
qed simp

lemma sched_advance_started: "sched_advance s t \<Longrightarrow> started t = started s"
  by (induction rule: sched_advance.induct) simp

lemma sched_advances_started: "sched_advance\<^sup>*\<^sup>* s t \<Longrightarrow> started t = started s"
  by (induction rule: rtranclp_induct) (auto dest: sched_advance_started)

lemma sched_advances_reachable:
  "sched_advance\<^sup>*\<^sup>* s t \<Longrightarrow> sched_reachable run s \<Longrightarrow> sched_reachable run t"
  by (induction rule: rtranclp_induct) (auto intro: sched_reachable.step sched_step.resume)

lemma pending_size_advance:
  assumes "sched_advance s t" and "sched_inv run s"
  shows "pending_size t < pending_size s"
  using assms
proof (induction rule: sched_advance.induct)
  case (advance s i e es)
  let ?t = "s\<lparr>out := out s @ [(i, e)], pending := (pending s)(i := es)\<rparr>"
  let ?A = "{..<length (started s)}"
  have "i \<in> ?A"
    using advance unfolding sched_inv_def by (metis lessThan_iff list.simps(3))
  then have "pending_size s = length (e # es) + (\<Sum>k\<in>?A - {i}. length (pending s k))"
   and "pending_size ?t = length es + (\<Sum>k\<in>?A - {i}. length (pending ?t k))"
    using advance.hyps by (simp_all add: pending_size_def sum.remove)
  moreover have "(\<Sum>k\<in>?A - {i}. length (pending ?t k)) = (\<Sum>k\<in>?A - {i}. length (pending s k))"
    by (rule sum.cong) auto
  ultimately show ?case by simp
qed

lemma sched_run_to_completion:
  "sched_reachable run s \<Longrightarrow> \<exists>t. sched_advance\<^sup>*\<^sup>* s t \<and> (\<forall>i. pending t i = [])"
proof (induction s rule: measure_induct_rule [where f = pending_size])
  case (less s)
  show ?case
  proof (cases "\<forall>i. pending s i = []")
    case True
    then show ?thesis by blast
  next
    case False
    then obtain i e es where p: "pending s i = e # es" by (metis neq_Nil_conv)
    let ?t = "s\<lparr>out := out s @ [(i, e)], pending := (pending s)(i := es)\<rparr>"
    have adv: "sched_advance s ?t" using p by (rule sched_advance.advance)
    have reach: "sched_reachable run ?t"
      using less.prems adv by (blast intro: sched_reachable.step sched_step.resume)
    have "pending_size ?t < pending_size s"
      using adv sched_reachable_inv [OF less.prems] by (rule pending_size_advance)
    then obtain u where "sched_advance\<^sup>*\<^sup>* ?t u" "\<forall>i. pending u i = []"
      using less.IH reach by blast
    then show ?thesis using adv by (blast intro: converse_rtranclp_into_rtranclp)
  qed
qed

text \<open>Completion: from any reachable state the suspended jobs can all run to their end, which is then each job's whole trace.\<close>

lemma sched_completes:
  assumes "sched_reachable run s"
  shows "\<exists>t. sched_advance\<^sup>*\<^sup>* s t \<and> started t = started s \<and> pending_size t = 0 \<and>
             (\<forall>i<length (started s). out_of t i = fst (run (started s ! i)) @ snd (run (started s ! i)))"
proof -
  obtain t where t: "sched_advance\<^sup>*\<^sup>* s t" "\<forall>i. pending t i = []"
    using sched_run_to_completion [OF assms] by blast
  have st: "started t = started s" using t(1) by (rule sched_advances_started)
  have "sched_inv run t" using sched_advances_reachable [OF t(1) assms] by (rule sched_reachable_inv)
  then have "\<forall>i<length (started s). out_of t i = fst (run (started s ! i)) @ snd (run (started s ! i))"
    using t(2) st unfolding sched_inv_def by (metis append_Nil2)
  then show ?thesis using t st by (auto simp: pending_size_def)
qed

lemma sched_advance_wf: "wf {(t, s). sched_reachable run s \<and> sched_advance s t}"
  by (rule wf_subset [OF wf_measure [of pending_size]])
     (auto intro: pending_size_advance [OF _ sched_reachable_inv])


lemma sched_drain:
  "sched_advance\<^sup>*\<^sup>* s (s\<lparr>out := out s @ map (Pair i) (pending s i), pending := (pending s)(i := [])\<rparr>)"
proof (induction "pending s i" arbitrary: s)
  case Nil
  then have p: "pending s i = []" by simp
  have "s\<lparr>out := out s @ map (Pair i) (pending s i), pending := (pending s)(i := [])\<rparr> = s"
    by (simp add: p fun_upd_idem)
  then show ?case by (metis rtranclp.rtrancl_refl)
next
  case (Cons e es)
  let ?s1 = "s\<lparr>out := out s @ [(i, e)], pending := (pending s)(i := es)\<rparr>"
  have "sched_advance s ?s1" using Cons.hyps(2) by (simp add: sched_advance.advance)
  moreover have "sched_advance\<^sup>*\<^sup>* ?s1 (?s1\<lparr>out := out ?s1 @ map (Pair i) (pending ?s1 i), pending := (pending ?s1)(i := [])\<rparr>)"
    by (rule Cons.hyps(1)) simp
  moreover have "pending s i = e # es" using Cons.hyps(2) by simp
  ultimately show ?case by (auto intro: converse_rtranclp_into_rtranclp)
qed

lemma sched_out_in_trace:
  assumes "sched_reachable run s" and "(i, ev) \<in> set (out s)"
  shows "i < length (started s) \<and> ev \<in> set (fst (run (started s ! i)) @ snd (run (started s ! i)))"
proof -
  have ev: "ev \<in> set (out_of s i)" using assms(2) by (force simp: out_of_def)
  have inv: "if i < length (started s)
          then out_of s i @ pending s i = fst (run (started s ! i)) @ snd (run (started s ! i))
          else out_of s i = [] \<and> pending s i = []"
    using sched_reachable_inv [OF assms(1)] by (simp add: sched_inv_def)
  have i: "i < length (started s)" using inv ev by (auto split: if_splits)
  have "ev \<in> set (out_of s i @ pending s i)" using ev by simp
  then show ?thesis using inv i by (simp only: if_True)
qed

end
