(* ===== verification/JS_Base.thy ===== *)
theory JS_Base
  imports Main
begin

text \<open>
  Prelude of the development. It holds what every component of
  \<^verbatim>\<open>src/src/index.tsx\<close> shares:
  \<^item> \<open>js_error\<close>, the exceptions the program can see (a \<^verbatim>\<open>TypeError\<close> of a property
    read on \<^verbatim>\<open>undefined\<close>, an axios failure, an OpenAI failure, an \<^verbatim>\<open>Error\<close>
    built by \<^verbatim>\<open>new Error(msg)\<close>);
  \<^item> \<open>('e, 'a) comp\<close>, an awaited asynchronous computation: its outcome (an exception
    \<open>Inl\<close> or a value \<open>Inr\<close>) and the list of observable events it emitted, in order.
    \<open>cbind\<close> is \<^verbatim>\<open>await\<close> followed by the rest of the body, \<open>cthrow\<close> is
    \<^verbatim>\<open>throw\<close>, \<open>ccatch\<close> is \<^verbatim>\<open>try/catch\<close>;
  \<^item> JavaScript values as the program reads them (\<open>jsval\<close>: the result of
    \<^verbatim>\<open>JSON.parse\<close> plus \<^verbatim>\<open>undefined\<close>), property and index reads with
    the \<^verbatim>\<open>TypeError\<close> on \<^verbatim>\<open>undefined\<close>/\<^verbatim>\<open>null\<close>, and truthiness;
  \<^item> the shared simp collection \<open>comp_simps\<close> and generic list lemmas.
  Strings are byte lists: a JavaScript string is represented by its UTF-8 encoding.
\<close>

named_theorems comp_simps "evaluation rules for awaited computations"
named_theorems js_simps "evaluation rules for JavaScript value operations"

section \<open>Exceptions and awaited computations\<close>

datatype js_error =
    TypeError string
  | AxiosError string
  | OpenAIError string
  | Error string

type_synonym ('e, 'a) comp = "(js_error + 'a) \<times> 'e list"

definition creturn :: "'a \<Rightarrow> ('e, 'a) comp" where
  "creturn a = (Inr a, [])"

definition cthrow :: "js_error \<Rightarrow> ('e, 'a) comp" where
  "cthrow err = (Inl err, [])"

definition emit :: "'e \<Rightarrow> ('e, unit) comp" where
  "emit ev = (Inr (), [ev])"

definition clift :: "js_error + 'a \<Rightarrow> ('e, 'a) comp" where
  "clift r = (r, [])"

definition cbind :: "('e, 'a) comp \<Rightarrow> ('a \<Rightarrow> ('e, 'b) comp) \<Rightarrow> ('e, 'b) comp" where
  "cbind m f =
     (case fst m of
        Inl err \<Rightarrow> (Inl err, snd m)
      | Inr a \<Rightarrow> (fst (f a), snd m @ snd (f a)))"

definition ccatch :: "('e, 'a) comp \<Rightarrow> (js_error \<Rightarrow> ('e, 'a) comp) \<Rightarrow> ('e, 'a) comp" where
  "ccatch m h =
     (case fst m of
        Inl err \<Rightarrow> (fst (h err), snd m @ snd (h err))
      | Inr a \<Rightarrow> m)"

text \<open>Sequencing of synchronous code that may throw (no events).\<close>

definition sbind :: "js_error + 'a \<Rightarrow> ('a \<Rightarrow> js_error + 'b) \<Rightarrow> js_error + 'b" where
  "sbind r f = (case r of Inl err \<Rightarrow> Inl err | Inr a \<Rightarrow> f a)"

text \<open>A computation whose outcome is a value: it did not throw.\<close>

definition returns :: "('e, 'a) comp \<Rightarrow> bool" where
  "returns m \<longleftrightarrow> (case fst m of Inl _ \<Rightarrow> False | Inr _ \<Rightarrow> True)"

section \<open>JavaScript values\<close>

text \<open>
  Numbers are kept as exact decimals \<open>JFin m e\<close> (the value \<open>m * 10 ^ e\<close>), normalised
  so that \<open>m\<close> has no trailing zero digit and \<open>0\<close> is \<open>JFin 0 0\<close>; the rounding
  of a decimal to the nearest binary64 value is not modelled. Objects are association lists
  in property-insertion order with distinct keys (the order \<^verbatim>\<open>JSON.stringify\<close>
  follows).
\<close>

datatype jsnum = JFin int int | JNaN | JInf | JNInf

datatype jsval =
    JUndef
  | JNull
  | JBool bool
  | JNum jsnum
  | JStr string
  | JArr "jsval list"
  | JObj "(string \<times> jsval) list"

subsection \<open>Decimal digits\<close>

definition is_digit :: "char \<Rightarrow> bool" where
  "is_digit c \<longleftrightarrow> (48::nat) \<le> of_char c \<and> of_char c \<le> (57::nat)"

definition digit_val :: "char \<Rightarrow> nat" where
  "digit_val c = of_char c - of_char CHR ''0''"

definition digit_char :: "nat \<Rightarrow> char" where
  "digit_char d = char_of (of_char CHR ''0'' + d)"

text \<open>Value of a digit string, most significant digit first.\<close>

definition digits_val :: "string \<Rightarrow> nat" where
  "digits_val ds = foldl (\<lambda>acc c. 10 * acc + digit_val c) 0 ds"

text \<open>Decimal representation of a natural number, as \<^verbatim>\<open>String(n)\<close> prints it.\<close>

fun dec_string :: "nat \<Rightarrow> string" where
  "dec_string n = (if n < 10 then [digit_char n] else dec_string (n div 10) @ [digit_char (n mod 10)])"

declare dec_string.simps [simp del]

text \<open>\<^verbatim>\<open>Array.prototype.join(sep)\<close> on strings.\<close>

fun join_with :: "string \<Rightarrow> string list \<Rightarrow> string" where
  "join_with sep [] = []"
| "join_with sep [x] = x"
| "join_with sep (x # y # ys) = x @ sep @ join_with sep (y # ys)"

text \<open>A property key that is an array index: a decimal numeral without leading zero.\<close>

definition index_of_key :: "string \<Rightarrow> nat option" where
  "index_of_key k =
     (if k \<noteq> [] \<and> list_all is_digit k \<and> (hd k = CHR ''0'' \<longrightarrow> k = ''0'')
      then Some (digits_val k) else None)"

subsection \<open>Property reads\<close>

text \<open>
  \<^verbatim>\<open>v.k\<close> and \<^verbatim>\<open>v[k]\<close>: a read on \<^verbatim>\<open>undefined\<close> or \<^verbatim>\<open>null\<close>
  throws a \<^verbatim>\<open>TypeError\<close>; an absent property is \<^verbatim>\<open>undefined\<close>. The
  model covers own properties of objects, index properties of arrays and strings, and no
  inherited property: it agrees with JavaScript on every key that is not \<^verbatim>\<open>length\<close>
  or a member of \<^verbatim>\<open>Object.prototype\<close>, \<^verbatim>\<open>Array.prototype\<close> or
  \<^verbatim>\<open>String.prototype\<close> (\<open>plain_key\<close>); every key the program reads is one.
  String indexing is by byte; the program only indexes position 0, where a byte and a
  UTF-16 unit exist for exactly the non-empty strings.
\<close>

fun js_get :: "jsval \<Rightarrow> string \<Rightarrow> js_error + jsval" where
  "js_get JUndef k = Inl (TypeError (''Cannot read properties of undefined reading '' @ k))"
| "js_get JNull k = Inl (TypeError (''Cannot read properties of null reading '' @ k))"
| "js_get (JObj ps) k = Inr (case map_of ps k of Some v \<Rightarrow> v | None \<Rightarrow> JUndef)"
| "js_get (JArr xs) k =
     Inr (case index_of_key k of
            Some i \<Rightarrow> (if i < length xs then xs ! i else JUndef)
          | None \<Rightarrow> JUndef)"
| "js_get (JStr s) k =
     Inr (case index_of_key k of
            Some i \<Rightarrow> (if i < length s then JStr [s ! i] else JUndef)
          | None \<Rightarrow> JUndef)"
| "js_get (JBool b) k = Inr JUndef"
| "js_get (JNum n) k = Inr JUndef"

text \<open>\<^verbatim>\<open>v[i]\<close> with a numeric index is a read of the key \<^verbatim>\<open>String(i)\<close>.\<close>

definition js_at :: "jsval \<Rightarrow> nat \<Rightarrow> js_error + jsval" where
  "js_at v i = js_get v (dec_string i)"

text \<open>A chain of reads \<^verbatim>\<open>v.k1.k2...\<close>, stopping at the first exception.\<close>

fun js_path :: "jsval \<Rightarrow> string list \<Rightarrow> js_error + jsval" where
  "js_path v [] = Inr v"
| "js_path v (k # ks) = (case js_get v k of Inl err \<Rightarrow> Inl err | Inr v' \<Rightarrow> js_path v' ks)"

definition plain_key :: "string \<Rightarrow> bool" where
  "plain_key k \<longleftrightarrow> k \<notin> set [''length'', ''constructor'', ''toString'', ''toLocaleString'',
     ''valueOf'', ''hasOwnProperty'', ''isPrototypeOf'', ''propertyIsEnumerable'', ''__proto__'',
     ''__defineGetter__'', ''__defineSetter__'', ''__lookupGetter__'', ''__lookupSetter__'']
     \<and> index_of_key k = None"

subsection \<open>Truthiness\<close>

text \<open>\<^verbatim>\<open>!v\<close> is \<open>\<not> js_truthy v\<close> (ToBoolean).\<close>

fun js_truthy :: "jsval \<Rightarrow> bool" where
  "js_truthy JUndef = False"
| "js_truthy JNull = False"
| "js_truthy (JBool b) = b"
| "js_truthy (JNum n) = (n \<noteq> JFin 0 0 \<and> n \<noteq> JNaN)"
| "js_truthy (JStr s) = (s \<noteq> [])"
| "js_truthy (JArr xs) = True"
| "js_truthy (JObj ps) = True"

section \<open>Shared lemmas\<close>

lemma cbind_Inr [simp, comp_simps]: "cbind (Inr a, es) f = (fst (f a), es @ snd (f a))"
  by (simp add: cbind_def)

lemma cbind_Inl [simp, comp_simps]: "cbind (Inl err, es) f = (Inl err, es)"
  by (simp add: cbind_def)

lemma ccatch_Inr [simp, comp_simps]: "ccatch (Inr a, es) h = (Inr a, es)"
  by (simp add: ccatch_def)

lemma ccatch_Inl [simp, comp_simps]: "ccatch (Inl err, es) h = (fst (h err), es @ snd (h err))"
  by (simp add: ccatch_def)

lemma sbind_Inr [simp, comp_simps]: "sbind (Inr a) f = f a"
  by (simp add: sbind_def)

lemma sbind_Inl [simp, comp_simps]: "sbind (Inl err) f = Inl err"
  by (simp add: sbind_def)

lemma sbind_eq_Inr: "sbind m f = Inr x \<longleftrightarrow> (\<exists>a. m = Inr a \<and> f a = Inr x)"
  by (cases m) simp_all

lemmas comp_unfold [comp_simps] = creturn_def cthrow_def emit_def clift_def

lemma cbind_assoc [comp_simps]: "cbind (cbind m f) g = cbind m (\<lambda>a. cbind (f a) g)"
  by (cases m) (auto simp: cbind_def split: sum.splits)

lemma returns_ccatch [comp_simps]:
  "returns m \<or> (\<forall>err. returns (h err)) \<Longrightarrow> returns (ccatch m h)"
  by (cases m) (auto simp: returns_def ccatch_def split: sum.splits)

lemma returns_cbind_iff:
  "returns (cbind m f) \<longleftrightarrow> (case fst m of Inl _ \<Rightarrow> False | Inr a \<Rightarrow> returns (f a))"
  by (cases m) (auto simp: returns_def cbind_def split: sum.splits)

lemma js_path_append [js_simps]:
  "js_path v (ks @ ks') = (case js_path v ks of Inl err \<Rightarrow> Inl err | Inr v' \<Rightarrow> js_path v' ks')"
  by (induction ks arbitrary: v) (auto split: sum.splits)

lemma char_of_eq_iff [js_simps]: "(n::nat) < 256 \<Longrightarrow> char_of n = c \<longleftrightarrow> n = of_char c"
proof
  assume "n < 256" "char_of n = c"
  then show "n = of_char c" using of_char_of [of n] by simp
next
  assume "n = of_char c"
  then show "char_of n = c" by simp
qed

lemma digit_char_is_digit [simp]: "d < 10 \<Longrightarrow> is_digit (digit_char d)"
  by (simp add: is_digit_def digit_char_def)

lemma digit_val_digit_char [simp]: "d < 10 \<Longrightarrow> digit_val (digit_char d) = d"
  by (simp add: digit_val_def digit_char_def)

lemma dec_string_digits: "list_all is_digit (dec_string n)"
  by (induction n rule: dec_string.induct) (subst dec_string.simps, simp)

lemma digits_val_snoc [simp]: "digits_val (ds @ [c]) = 10 * digits_val ds + digit_val c"
  by (simp add: digits_val_def)

lemma digits_val_dec_string [simp]: "digits_val (dec_string n) = n"
proof (induction n rule: dec_string.induct)
  case (1 n)
  then show ?case
    by (subst dec_string.simps) (simp add: digits_val_def)
qed

end
