(* ===== verification/JS_Number.thy ===== *)
theory JS_Number
  imports JS_Base
begin

text \<open>
  The number conversions of the JavaScript runtime that \<^verbatim>\<open>FetchWeather\<close> and
  \<^verbatim>\<open>JSON.stringify\<close> use, from ECMA-262: \<^verbatim>\<open>parseFloat\<close> (19.2.4),
  \<^verbatim>\<open>Number::toString\<close> (6.1.6.1.20) and \<^verbatim>\<open>ToString\<close> of any value (7.1.17).
  Numbers are exact decimals (\<open>JFin m e\<close>, see \<open>JS_Base\<close>); a literal whose
  magnitude rounds to infinity in binary64 becomes \<open>JInf\<close>/\<open>JNInf\<close>, one that rounds to
  zero becomes \<open>JFin 0 0\<close>, and rounding between those bounds is not modelled.
\<close>

section \<open>Normal form of decimals\<close>

function norm_dec :: "int \<Rightarrow> int \<Rightarrow> int \<times> int" where
  "norm_dec m e = (if m \<noteq> 0 \<and> m mod 10 = 0 then norm_dec (m div 10) (e + 1)
                   else if m = 0 then (0, 0) else (m, e))"
  by pat_completeness auto
termination
proof (relation "measure (\<lambda>(m, e). nat \<bar>m\<bar>)")
  show "wf (measure (\<lambda>(m, e). nat \<bar>m\<bar>))" by simp
next
  fix m e :: int
  assume m: "m \<noteq> 0 \<and> m mod 10 = 0"
  obtain q where q: "m = 10 * q"
    using m by (metis div_mult_mod_eq add.right_neutral mult.commute)
  with m have "q \<noteq> 0" by simp
  with q show "((m div 10, e + 1), m, e) \<in> measure (\<lambda>(m, e). nat \<bar>m\<bar>)"
    by (simp add: abs_mult)
qed

declare norm_dec.simps [simp del]

definition normal_dec :: "int \<Rightarrow> int \<Rightarrow> bool" where
  "normal_dec m e \<longleftrightarrow> (if m = 0 then e = 0 else m mod 10 \<noteq> 0)"

text \<open>Number of decimal digits of \<open>\<bar>m\<bar>\<close>.\<close>

definition ndigits :: "int \<Rightarrow> nat" where
  "ndigits m = length (dec_string (nat \<bar>m\<bar>))"

text \<open>
  Bounds of binary64: a positive decimal \<open>m * 10 ^ e\<close> rounds to infinity when it is at
  least \<open>2 ^ 1024 - 2 ^ 970\<close> (the largest finite value plus half a unit in the last
  place), and to zero when it is at most \<open>2 ^ -1075\<close> (half the least subnormal; the tie
  goes to the even zero). The digit count decides all but the boundary decades.
\<close>

definition dec_overflows :: "nat \<Rightarrow> int \<Rightarrow> bool" where
  "dec_overflows m e =
     (if int (length (dec_string m)) + e \<le> 308 then False
      else if int (length (dec_string m)) - 1 + e \<ge> 309 then True
      else if e \<ge> 0 then int m * 10 ^ nat e \<ge> 2 ^ 1024 - 2 ^ 970
      else int m \<ge> (2 ^ 1024 - 2 ^ 970) * 10 ^ nat (- e))"

definition dec_underflows :: "nat \<Rightarrow> int \<Rightarrow> bool" where
  "dec_underflows m e =
     (if int (length (dec_string m)) + e \<le> -324 then True
      else if int (length (dec_string m)) + e \<ge> -322 then False
      else if e \<ge> 0 then False
      else int m * 2 ^ 1075 \<le> 10 ^ nat (- e))"

text \<open>The number a non-negative decimal literal \<open>m * 10 ^ e\<close> denotes.\<close>

definition mk_num :: "nat \<Rightarrow> int \<Rightarrow> jsnum" where
  "mk_num m e =
     (if m = 0 then JFin 0 0
      else if dec_overflows m e then JInf
      else if dec_underflows m e then JFin 0 0
      else case norm_dec (int m) e of (m', e') \<Rightarrow> JFin m' e')"

fun num_neg :: "jsnum \<Rightarrow> jsnum" where
  "num_neg (JFin m e) = JFin (- m) e"
| "num_neg JNaN = JNaN"
| "num_neg JInf = JNInf"
| "num_neg JNInf = JInf"

section \<open>\<^verbatim>\<open>parseFloat\<close>\<close>

subsection \<open>Leading white space\<close>

text \<open>
  StrWhiteSpaceChar: the white space and line terminator code points, by their UTF-8
  encodings (TAB, VT, FF, SP, LF, CR, NBSP, ZWNBSP, the Zs separators U+1680,
  U+2000 to U+200A, U+202F, U+205F, U+3000, and LS, PS).
\<close>

definition js_ws :: "string list" where
  "js_ws =
     [[CHR 0x09], [CHR 0x0B], [CHR 0x0C], [CHR 0x20], [CHR 0x0A], [CHR 0x0D],
      [CHR 0xC2, CHR 0xA0], [CHR 0xEF, CHR 0xBB, CHR 0xBF], [CHR 0xE1, CHR 0x9A, CHR 0x80]]
     @ map (\<lambda>b. [CHR 0xE2, CHR 0x80, b])
         [CHR 0x80, CHR 0x81, CHR 0x82, CHR 0x83, CHR 0x84, CHR 0x85, CHR 0x86, CHR 0x87,
          CHR 0x88, CHR 0x89, CHR 0x8A, CHR 0xA8, CHR 0xA9, CHR 0xAF]
     @ [[CHR 0xE2, CHR 0x81, CHR 0x9F], [CHR 0xE3, CHR 0x80, CHR 0x80]]"

function trim_start :: "string \<Rightarrow> string" where
  "trim_start s =
     (case find (\<lambda>w. take (length w) s = w) js_ws of
        Some w \<Rightarrow> trim_start (drop (length w) s)
      | None \<Rightarrow> s)"
  by pat_completeness auto
termination
proof (relation "measure length", simp)
  fix s w
  assume "find (\<lambda>w. take (length w) s = w) js_ws = Some w"
  then have "w \<in> set js_ws" and "take (length w) s = w"
    by (auto simp: find_Some_iff)
  moreover have "list_all (\<lambda>w. w \<noteq> []) js_ws"
    by (simp add: js_ws_def)
  ultimately have "w \<noteq> []" and "length w \<le> length s"
    by (auto simp: list_all_iff) (metis length_take min.cobounded2 min.commute)
  then show "(drop (length w) s, s) \<in> measure length"
    by (cases w) auto
qed

declare trim_start.simps [simp del]

subsection \<open>StrDecimalLiteral\<close>

text \<open>ExponentPart after a mantissa: \<open>0\<close> when there is none (the \<^verbatim>\<open>e\<close> is then not part of the literal).\<close>

definition parse_exp :: "string \<Rightarrow> int" where
  "parse_exp r =
     (case r of
        [] \<Rightarrow> 0
      | c # r' \<Rightarrow>
          (if c = CHR ''e'' \<or> c = CHR ''E'' then
             (let (sg, r'') =
                (case r' of
                   [] \<Rightarrow> (1 :: int, [])
                 | d # t \<Rightarrow> (if d = CHR ''+'' then (1, t) else if d = CHR ''-'' then (-1, t) else (1, r')));
                  ds = takeWhile is_digit r''
              in if ds = [] then 0 else sg * int (digits_val ds))
           else 0))"

text \<open>
  StrUnsignedDecimalLiteral, longest prefix: \<^verbatim>\<open>Infinity\<close>, or digits with an optional
  fraction and exponent, where at least one digit precedes or follows the point.
  \<open>None\<close> when no prefix is a literal.
\<close>

definition parse_unsigned :: "string \<Rightarrow> jsnum option" where
  "parse_unsigned s =
     (if take 8 s = ''Infinity'' then Some JInf
      else
        (let ip = takeWhile is_digit s;
             r1 = dropWhile is_digit s;
             (fp, r2) =
               (case r1 of
                  [] \<Rightarrow> ([], [])
                | c # t \<Rightarrow> (if c = CHR ''.'' then (takeWhile is_digit t, dropWhile is_digit t) else ([], r1)))
         in if ip = [] \<and> fp = [] then None
            else Some (mk_num (digits_val (ip @ fp)) (parse_exp r2 - int (length fp)))))"

text \<open>\<^verbatim>\<open>parseFloat(string)\<close>: skip white space, an optional sign, the longest literal prefix; \<^verbatim>\<open>NaN\<close> if there is none.\<close>

definition parse_float_str :: "string \<Rightarrow> jsnum" where
  "parse_float_str s =
     (let t = trim_start s;
          r = (case t of
                 [] \<Rightarrow> None
               | c # t' \<Rightarrow>
                   (if c = CHR ''-'' then map_option num_neg (parse_unsigned t')
                    else if c = CHR ''+'' then parse_unsigned t'
                    else parse_unsigned t))
      in case r of None \<Rightarrow> JNaN | Some n \<Rightarrow> n)"

section \<open>\<^verbatim>\<open>Number::toString\<close> and \<^verbatim>\<open>ToString\<close>\<close>

text \<open>
  For a finite non-zero number with digits \<open>s\<close> (\<open>k\<close> of them, no trailing zero) and
  decimal point position \<open>n = k + e\<close>: plain digits when \<open>k \<le> n \<le> 21\<close>, a point
  inside the digits when \<open>0 < n \<le> 21\<close>, leading zeros when \<open>-6 < n \<le> 0\<close>, and
  exponent notation otherwise.
\<close>

definition exp_suffix :: "int \<Rightarrow> string" where
  "exp_suffix x = CHR ''e'' # (if x \<ge> 0 then CHR ''+'' else CHR ''-'') # dec_string (nat \<bar>x\<bar>)"

definition pos_to_string :: "nat \<Rightarrow> int \<Rightarrow> string" where
  "pos_to_string s e =
     (let ds = dec_string s; k = int (length ds); n = k + e in
      if k \<le> n \<and> n \<le> 21 then ds @ replicate (nat (n - k)) CHR ''0''
      else if 0 < n \<and> n \<le> 21 then take (nat n) ds @ CHR ''.'' # drop (nat n) ds
      else if -6 < n \<and> n \<le> 0 then CHR ''0'' # CHR ''.'' # replicate (nat (- n)) CHR ''0'' @ ds
      else if k = 1 then ds @ exp_suffix (n - 1)
      else take 1 ds @ CHR ''.'' # drop 1 ds @ exp_suffix (n - 1))"

fun num_to_string :: "jsnum \<Rightarrow> string" where
  "num_to_string JNaN = ''NaN''"
| "num_to_string JInf = ''Infinity''"
| "num_to_string JNInf = ''-Infinity''"
| "num_to_string (JFin m e) =
     (if m = 0 then ''0''
      else if m < 0 then CHR ''-'' # pos_to_string (nat (- m)) e
      else pos_to_string (nat m) e)"

text \<open>ToString of any value; an array joins its elements with commas, \<^verbatim>\<open>undefined\<close> and \<^verbatim>\<open>null\<close> elements printing as empty.\<close>

fun js_to_string :: "jsval \<Rightarrow> string" where
  "js_to_string JUndef = ''undefined''"
| "js_to_string JNull = ''null''"
| "js_to_string (JBool b) = (if b then ''true'' else ''false'')"
| "js_to_string (JNum n) = num_to_string n"
| "js_to_string (JStr s) = s"
| "js_to_string (JArr xs) =
     join_with '','' (map (\<lambda>x. if x = JUndef \<or> x = JNull then [] else js_to_string x) xs)"
| "js_to_string (JObj ps) = ''[object Object]''"

text \<open>\<^verbatim>\<open>parseFloat(v)\<close> for any argument: ToString first.\<close>

definition js_parseFloat :: "jsval \<Rightarrow> jsnum" where
  "js_parseFloat v = parse_float_str (js_to_string v)"

end
