(* ===== verification/JS_Text.thy ===== *)
theory JS_Text
  imports JS_Number
begin

text \<open>
  The string functions of the JavaScript runtime the program calls:
  \<^verbatim>\<open>encodeURIComponent\<close> (ECMA-262 19.2.6.5) with the percent-decoding a server
  applies to it, \<^verbatim>\<open>JSON.stringify(value, null, 2)\<close> (25.5.2) and the ASCII part of
  \<^verbatim>\<open>String.prototype.toLowerCase\<close>. Strings are UTF-8 byte lists, so
  \<^verbatim>\<open>encodeURIComponent\<close> escapes every byte outside its unreserved set, which is
  what it does to the UTF-8 encoding of each code point.
\<close>

section \<open>\<^verbatim>\<open>encodeURIComponent\<close>\<close>

definition is_alpha :: "char \<Rightarrow> bool" where
  "is_alpha c \<longleftrightarrow> ((65::nat) \<le> of_char c \<and> of_char c \<le> (90::nat))
                 \<or> ((97::nat) \<le> of_char c \<and> of_char c \<le> (122::nat))"

text \<open>The characters \<^verbatim>\<open>encodeURIComponent\<close> leaves alone: letters, digits and \<^verbatim>\<open>-_.!~*'()\<close>.\<close>

definition uri_unreserved :: "char \<Rightarrow> bool" where
  "uri_unreserved c \<longleftrightarrow> is_alpha c \<or> is_digit c \<or> c \<in> set (''-_.!~*()'' @ [CHR 0x27])"

definition hex_char :: "nat \<Rightarrow> char" where
  "hex_char d = (if d < 10 then digit_char d else char_of (55 + d))"

definition pct_encode :: "char \<Rightarrow> string" where
  "pct_encode c = (let n = (of_char c :: nat) in [CHR ''%'', hex_char (n div 16), hex_char (n mod 16)])"

definition encodeURIComponent :: "string \<Rightarrow> string" where
  "encodeURIComponent s = concat (map (\<lambda>c. if uri_unreserved c then [c] else pct_encode c) s)"

text \<open>Percent-decoding of a URI component (upper- or lower-case hex); \<open>None\<close> on a malformed escape.\<close>

definition hex_val :: "char \<Rightarrow> nat option" where
  "hex_val c =
     (let n = (of_char c :: nat) in
      if is_digit c then Some (digit_val c)
      else if 65 \<le> n \<and> n \<le> 70 then Some (n - 55)
      else if 97 \<le> n \<and> n \<le> 102 then Some (n - 87)
      else None)"

definition hex_byte :: "char \<Rightarrow> char \<Rightarrow> char option" where
  "hex_byte hi lo =
     (case hex_val hi of
        None \<Rightarrow> None
      | Some a \<Rightarrow> (case hex_val lo of None \<Rightarrow> None | Some b \<Rightarrow> Some (char_of (16 * a + b))))"

fun uri_decode :: "string \<Rightarrow> string option" where
  "uri_decode [] = Some []"
| "uri_decode (c # cs) =
     (if c = CHR ''%'' then
        (case cs of
           x1 # x2 # cs' \<Rightarrow>
             (case hex_byte x1 x2 of
                None \<Rightarrow> None
              | Some b \<Rightarrow> map_option (Cons b) (uri_decode cs'))
         | _ \<Rightarrow> None)
      else map_option (Cons c) (uri_decode cs))"

section \<open>\<^verbatim>\<open>JSON.stringify\<close> with an indentation of two spaces\<close>

text \<open>QuoteJSONString: the short escapes, \<^verbatim>\<open>\u00xx\<close> (lower-case hex) for the other control characters.\<close>

definition hex_lower :: "nat \<Rightarrow> char" where
  "hex_lower d = (if d < 10 then digit_char d else char_of (87 + d))"

definition json_quote_char :: "char \<Rightarrow> string" where
  "json_quote_char c =
     (if c = CHR 0x22 then [CHR 0x5C, CHR 0x22]
      else if c = CHR 0x5C then [CHR 0x5C, CHR 0x5C]
      else if c = CHR 0x08 then [CHR 0x5C, CHR ''b'']
      else if c = CHR 0x0C then [CHR 0x5C, CHR ''f'']
      else if c = CHR 0x0A then [CHR 0x5C, CHR ''n'']
      else if c = CHR 0x0D then [CHR 0x5C, CHR ''r'']
      else if c = CHR 0x09 then [CHR 0x5C, CHR ''t'']
      else if (of_char c :: nat) < 32 then
        [CHR 0x5C, CHR ''u'', CHR ''0'', CHR ''0'', hex_lower (of_char c div 16), hex_lower (of_char c mod 16)]
      else [c])"

definition json_quote :: "string \<Rightarrow> string" where
  "json_quote s = CHR 0x22 # concat (map json_quote_char s) @ [CHR 0x22]"

definition json_gap :: string where
  "json_gap = ''  ''"

text \<open>
  SerializeJSONProperty with gap \<open>json_gap\<close>; the first argument is the current indent.
  \<open>None\<close> is \<^verbatim>\<open>undefined\<close>: the property is left out of an object and printed
  as \<^verbatim>\<open>null\<close> in an array. Non-finite numbers print as \<^verbatim>\<open>null\<close>.
\<close>

fun json_ser :: "string \<Rightarrow> jsval \<Rightarrow> string option"
and json_ser_elems :: "string \<Rightarrow> jsval list \<Rightarrow> string list"
and json_ser_props :: "string \<Rightarrow> (string \<times> jsval) list \<Rightarrow> string list" where
  "json_ser ind JUndef = None"
| "json_ser ind JNull = Some ''null''"
| "json_ser ind (JBool b) = Some (if b then ''true'' else ''false'')"
| "json_ser ind (JNum n) = Some (case n of JFin m e \<Rightarrow> num_to_string n | _ \<Rightarrow> ''null'')"
| "json_ser ind (JStr s) = Some (json_quote s)"
| "json_ser ind (JArr xs) =
     Some (if xs = [] then ''[]''
           else ''['' @ [CHR 0x0A] @ ind @ json_gap
                @ join_with ('','' @ [CHR 0x0A] @ ind @ json_gap) (json_ser_elems (ind @ json_gap) xs)
                @ [CHR 0x0A] @ ind @ '']'')"
| "json_ser ind (JObj ps) =
     Some (if json_ser_props (ind @ json_gap) ps = [] then ''{}''
           else ''{'' @ [CHR 0x0A] @ ind @ json_gap
                @ join_with ('','' @ [CHR 0x0A] @ ind @ json_gap) (json_ser_props (ind @ json_gap) ps)
                @ [CHR 0x0A] @ ind @ ''}'')"
| "json_ser_elems ind [] = []"
| "json_ser_elems ind (x # xs) =
     (case json_ser ind x of None \<Rightarrow> ''null'' | Some s \<Rightarrow> s) # json_ser_elems ind xs"
| "json_ser_props ind [] = []"
| "json_ser_props ind ((k, v) # ps) =
     (case json_ser ind v of
        None \<Rightarrow> json_ser_props ind ps
      | Some s \<Rightarrow> (json_quote k @ '': '' @ s) # json_ser_props ind ps)"

text \<open>\<^verbatim>\<open>JSON.stringify(v, null, 2)\<close>.\<close>

definition json_stringify2 :: "jsval \<Rightarrow> string option" where
  "json_stringify2 v = json_ser [] v"

section \<open>Lower case\<close>

text \<open>
  \<^verbatim>\<open>toLowerCase\<close> on ASCII letters. No code point outside ASCII lower-cases to one of
  the letters of \<^verbatim>\<open>exit\<close> without leaving a non-ASCII code point beside it (the only
  non-ASCII code points whose lower case contains an ASCII letter are U+212A, giving
  \<^verbatim>\<open>k\<close>, and U+0130, giving \<^verbatim>\<open>i\<close> followed by U+0307), so comparing the ASCII
  lower case with \<^verbatim>\<open>exit\<close> decides \<^verbatim>\<open>query.toLowerCase() === 'exit'\<close>.
\<close>

definition ascii_lower :: "char \<Rightarrow> char" where
  "ascii_lower c = (let n = (of_char c :: nat) in if 65 \<le> n \<and> n \<le> 90 then char_of (n + 32) else c)"

section \<open>\<^verbatim>\<open>String.prototype.trim\<close>\<close>

text \<open>
  White space is removed at both ends (ECMA-262 22.1.3.32, the same white space as
  \<^verbatim>\<open>parseFloat\<close> skips). The end is trimmed on the reversed byte string, where each
  white-space sequence appears reversed.
\<close>

function trim_end_rev :: "string \<Rightarrow> string" where
  "trim_end_rev s =
     (case find (\<lambda>w. take (length w) s = rev w) js_ws of
        Some w \<Rightarrow> trim_end_rev (drop (length w) s)
      | None \<Rightarrow> s)"
  by pat_completeness auto
termination
proof (relation "measure length", simp)
  fix s w
  assume "find (\<lambda>w. take (length w) s = rev w) js_ws = Some w"
  then have "w \<in> set js_ws" and "take (length w) s = rev w"
    by (auto simp: find_Some_iff)
  moreover have "list_all (\<lambda>w. w \<noteq> []) js_ws"
    by (simp add: js_ws_def)
  ultimately have "w \<noteq> []" and "length w \<le> length s"
    by (auto simp: list_all_iff) (metis length_rev length_take min.cobounded2 min.commute)
  then show "(drop (length w) s, s) \<in> measure length"
    by (cases w) auto
qed

declare trim_end_rev.simps [simp del]

definition js_trim :: "string \<Rightarrow> string" where
  "js_trim s = rev (trim_end_rev (rev (trim_start s)))"

section \<open>Lemmas\<close>

lemma of_char_lt_256: "(of_char c :: nat) < 256"
  by (metis of_char_mod_256 mod_less_divisor zero_less_numeral)

lemma hex_val_hex_char: "d < 16 \<Longrightarrow> hex_val (hex_char d) = Some d"
  by (auto simp: hex_val_def hex_char_def digit_char_def is_digit_def digit_val_def Let_def)

lemma hex_byte_pct: "hex_byte (hex_char (of_char c div 16)) (hex_char (of_char c mod 16)) = Some c"
proof -
  have lt: "(of_char c :: nat) div 16 < 16" using of_char_lt_256 [of c] by arith
  have "char_of (16 * ((of_char c :: nat) div 16) + of_char c mod 16) = c"
    by (metis add.commute char_of_char mod_mult_div_eq)
  then show ?thesis by (simp add: hex_byte_def hex_val_hex_char lt)
qed

lemma uri_unreserved_not_pct: "uri_unreserved c \<Longrightarrow> c \<noteq> CHR ''%''"
  by (auto simp: uri_unreserved_def is_alpha_def is_digit_def)

lemma uri_decode_encode: "uri_decode (encodeURIComponent s) = Some s"
proof (induction s)
  case Nil
  then show ?case by (simp add: encodeURIComponent_def)
next
  case (Cons c s)
  then show ?case
    using uri_unreserved_not_pct [of c]
    by (simp add: encodeURIComponent_def pct_encode_def hex_byte_pct Let_def)
qed

lemma hex_char_code: "d < 16 \<Longrightarrow> (of_char (hex_char d) :: nat) = (if d < 10 then 48 + d else 55 + d)"
  by (simp add: hex_char_def digit_char_def)

lemma unsafe_chars: "c \<in> set ''/?#'' \<longleftrightarrow> (of_char c :: nat) \<in> {47, 63, 35}"
  by (simp only: set_simps insert_iff empty_iff of_char_eq_iff [where ?'a = nat, symmetric]) simp

lemma encodeURIComponent_safe: "set (encodeURIComponent s) \<inter> set ''/?#'' = {}"
proof -
  have unres: "uri_unreserved c \<Longrightarrow> c \<notin> set ''/?#''" for c
    by (auto simp: uri_unreserved_def is_alpha_def is_digit_def unsafe_chars)
  have hex: "d < 16 \<Longrightarrow> hex_char d \<notin> set ''/?#''" for d
    by (simp only: unsafe_chars) (auto simp: hex_char_code)
  have "x \<in> set (encodeURIComponent s) \<Longrightarrow> x \<notin> set ''/?#''" for x
  proof -
    assume "x \<in> set (encodeURIComponent s)"
    then obtain c where "x \<in> set (if uri_unreserved c then [c] else pct_encode c)"
      unfolding encodeURIComponent_def set_concat set_map by blast
    moreover have "(of_char c :: nat) div 16 < 16" "(of_char c :: nat) mod 16 < 16"
      using of_char_lt_256 [of c] by arith+
    ultimately show ?thesis
      using unres [of c] hex by (auto simp: pct_encode_def Let_def split: if_splits)
  qed
  then show ?thesis by blast
qed
end
