(* ===== verification/Number_Facts.thy ===== *)
theory Number_Facts
  imports Complex_Main JS_Number
begin

text \<open>
  What the numbers of the model mean and what \<^verbatim>\<open>parseFloat\<close> guarantees about them.
  \<open>dec_val m e\<close> is the real number \<open>m * 10 ^ e\<close> a finite \<open>JFin m e\<close> stands for.
  \<open>dec_overflows\<close> and \<open>dec_underflows\<close> of \<open>JS_Number\<close> decide the binary64
  overflow and underflow by digit counts; here they are proved to be exactly the comparisons
  of the value with \<open>max_finite_bound\<close> (\<open>2 ^ 1024 - 2 ^ 970\<close>) and
  \<open>min_bound\<close> (\<open>2 ^ -1075\<close>). From this, every number \<^verbatim>\<open>parseFloat\<close> returns
  is in canonical form (no trailing zero digit in the mantissa, the form
  \<^verbatim>\<open>Number::toString\<close> is written for) and, when finite and non-zero, strictly within
  the range of binary64; and so are the numeric fields of every \<^verbatim>\<open>WeatherData\<close> record.
\<close>

definition dec_val :: "int \<Rightarrow> int \<Rightarrow> real" where
  "dec_val m e = of_int m * 10 powr of_int e"

definition max_finite_bound :: real where
  "max_finite_bound = 2 ^ 1024 - 2 ^ 970"

definition min_bound :: real where
  "min_bound = 1 / 2 ^ 1075"

definition num_canonical :: "jsnum \<Rightarrow> bool" where
  "num_canonical n = (case n of JFin m e \<Rightarrow> normal_dec m e | _ \<Rightarrow> True)"

definition num_in_range :: "jsnum \<Rightarrow> bool" where
  "num_in_range n =
     (case n of
        JFin m e \<Rightarrow> \<bar>dec_val m e\<bar> < max_finite_bound \<and> (m \<noteq> 0 \<longrightarrow> min_bound < \<bar>dec_val m e\<bar>)
      | _ \<Rightarrow> True)"

section \<open>Lemmas\<close>

lemma dec_string_bounds:
  "0 < n \<Longrightarrow> 10 ^ (length (dec_string n) - 1) \<le> n \<and> n < 10 ^ length (dec_string n)"
proof (induction n rule: dec_string.induct)
  case (1 n)
  show ?case
  proof (cases "n < 10")
    case True
    then have "dec_string n = [digit_char n]" by (subst dec_string.simps) simp
    then show ?thesis using True "1.prems" by simp
  next
    case False
    then have "0 < n div 10" by simp
    with "1.IH" False have ih: "10 ^ (length (dec_string (n div 10)) - 1) \<le> n div 10"
        "n div 10 < 10 ^ length (dec_string (n div 10))" by auto
    have l: "length (dec_string n) = Suc (length (dec_string (n div 10)))"
      using False by (subst dec_string.simps) simp
    define L where "L = length (dec_string (n div 10))"
    have pos: "0 < L" using ih(2) \<open>0 < n div 10\<close> unfolding L_def
      by (cases "length (dec_string (n div 10))") auto
    have dm: "n div 10 * 10 + n mod 10 = n" by (rule div_mult_mod_eq)
    have "(10::nat) ^ L = 10 * 10 ^ (L - 1)" using pos by (cases L) simp_all
    also have "\<dots> \<le> 10 * (n div 10)" using ih(1) unfolding L_def by simp
    also have "\<dots> \<le> n" using dm by linarith
    finally have a: "10 ^ L \<le> n" .
    have "n mod 10 < 10" by simp
    then have "n < 10 * (n div 10) + 10" using dm by linarith
    also have "\<dots> \<le> 10 * 10 ^ L" using ih(2) unfolding L_def by simp
    finally have b: "n < 10 * 10 ^ L" .
    show ?thesis using a b l unfolding L_def by simp
  qed
qed

lemma norm_dec_val: "norm_dec m e = (m', e') \<Longrightarrow> dec_val m' e' = dec_val m e"
proof (induction m e rule: norm_dec.induct)
  case (1 m e)
  show ?case
  proof (cases "m \<noteq> 0 \<and> m mod 10 = 0")
    case True
    then obtain q where q: "m = q * 10" by (metis mult.commute dvd_def mod_0_imp_dvd)
    have "dec_val (m div 10) (e + 1) = dec_val m e"
      by (simp add: q dec_val_def powr_add)
    moreover have "norm_dec (m div 10) (e + 1) = (m', e')"
      using "1.prems" True by (simp add: norm_dec.simps [of m e])
    ultimately show ?thesis using "1.IH" True by simp
  next
    case False
    then show ?thesis using "1.prems" by (auto simp: norm_dec.simps [of m e] dec_val_def split: if_splits)
  qed
qed

lemma norm_dec_normal: "norm_dec m e = (m', e') \<Longrightarrow> normal_dec m' e'"
proof (induction m e rule: norm_dec.induct)
  case (1 m e)
  then show ?case by (cases "m \<noteq> 0 \<and> m mod 10 = 0") (simp_all add: norm_dec.simps [of m e] normal_dec_def split: if_splits)
qed

lemma dec_val_bounds:
  assumes "0 < m"
  defines "d \<equiv> real (length (dec_string m))"
  shows "10 powr (d - 1 + e) \<le> dec_val (int m) e \<and> dec_val (int m) e < 10 powr (d + e)"
proof -
  have b: "10 ^ (length (dec_string m) - 1) \<le> m" "m < 10 ^ length (dec_string m)"
    using dec_string_bounds [OF assms(1)] by auto
  have l: "0 < length (dec_string m)" using b(2) assms(1)
    by (cases "length (dec_string m)") auto
  have l1: "1 \<le> length (dec_string m)" using l by linarith
  have e1: "d - 1 = real (length (dec_string m) - 1)" unfolding d_def of_nat_diff [OF l1] by simp
  have "(10::real) powr (d - 1) = real (10 ^ (length (dec_string m) - 1))"
    unfolding e1 by (simp add: powr_realpow)
  also have "\<dots> \<le> real m" using b(1) by (simp only: of_nat_le_iff)
  finally have lo: "10 powr (d - 1) \<le> real m" .
  have "real m < real (10 ^ length (dec_string m))" using b(2) by (simp only: of_nat_less_iff)
  also have "\<dots> = 10 powr d" by (simp add: d_def powr_realpow)
  finally have hi: "real m < 10 powr d" .
  have p: "0 < (10::real) powr e" by simp
  show ?thesis
    using mult_right_mono [OF lo less_imp_le [OF p]] mult_strict_right_mono [OF hi p]
    by (simp add: dec_val_def powr_add)
qed

lemma powr_10_int: "(10::real) powr real_of_int k = (if 0 \<le> k then 10 ^ nat k else 1 / 10 ^ nat (- k))"
  by (simp add: powr_int)

lemma dec_val_below:
  "0 < m \<Longrightarrow> int (length (dec_string m)) + e \<le> k \<Longrightarrow> dec_val (int m) e < 10 powr real_of_int k"
  using dec_val_bounds [of m e] powr_mono [of "real (length (dec_string m)) + real_of_int e" "real_of_int k" 10]
  by linarith

lemma dec_val_above:
  "0 < m \<Longrightarrow> k \<le> int (length (dec_string m)) - 1 + e \<Longrightarrow> 10 powr real_of_int k \<le> dec_val (int m) e"
  using dec_val_bounds [of m e] powr_mono [of "real_of_int k" "real (length (dec_string m)) - 1 + real_of_int e" 10]
  by linarith

lemma dec_overflows_iff: "0 < m \<Longrightarrow> dec_overflows m e \<longleftrightarrow> max_finite_bound \<le> dec_val (int m) e"
proof -
  assume m: "0 < m"
  define d where "d = length (dec_string m)"
  have t1: "(10::real) powr real_of_int 308 < max_finite_bound"
    using powr_realpow [of 10 308] by (simp add: max_finite_bound_def)
  have t2: "max_finite_bound < (10::real) powr real_of_int 309"
    using powr_realpow [of 10 309] by (simp add: max_finite_bound_def)
  consider (small) "int d + e \<le> 308" | (large) "int d - 1 + e \<ge> 309"
    | (mid) "\<not> int d + e \<le> 308" "\<not> int d - 1 + e \<ge> 309" by linarith
  then show ?thesis
  proof cases
    case small
    then show ?thesis using dec_val_below [OF m, of e 308] t1 by (simp add: dec_overflows_def d_def)
  next
    case large
    then show ?thesis using dec_val_above [OF m, of 309 e] t2 by (simp add: dec_overflows_def d_def)
  next
    case mid
    have "max_finite_bound \<le> dec_val (int m) e \<longleftrightarrow>
            (if 0 \<le> e then real_of_int (2 ^ 1024 - 2 ^ 970) \<le> real_of_int (int m * 10 ^ nat e)
             else real_of_int ((2 ^ 1024 - 2 ^ 970) * 10 ^ nat (- e)) \<le> real_of_int (int m))"
      by (simp add: dec_val_def powr_10_int max_finite_bound_def pos_le_divide_eq)
    then show ?thesis using mid by (simp only: of_int_le_iff) (simp add: dec_overflows_def d_def [symmetric])
  qed
qed

lemma dec_underflows_iff: "0 < m \<Longrightarrow> dec_underflows m e \<longleftrightarrow> dec_val (int m) e \<le> min_bound"
proof -
  assume m: "0 < m"
  define d where "d = length (dec_string m)"
  have t1: "(10::real) powr real_of_int (- 324) < min_bound"
    using powr_10_int [of "- 324"] by (simp add: min_bound_def)
  have t2: "min_bound < (10::real) powr real_of_int (- 323)"
    using powr_10_int [of "- 323"] by (simp add: min_bound_def)
  have d1: "d \<ge> 1" unfolding d_def by (subst dec_string.simps) simp
  consider (small) "int d + e \<le> -324" | (large) "int d - 1 + e \<ge> -323"
    | (mid) "int d + e = -323" "e < 0" using d1 by linarith
  then show ?thesis
  proof cases
    case small
    then show ?thesis using dec_val_below [OF m, of e "- 324"] t1 by (simp add: dec_underflows_def d_def)
  next
    case large
    then have "\<not> dec_val (int m) e \<le> min_bound" using dec_val_above [OF m, of "- 323" e] t2 by (simp add: d_def)
    then show ?thesis using large d1 by (simp add: dec_underflows_def d_def [symmetric])
  next
    case mid
    have "dec_val (int m) e \<le> min_bound \<longleftrightarrow>
            real_of_int (int m * 2 ^ 1075) \<le> real_of_int (10 ^ nat (- e))"
      using mid by (simp add: dec_val_def powr_10_int min_bound_def divide_le_eq field_simps)
    then show ?thesis using mid by (simp only: of_int_le_iff) (simp add: dec_underflows_def d_def [symmetric])
  qed
qed

lemma mk_num_canonical: "num_canonical (mk_num m e)"
proof (cases "m = 0 \<or> dec_overflows m e \<or> dec_underflows m e")
  case True
  then show ?thesis by (auto simp: mk_num_def num_canonical_def normal_dec_def)
next
  case False
  obtain m' e' where n: "norm_dec (int m) e = (m', e')" by fastforce
  then have "normal_dec m' e'" by (rule norm_dec_normal)
  then show ?thesis using False n by (simp add: mk_num_def num_canonical_def)
qed

lemma mk_num_in_range: "num_in_range (mk_num m e)"
proof -
  have mb: "0 < max_finite_bound" by (simp add: max_finite_bound_def)
  show ?thesis
  proof (cases "m = 0 \<or> dec_overflows m e \<or> dec_underflows m e")
    case True
    then show ?thesis using mb by (auto simp: mk_num_def num_in_range_def dec_val_def)
  next
    case False
    obtain m' e' where n: "norm_dec (int m) e = (m', e')" by fastforce
    have v: "dec_val m' e' = dec_val (int m) e" using n by (rule norm_dec_val)
    have pos: "0 < dec_val (int m) e" using False by (simp add: dec_val_def)
    have "dec_val (int m) e < max_finite_bound" "min_bound < dec_val (int m) e"
      using False dec_overflows_iff [of m e] dec_underflows_iff [of m e] by auto
    then show ?thesis using False n v pos by (simp add: mk_num_def num_in_range_def)
  qed
qed

lemma num_neg_canonical: "num_canonical n \<Longrightarrow> num_canonical (num_neg n)"
  by (cases n) (auto simp: num_canonical_def normal_dec_def zmod_zminus1_not_zero)

lemma num_neg_in_range: "num_in_range n \<Longrightarrow> num_in_range (num_neg n)"
  by (cases n) (simp_all add: num_in_range_def dec_val_def)

lemma parse_unsigned_shape: "parse_unsigned s = Some n \<Longrightarrow> n = JInf \<or> (\<exists>m e. n = mk_num m e)"
  by (auto simp: parse_unsigned_def Let_def split: if_splits prod.splits list.splits)

lemma parse_unsigned_wf: "parse_unsigned s = Some n \<Longrightarrow> num_canonical n \<and> num_in_range n"
  using parse_unsigned_shape [of s n] mk_num_canonical mk_num_in_range
  by (auto simp: num_canonical_def num_in_range_def)

lemma parse_float_str_shape:
  "parse_float_str s = JNaN \<or> (\<exists>t n. parse_unsigned t = Some n \<and> (parse_float_str s = n \<or> parse_float_str s = num_neg n))"
  by (auto simp: parse_float_str_def Let_def split: list.splits option.splits if_splits)

lemma parse_float_str_wf: "num_canonical (parse_float_str s) \<and> num_in_range (parse_float_str s)"
proof (cases "parse_float_str s = JNaN")
  case True
  then show ?thesis by (simp add: num_canonical_def num_in_range_def)
next
  case False
  then obtain t n where "parse_unsigned t = Some n" "parse_float_str s = n \<or> parse_float_str s = num_neg n"
    using parse_float_str_shape [of s] by blast
  then show ?thesis using parse_unsigned_wf num_neg_canonical num_neg_in_range by metis
qed

lemma js_parseFloat_wf: "num_canonical (js_parseFloat v) \<and> num_in_range (js_parseFloat v)"
  by (simp add: js_parseFloat_def parse_float_str_wf)

section \<open>Printing and reading back\<close>

lemma digits_val_append: "digits_val (xs @ ys) = digits_val xs * 10 ^ length ys + digits_val ys"
  by (induction ys rule: rev_induct) (simp_all add: digits_val_def)

lemma digits_val_zeros [simp]: "digits_val (replicate n CHR ''0'') = 0"
  by (induction n) (simp_all add: digits_val_def digit_val_def)

lemma digits_val_zeros_prefix [simp]: "digits_val (replicate n CHR ''0'' @ ds) = digits_val ds"
  by (simp add: digits_val_append)

lemma is_digit_zero [simp]: "is_digit CHR ''0''"
  by (simp add: is_digit_def)

lemma not_digit_dot [simp]: "\<not> is_digit CHR ''.''" and not_digit_e [simp]: "\<not> is_digit CHR ''e''"
  and not_digit_plus [simp]: "\<not> is_digit CHR ''+''" and not_digit_minus [simp]: "\<not> is_digit CHR ''-''"
  by (simp_all add: is_digit_def)

lemma list_all_zeros [simp]: "list_all is_digit (replicate n CHR ''0'')"
  by (simp add: list_all_iff)

lemma list_all_dec_string [simp]: "list_all is_digit (dec_string n)"
  by (rule dec_string_digits)

lemma takeWhile_digits: "list_all is_digit ds \<Longrightarrow> takeWhile is_digit (ds @ rest) = ds @ takeWhile is_digit rest"
  by (induction ds) auto

lemma dropWhile_digits: "list_all is_digit ds \<Longrightarrow> dropWhile is_digit (ds @ rest) = dropWhile is_digit rest"
  by (induction ds) auto

lemma takeWhile_dec_string [simp]: "takeWhile is_digit (dec_string n) = dec_string n"
  using takeWhile_digits [of "dec_string n" "[]"] by simp

lemma dec_string_ne [simp]: "dec_string n \<noteq> []"
  by (subst dec_string.simps) simp

lemma takeWhile_all_digits: "list_all is_digit ds \<Longrightarrow> takeWhile is_digit ds = ds"
  using takeWhile_digits [of ds "[]"] by simp

lemma dropWhile_all_digits: "list_all is_digit ds \<Longrightarrow> dropWhile is_digit ds = []"
  using dropWhile_digits [of ds "[]"] by simp

lemma parse_exp_suffix: "parse_exp (exp_suffix x) = x"
  by (cases "0 \<le> x") (simp_all add: parse_exp_def exp_suffix_def)

lemma norm_dec_times10: "m \<noteq> 0 \<Longrightarrow> norm_dec (10 * m) e = norm_dec m (e + 1)"
  by (simp add: norm_dec.simps [of "10 * m"])

lemma norm_dec_scale: "m \<noteq> 0 \<Longrightarrow> norm_dec (m * 10 ^ z) e = norm_dec m (e + int z)"
proof (induction z arbitrary: e)
  case (Suc z)
  have "norm_dec (m * 10 ^ Suc z) e = norm_dec (10 * (m * 10 ^ z)) e" by (simp add: ac_simps)
  also have "\<dots> = norm_dec (m * 10 ^ z) (e + 1)" using Suc.prems by (simp add: norm_dec_times10)
  also have "\<dots> = norm_dec m (e + int (Suc z))" using Suc.IH Suc.prems by (simp add: ac_simps)
  finally show ?case .
qed simp

lemma dec_val_scale: "dec_val (int (s * 10 ^ z)) e = dec_val (int s) (e + int z)"
  by (simp add: dec_val_def powr_add powr_realpow [symmetric] ac_simps)

lemma mk_num_scale: "mk_num (s * 10 ^ z) e = mk_num s (e + int z)"
proof (cases "s = 0")
  case False
  then have p: "0 < s * 10 ^ z" "0 < s" by simp_all
  have "dec_overflows (s * 10 ^ z) e = dec_overflows s (e + int z)"
    using dec_overflows_iff [OF p(1)] dec_overflows_iff [OF p(2)] dec_val_scale by simp
  moreover have "dec_underflows (s * 10 ^ z) e = dec_underflows s (e + int z)"
    using dec_underflows_iff [OF p(1)] dec_underflows_iff [OF p(2)] dec_val_scale by simp
  moreover have "norm_dec (int (s * 10 ^ z)) e = norm_dec (int s) (e + int z)"
    using norm_dec_scale [of "int s" z e] False by simp
  ultimately show ?thesis using False by (simp add: mk_num_def)
qed (simp add: mk_num_def)

lemma parse_exp_Nil [simp]: "parse_exp [] = 0"
  by (simp add: parse_exp_def)

lemma parse_unsigned_dec:
  assumes "list_all is_digit ip" "ip \<noteq> []" "list_all is_digit fp" "r = [] \<or> (\<exists>x. r = exp_suffix x)"
  shows "parse_unsigned (ip @ (if fp = [] then [] else CHR ''.'' # fp) @ r) =
           Some (mk_num (digits_val (ip @ fp)) (parse_exp r - int (length fp)))"
proof -
  obtain c cs where ip: "ip = c # cs" using assms(2) by (cases ip) auto
  have "c \<noteq> CHR ''I''" using assms(1) ip by (auto simp: is_digit_def)
  then have inf: "take 8 (ip @ rest) \<noteq> ''Infinity''" for rest using ip by simp
  have r: "takeWhile is_digit r = [] \<and> dropWhile is_digit r = r \<and> (r \<noteq> [] \<longrightarrow> hd r \<noteq> CHR ''.'')"
    using assms(4) by (auto simp: exp_suffix_def)
  show ?thesis
  proof (cases "fp = []")
    case True
    then show ?thesis using assms(1,2) inf r
      by (cases r) (auto simp: parse_unsigned_def Let_def takeWhile_digits dropWhile_digits
                                takeWhile_all_digits dropWhile_all_digits)
  next
    case False
    then show ?thesis using assms(1,2,3) inf r
      by (simp add: parse_unsigned_def Let_def takeWhile_digits dropWhile_digits)
  qed
qed

lemma parse_unsigned_pos:
  assumes "0 < s"
  shows "parse_unsigned (pos_to_string s e) = Some (mk_num s e)"
proof -
  define ds where "ds = dec_string s"
  define k where "k = int (length ds)"
  define n where "n = k + e"
  have d: "list_all is_digit ds" "ds \<noteq> []" "digits_val ds = s" by (simp_all add: ds_def)
  have k1: "1 \<le> k" using d(2) by (cases ds) (simp_all add: k_def)
  have all: "list_all is_digit (take i ds)" "list_all is_digit (drop i ds)" for i
    using d(1) by (auto simp: list_all_iff dest: in_set_takeD in_set_dropD)
  have tk: "take i ds \<noteq> []" if "0 < i" for i using d(2) that by simp
  have td: "digits_val (take i ds @ drop i ds) = s" for i using d(3) by simp
  have pos: "pos_to_string s e =
     (if k \<le> n \<and> n \<le> 21 then ds @ replicate (nat (n - k)) CHR ''0''
      else if 0 < n \<and> n \<le> 21 then take (nat n) ds @ CHR ''.'' # drop (nat n) ds
      else if -6 < n \<and> n \<le> 0 then CHR ''0'' # CHR ''.'' # replicate (nat (- n)) CHR ''0'' @ ds
      else if k = 1 then ds @ exp_suffix (n - 1)
      else take 1 ds @ CHR ''.'' # drop 1 ds @ exp_suffix (n - 1))"
    by (simp add: pos_to_string_def Let_def ds_def k_def n_def)
  consider (c1) "k \<le> n" "n \<le> 21" | (c2) "\<not> (k \<le> n \<and> n \<le> 21)" "0 < n" "n \<le> 21"
    | (c3) "\<not> (k \<le> n \<and> n \<le> 21)" "\<not> (0 < n \<and> n \<le> 21)" "-6 < n" "n \<le> 0"
    | (c4) "\<not> (k \<le> n \<and> n \<le> 21)" "\<not> (0 < n \<and> n \<le> 21)" "\<not> (-6 < n \<and> n \<le> 0)" "k = 1"
    | (c5) "\<not> (k \<le> n \<and> n \<le> 21)" "\<not> (0 < n \<and> n \<le> 21)" "\<not> (-6 < n \<and> n \<le> 0)" "k \<noteq> 1"
    by linarith
  then show ?thesis
  proof cases
    case c1
    have z: "list_all is_digit (ds @ replicate (nat (n - k)) CHR ''0'')" using d(1) by simp
    have "parse_unsigned (ds @ replicate (nat (n - k)) CHR ''0'') =
            Some (mk_num (s * 10 ^ nat (n - k)) 0)"
      using parse_unsigned_dec [OF z _ _, of "[]" "[]"] d by (simp add: digits_val_append)
    moreover have "pos_to_string s e = ds @ replicate (nat (n - k)) CHR ''0''" using pos by (simp only: if_P [OF conjI [OF c1]])
    ultimately show ?thesis using c1 by (simp add: mk_num_scale n_def)
  next
    case c2
    have l: "nat n < length ds" using c2 by (simp add: k_def)
    have "parse_unsigned (take (nat n) ds @ CHR ''.'' # drop (nat n) ds) =
            Some (mk_num s (0 - int (length (drop (nat n) ds))))"
      using parse_unsigned_dec [of "take (nat n) ds" "drop (nat n) ds" "[]"] all tk [of "nat n"] c2 l td by simp
    moreover have "pos_to_string s e = take (nat n) ds @ CHR ''.'' # drop (nat n) ds" using pos by (simp only: if_not_P [OF c2(1)] if_P [OF conjI [OF c2(2,3)]])
    ultimately show ?thesis using c2 l by (simp add: n_def k_def of_nat_diff)
  next
    case c3
    have z: "list_all is_digit (replicate (nat (- n)) CHR ''0'' @ ds)" using d(1) by simp
    have "parse_unsigned ([CHR ''0''] @ CHR ''.'' # replicate (nat (- n)) CHR ''0'' @ ds) =
            Some (mk_num s (0 - int (length (replicate (nat (- n)) CHR ''0'' @ ds))))"
      using parse_unsigned_dec [of "[CHR ''0'']" "replicate (nat (- n)) CHR ''0'' @ ds" "[]"] z d
            digits_val_zeros_prefix [of "Suc (nat (- n))" ds]
      by simp
    moreover have "pos_to_string s e = CHR ''0'' # CHR ''.'' # replicate (nat (- n)) CHR ''0'' @ ds"
      using pos by (simp only: if_not_P [OF c3(1)] if_not_P [OF c3(2)] if_P [OF conjI [OF c3(3,4)]])
    ultimately show ?thesis using c3 by (simp add: n_def k_def)
  next
    case c4
    have "parse_unsigned (ds @ exp_suffix (n - 1)) = Some (mk_num s (n - 1))"
      using parse_unsigned_dec [OF d(1) d(2), of "[]" "exp_suffix (n - 1)"] d(3) by (auto simp: parse_exp_suffix)
    moreover have "pos_to_string s e = ds @ exp_suffix (n - 1)" using pos by (simp only: if_not_P [OF c4(1)] if_not_P [OF c4(2)] if_not_P [OF c4(3)] if_P [OF c4(4)])
    ultimately show ?thesis using c4 by (simp add: n_def)
  next
    case c5
    have l: "1 < length ds" using c5 k1 by (simp add: k_def)
    have "parse_unsigned (take 1 ds @ CHR ''.'' # drop 1 ds @ exp_suffix (n - 1)) =
            Some (mk_num s (n - 1 - int (length (drop 1 ds))))"
      using parse_unsigned_dec [of "take 1 ds" "drop 1 ds" "exp_suffix (n - 1)"] all tk [of 1] l td
      by (auto simp: parse_exp_suffix)
    moreover have "pos_to_string s e = take 1 ds @ CHR ''.'' # drop 1 ds @ exp_suffix (n - 1)"
      using pos by (simp only: if_not_P [OF c5(1)] if_not_P [OF c5(2)] if_not_P [OF c5(3)] if_not_P [OF c5(4)])
    ultimately show ?thesis using c5 l by (simp add: n_def k_def of_nat_diff)
  qed
qed

lemma trim_start_no_ws:
  assumes "\<forall>w\<in>set js_ws. hd w \<noteq> c"
  shows "trim_start (c # t) = c # t"
proof -
  have ne: "list_all (\<lambda>w. w \<noteq> []) js_ws" by (simp add: js_ws_def)
  have "\<forall>w\<in>set js_ws. take (length w) (c # t) \<noteq> w"
  proof
    fix w assume w: "w \<in> set js_ws"
    then obtain y ys where "w = y # ys" using ne by (auto simp: list_all_iff neq_Nil_conv)
    then show "take (length w) (c # t) \<noteq> w" using assms w by auto
  qed
  then have "find (\<lambda>w. take (length w) (c # t) = w) js_ws = None"
    by (simp add: find_None_iff)
  then show ?thesis by (simp add: trim_start.simps [of "c # t"])
qed

lemma ws_head_digit: "is_digit c \<Longrightarrow> \<forall>w\<in>set js_ws. hd w \<noteq> c"
  by (auto simp: js_ws_def is_digit_def)

lemma ws_head_minus: "\<forall>w\<in>set js_ws. hd w \<noteq> CHR ''-''"
  and ws_head_N: "\<forall>w\<in>set js_ws. hd w \<noteq> CHR ''N''"
  and ws_head_I: "\<forall>w\<in>set js_ws. hd w \<noteq> CHR ''I''"
  by (simp_all add: js_ws_def)

lemma pos_to_string_hd: "\<exists>c t. pos_to_string s e = c # t \<and> is_digit c"
proof -
  obtain d ds where ds: "dec_string s = d # ds" by (cases "dec_string s") simp_all
  have "is_digit d" using dec_string_digits [of s] ds by simp
  then show ?thesis using ds
    by (auto simp: pos_to_string_def Let_def take_Cons' nat_le_iff)
qed

lemma mk_num_exact:
  assumes "0 < m" "normal_dec (int m) e" "num_in_range (JFin (int m) e)"
  shows "mk_num m e = JFin (int m) e"
proof -
  have "0 < dec_val (int m) e" using assms(1) by (simp add: dec_val_def)
  then have r: "dec_val (int m) e < max_finite_bound" "min_bound < dec_val (int m) e"
    using assms(1,3) by (simp_all add: num_in_range_def)
  have "norm_dec (int m) e = (int m, e)"
    using assms(1,2) by (simp add: norm_dec.simps [of "int m"] normal_dec_def)
  then show ?thesis
    using assms(1) r dec_overflows_iff [OF assms(1)] dec_underflows_iff [OF assms(1)]
    by (simp add: mk_num_def)
qed

lemma num_to_string_roundtrip:
  assumes "num_canonical n" "num_in_range n"
  shows "parse_float_str (num_to_string n) = n"
proof (cases n)
  case JNaN
  then show ?thesis
    by (simp add: parse_float_str_def trim_start_no_ws [OF ws_head_N] parse_unsigned_def is_digit_def)
next
  case JInf
  then show ?thesis by (simp add: parse_float_str_def trim_start_no_ws [OF ws_head_I] parse_unsigned_def)
next
  case JNInf
  then show ?thesis by (simp add: parse_float_str_def trim_start_no_ws [OF ws_head_minus] parse_unsigned_def)
next
  case (JFin m e)
  show ?thesis
  proof (cases "0 < m")
    case True
    obtain c t where p: "pos_to_string (nat m) e = c # t" "is_digit c" using pos_to_string_hd by blast
    have "c \<noteq> CHR ''-''" "c \<noteq> CHR ''+''" using p(2) by (auto simp: is_digit_def)
    moreover have "mk_num (nat m) e = JFin m e"
      using mk_num_exact [of "nat m" e] assms JFin True by (simp add: num_canonical_def)
    ultimately show ?thesis
      using JFin True p parse_unsigned_pos [of "nat m" e] trim_start_no_ws [OF ws_head_digit [OF p(2)]]
      by (simp add: parse_float_str_def)
  next
    case False
    show ?thesis
    proof (cases "m = 0")
      case True
      then show ?thesis using JFin assms(1)
        by (simp add: num_canonical_def normal_dec_def parse_float_str_def
                      trim_start_no_ws [OF ws_head_digit] parse_unsigned_def mk_num_def digits_val_def digit_val_def)
    next
      case m: False
      with False have neg: "0 < nat (- m)" by simp
      have "normal_dec (int (nat (- m))) e" using assms(1) JFin m False
        by (simp add: num_canonical_def normal_dec_def zmod_zminus1_not_zero)
      moreover have "num_in_range (JFin (int (nat (- m))) e)" using assms(2) JFin False
        by (simp add: num_in_range_def dec_val_def)
      ultimately have "mk_num (nat (- m)) e = JFin (- m) e"
        using mk_num_exact [OF neg] False by simp
      then show ?thesis
        using JFin False m parse_unsigned_pos [OF neg, of e] trim_start_no_ws [OF ws_head_minus]
        by (simp add: parse_float_str_def)
    qed
  qed
qed

end
