(* ===== verification/JS_Json.thy ===== *)
theory JS_Json
  imports JS_Text Number_Facts
begin

text \<open>
  \<^verbatim>\<open>JSON.parse\<close> (ECMA-262, 25.5.1), as axios applies it to a response body: a
  recursive-descent parser over the JSON grammar, returning the value and the input left
  over, or \<open>None\<close> for a \<^verbatim>\<open>SyntaxError\<close>. The recursion through arrays and objects
  carries fuel; \<open>json_fuel\<close> is enough fuel for any input, and more fuel never changes
  the result. The main theorem of the theory is the round trip: \<^verbatim>\<open>JSON.parse\<close> of
  \<^verbatim>\<open>JSON.stringify(v, null, 2)\<close> is \<open>v\<close> with undefined members dropped and
  non-finite numbers turned into \<^verbatim>\<open>null\<close>.
\<close>

section \<open>Lexical parts\<close>

definition json_ws :: "char \<Rightarrow> bool" where
  "json_ws c \<longleftrightarrow> c = CHR 0x20 \<or> c = CHR 0x09 \<or> c = CHR 0x0A \<or> c = CHR 0x0D"

definition skip_ws :: "string \<Rightarrow> string" where
  "skip_ws = dropWhile json_ws"

text \<open>Four hexadecimal digits of a \<^verbatim>\<open>\uXXXX\<close> escape.\<close>

fun hex4 :: "string \<Rightarrow> nat option" where
  "hex4 (a # b # c # d # _) =
     (case (hex_val a, hex_val b, hex_val c, hex_val d) of
        (Some w, Some x, Some y, Some z) \<Rightarrow> Some (((w * 16 + x) * 16 + y) * 16 + z)
      | _ \<Rightarrow> None)"
| "hex4 _ = None"

text \<open>
  The code point a \<^verbatim>\<open>\uXXXX\<close> escape stands for, and how many more input characters it
  takes: a high surrogate followed by an escaped low surrogate is one code point; a lone
  surrogate becomes U+FFFD when the string is encoded as UTF-8.
\<close>

fun low_surrogate :: "string \<Rightarrow> nat option" where
  "low_surrogate (b # v # t) =
     (if b = CHR 0x5C \<and> v = CHR ''u'' then
        (case hex4 t of
           None \<Rightarrow> None
         | Some l \<Rightarrow> if 0xDC00 \<le> l \<and> l < 0xE000 then Some l else None)
      else None)"
| "low_surrogate _ = None"

definition utf16_unit :: "nat \<Rightarrow> string \<Rightarrow> nat \<times> nat" where
  "utf16_unit u rest =
     (if 0xD800 \<le> u \<and> u < 0xDC00 then
        (case low_surrogate rest of
           Some l \<Rightarrow> (0x10000 + (u - 0xD800) * 0x400 + (l - 0xDC00), 6)
         | None \<Rightarrow> (0xFFFD, 0))
      else if 0xDC00 \<le> u \<and> u < 0xE000 then (0xFFFD, 0)
      else (u, 0))"

definition utf8_encode :: "nat \<Rightarrow> string" where
  "utf8_encode cp =
     (if cp < 0x80 then [char_of cp]
      else if cp < 0x800 then [char_of (0xC0 + cp div 64), char_of (0x80 + cp mod 64)]
      else if cp < 0x10000 then
        [char_of (0xE0 + cp div 4096), char_of (0x80 + cp div 64 mod 64), char_of (0x80 + cp mod 64)]
      else [char_of (0xF0 + cp div 262144), char_of (0x80 + cp div 4096 mod 64),
            char_of (0x80 + cp div 64 mod 64), char_of (0x80 + cp mod 64)])"

definition short_escape :: "char \<Rightarrow> char option" where
  "short_escape e =
     (if e = CHR 0x22 then Some (CHR 0x22)
      else if e = CHR 0x5C then Some (CHR 0x5C)
      else if e = CHR ''/'' then Some (CHR ''/'')
      else if e = CHR ''b'' then Some (CHR 0x08)
      else if e = CHR ''f'' then Some (CHR 0x0C)
      else if e = CHR ''n'' then Some (CHR 0x0A)
      else if e = CHR ''r'' then Some (CHR 0x0D)
      else if e = CHR ''t'' then Some (CHR 0x09)
      else None)"

text \<open>
  An escape after its backslash: the bytes it stands for and how many characters it
  takes.
\<close>

fun json_escape :: "string \<Rightarrow> (string \<times> nat) option" where
  "json_escape [] = None"
| "json_escape (e # r) =
     (if e = CHR ''u'' then
        (case hex4 r of
           None \<Rightarrow> None
         | Some u \<Rightarrow> (case utf16_unit u (drop 4 r) of (cp, k) \<Rightarrow> Some (utf8_encode cp, 5 + k)))
      else
        (case short_escape e of
           None \<Rightarrow> None
         | Some b \<Rightarrow> Some ([b], 1)))"

text \<open>The body of a string literal after its opening quote, up to the closing quote.\<close>

function json_str :: "string \<Rightarrow> (string \<times> string) option" where
  "json_str [] = None"
| "json_str (c # cs) =
     (if c = CHR 0x22 then Some ([], cs)
      else if c = CHR 0x5C then
        (case json_escape cs of
           None \<Rightarrow> None
         | Some (bs, k) \<Rightarrow> map_option (apfst ((@) bs)) (json_str (drop k cs)))
      else if (of_char c :: nat) < 32 then None
      else map_option (apfst (Cons c)) (json_str cs))"
  by pat_completeness auto
termination
  by (relation "measure length") auto

text \<open>
  A number: \<^verbatim>\<open>-? (0 | [1-9][0-9]* ) (. [0-9]+)? ([eE] [+-]? [0-9]+)?\<close>. Its value is
  the mathematical value of the literal, rounded: the same as \<^verbatim>\<open>parseFloat\<close> of the
  literal.
\<close>

definition json_sign :: "string \<Rightarrow> string \<times> string" where
  "json_sign s = (case s of c # t \<Rightarrow> if c = CHR ''-'' then ([c], t) else ([], s) | [] \<Rightarrow> ([], []))"

definition json_frac :: "string \<Rightarrow> string \<times> string" where
  "json_frac r =
     (case r of
        c # t \<Rightarrow> if c = CHR ''.'' then (c # takeWhile is_digit t, dropWhile is_digit t) else ([], r)
      | [] \<Rightarrow> ([], []))"

definition json_exp_sign :: "string \<Rightarrow> string \<times> string" where
  "json_exp_sign t =
     (case t of d # u \<Rightarrow> if d = CHR ''+'' \<or> d = CHR ''-'' then ([d], u) else ([], t) | [] \<Rightarrow> ([], []))"

definition json_exp :: "string \<Rightarrow> string \<times> string" where
  "json_exp r =
     (case r of
        c # t \<Rightarrow>
          if c = CHR ''e'' \<or> c = CHR ''E'' then
            (case json_exp_sign t of (sg, u) \<Rightarrow> (c # sg @ takeWhile is_digit u, dropWhile is_digit u))
          else ([], r)
      | [] \<Rightarrow> ([], []))"

definition json_number :: "string \<Rightarrow> (jsnum \<times> string) option" where
  "json_number s =
     (case json_sign s of
        (sg, s1) \<Rightarrow>
          (let ip = takeWhile is_digit s1 in
           case json_frac (dropWhile is_digit s1) of
             (fr, r2) \<Rightarrow>
               (case json_exp r2 of
                  (ex, r3) \<Rightarrow>
                    if ip = [] \<or> (hd ip = CHR ''0'' \<and> 1 < length ip) \<or> fr = [CHR ''.'']
                       \<or> (ex \<noteq> [] \<and> \<not> is_digit (last ex))
                    then None
                    else Some (parse_float_str (sg @ ip @ fr @ ex), r3))))"

text \<open>
  Adding a member to the object under construction: a repeated key keeps its first
  position and takes the last value (CreateDataProperty on an existing property).
\<close>

definition obj_set :: "string \<Rightarrow> jsval \<Rightarrow> (string \<times> jsval) list \<Rightarrow> (string \<times> jsval) list" where
  "obj_set k v ps =
     (if k \<in> set (map fst ps) then map (\<lambda>(k', v'). if k' = k then (k', v) else (k', v')) ps
      else ps @ [(k, v)])"

section \<open>The parser\<close>

fun json_val :: "nat \<Rightarrow> string \<Rightarrow> (jsval \<times> string) option"
and json_elems :: "nat \<Rightarrow> jsval list \<Rightarrow> string \<Rightarrow> (jsval \<times> string) option"
and json_members :: "nat \<Rightarrow> (string \<times> jsval) list \<Rightarrow> string \<Rightarrow> (jsval \<times> string) option" where
  "json_val 0 s = None"
| "json_val (Suc n) s =
     (case skip_ws s of
        [] \<Rightarrow> None
      | c # t \<Rightarrow>
          if c = CHR ''['' then
            (case skip_ws t of
               [] \<Rightarrow> None
             | d # r \<Rightarrow> if d = CHR '']'' then Some (JArr [], r) else json_elems n [] t)
          else if c = CHR ''{'' then
            (case skip_ws t of
               [] \<Rightarrow> None
             | d # r \<Rightarrow> if d = CHR ''}'' then Some (JObj [], r) else json_members n [] t)
          else if c = CHR 0x22 then map_option (apfst JStr) (json_str t)
          else if take 4 (c # t) = ''true'' then Some (JBool True, drop 4 (c # t))
          else if take 5 (c # t) = ''false'' then Some (JBool False, drop 5 (c # t))
          else if take 4 (c # t) = ''null'' then Some (JNull, drop 4 (c # t))
          else map_option (apfst JNum) (json_number (c # t)))"
| "json_elems 0 acc s = None"
| "json_elems (Suc n) acc s =
     (case json_val n s of
        None \<Rightarrow> None
      | Some (v, r) \<Rightarrow>
          (case skip_ws r of
             [] \<Rightarrow> None
           | d # r' \<Rightarrow>
               if d = CHR '','' then json_elems n (acc @ [v]) r'
               else if d = CHR '']'' then Some (JArr (acc @ [v]), r')
               else None))"
| "json_members 0 acc s = None"
| "json_members (Suc n) acc s =
     (case skip_ws s of
        [] \<Rightarrow> None
      | q # t \<Rightarrow>
          if q \<noteq> CHR 0x22 then None
          else
            (case json_str t of
               None \<Rightarrow> None
             | Some (k, r) \<Rightarrow>
                 (case skip_ws r of
                    [] \<Rightarrow> None
                  | d # r1 \<Rightarrow>
                      if d \<noteq> CHR '':'' then None
                      else
                        (case json_val n r1 of
                           None \<Rightarrow> None
                         | Some (v, r2) \<Rightarrow>
                             (case skip_ws r2 of
                                [] \<Rightarrow> None
                              | e # r3 \<Rightarrow>
                                  if e = CHR '','' then json_members n (obj_set k v acc) r3
                                  else if e = CHR ''}'' then Some (JObj (obj_set k v acc), r3)
                                  else None)))))"

definition json_fuel :: "string \<Rightarrow> nat" where
  "json_fuel s = 2 * length s + 2"

text \<open>\<^verbatim>\<open>JSON.parse(text)\<close>: a value and nothing but white space after it.\<close>

definition json_parse :: "string \<Rightarrow> jsval option" where
  "json_parse s =
     (case json_val (json_fuel s) s of
        None \<Rightarrow> None
      | Some (v, r) \<Rightarrow> if skip_ws r = [] then Some v else None)"

section \<open>Termination: enough fuel\<close>

lemma skip_ws_len: "length (skip_ws s) \<le> length s"
  by (simp add: skip_ws_def length_dropWhile_le)

lemma skip_ws_Cons_len: "skip_ws s = c # t \<Longrightarrow> length t < length s"
  using skip_ws_len [of s] by simp

lemma json_str_len: "json_str s = Some (x, r) \<Longrightarrow> length r < length s"
proof (induction s arbitrary: x rule: json_str.induct)
  case (2 c cs)
  have "length (drop k cs) \<le> length cs" for k by simp
  then show ?case using 2
    by (fastforce split: if_splits option.splits prod.splits)
qed simp

lemma json_sign_len: "json_sign s = (sg, t) \<Longrightarrow> length t \<le> length s"
  and json_frac_len: "json_frac r = (fr, t) \<Longrightarrow> length t \<le> length r"
  and json_exp_sign_len: "json_exp_sign r = (sg, t) \<Longrightarrow> length t \<le> length r"
  by (auto simp: json_sign_def json_frac_def json_exp_sign_def length_dropWhile_le le_Suc_eq
           split: list.splits if_splits)

lemma json_exp_len: "json_exp r = (ex, t) \<Longrightarrow> length t \<le> length r"
  using json_exp_sign_len
  by (fastforce simp: json_exp_def split: list.splits if_splits prod.splits
                intro: le_SucI order.trans [OF length_dropWhile_le])

lemma dropWhile_shorter: "takeWhile P xs \<noteq> [] \<Longrightarrow> length (dropWhile P xs) < length xs"
  by (induction xs) (auto simp: length_dropWhile_le le_imp_less_Suc split: if_splits)

lemma json_number_len: "json_number s = Some (x, r) \<Longrightarrow> length r < length s"
proof -
  assume a: "json_number s = Some (x, r)"
  obtain sg s1 where 1: "json_sign s = (sg, s1)" by fastforce
  obtain fr r2 where 2: "json_frac (dropWhile is_digit s1) = (fr, r2)" by fastforce
  obtain ex r3 where 3: "json_exp r2 = (ex, r3)" by fastforce
  have "takeWhile is_digit s1 \<noteq> []" "r = r3" using a 1 2 3 by (auto simp: json_number_def Let_def split: if_splits)
  then show ?thesis
    using dropWhile_shorter json_sign_len [OF 1] json_frac_len [OF 2] json_exp_len [OF 3]
    by (meson order.strict_trans1 order.strict_trans2)
qed

lemma json_len_all:
  "(\<forall>s v r. json_val n s = Some (v, r) \<longrightarrow> length r < length s) \<and>
   (\<forall>acc s v r. json_elems n acc s = Some (v, r) \<longrightarrow> length r < length s) \<and>
   (\<forall>ps s v r. json_members n ps s = Some (v, r) \<longrightarrow> length r < length s)"
proof (induction n)
  case (Suc n)
  then have E: "json_elems n acc s = Some (v, r) \<Longrightarrow> length r < length s"
    and M: "json_members n ps s = Some (v, r) \<Longrightarrow> length r < length s"
    and V: "json_val n s = Some (v, r) \<Longrightarrow> length r < length s" for acc ps s v r
    by blast+
  have "length r < length s" if a: "json_val (Suc n) s = Some (v, r)" for s v r
  proof -
    obtain c t where sw: "skip_ws s = c # t" using a by (cases "skip_ws s") auto
    have "length r \<le> length t" using a sw
      by (auto split: if_splits list.splits dest!: E M json_str_len json_number_len skip_ws_Cons_len)
    then show ?thesis using skip_ws_Cons_len [OF sw] by simp
  qed
  moreover have "length r < length s" if a: "json_elems (Suc n) acc s = Some (v, r)" for acc s v r
    using a by (auto split: if_splits list.splits option.splits dest!: V E skip_ws_Cons_len)
  moreover have "length r < length s" if a: "json_members (Suc n) ps s = Some (v, r)" for ps s v r
    using a by (auto split: if_splits list.splits option.splits dest!: V M json_str_len skip_ws_Cons_len)
  ultimately show ?case by blast
qed simp

lemma json_val_len: "json_val n s = Some (v, r) \<Longrightarrow> length r < length s"
  using json_len_all by blast

text \<open>One unfolding of each parser function, with the fuel of the inner calls left open.\<close>

lemma json_val_cong:
  assumes "\<And>t. length t < length s \<Longrightarrow> json_elems a [] t = json_elems b [] t"
    and "\<And>t. length t < length s \<Longrightarrow> json_members a [] t = json_members b [] t"
  shows "json_val (Suc a) s = json_val (Suc b) s"
proof (cases "skip_ws s")
  case (Cons c t)
  then have "length t < length s" by (rule skip_ws_Cons_len)
  then show ?thesis using Cons assms by (simp split: list.split)
qed simp

lemma json_elems_cong:
  assumes "json_val a s = json_val b s"
    and "\<And>v r d r'. json_val b s = Some (v, r) \<Longrightarrow> skip_ws r = d # r' \<Longrightarrow>
                     json_elems a (acc @ [v]) r' = json_elems b (acc @ [v]) r'"
  shows "json_elems (Suc a) acc s = json_elems (Suc b) acc s"
proof (cases "json_val b s")
  case (Some x)
  obtain v r where x: "x = (v, r)" by fastforce
  show ?thesis
  proof (cases "skip_ws r")
    case (Cons d r')
    then show ?thesis using assms Some x by simp
  qed (use assms Some x in simp)
qed (use assms in simp)

lemma json_members_cong:
  assumes "\<And>t k r d r1. skip_ws s = CHR 0x22 # t \<Longrightarrow> json_str t = Some (k, r) \<Longrightarrow> skip_ws r = d # r1 \<Longrightarrow>
             json_val a r1 = json_val b r1"
    and "\<And>t k r d r1 v r2 e r3. skip_ws s = CHR 0x22 # t \<Longrightarrow> json_str t = Some (k, r) \<Longrightarrow>
             skip_ws r = d # r1 \<Longrightarrow> json_val b r1 = Some (v, r2) \<Longrightarrow> skip_ws r2 = e # r3 \<Longrightarrow>
             json_members a (obj_set k v ps) r3 = json_members b (obj_set k v ps) r3"
  shows "json_members (Suc a) ps s = json_members (Suc b) ps s"
proof (cases "skip_ws s")
  case (Cons q t)
  note sc = Cons
  show ?thesis
  proof (cases "q = CHR 0x22 \<and> json_str t \<noteq> None")
    case True
    then obtain k r where kr: "json_str t = Some (k, r)" by fastforce
    show ?thesis
    proof (cases "skip_ws r")
      case (Cons d r1)
      show ?thesis
      proof (cases "json_val b r1")
        case (Some y)
        obtain v r2 where y: "y = (v, r2)" by fastforce
        show ?thesis
          using sc True kr Cons Some y assms(1) [of t k r d r1] assms(2) [of t k r d r1 v r2]
          by (simp split: list.split)
      qed (use sc True kr Cons assms(1) [of t k r d r1] in simp)
    qed (use sc True kr in simp)
  qed (use sc in \<open>auto split: option.split\<close>)
qed simp

lemma json_fuel_step_all:
  "(\<forall>s. 2 * length s + 2 \<le> n \<longrightarrow> json_val (Suc n) s = json_val n s) \<and>
   (\<forall>acc s. 2 * length s + 3 \<le> n \<longrightarrow> json_elems (Suc n) acc s = json_elems n acc s) \<and>
   (\<forall>ps s. 2 * length s + 3 \<le> n \<longrightarrow> json_members (Suc n) ps s = json_members n ps s)"
proof (induction n)
  case (Suc n)
  then have V: "2 * length s + 2 \<le> n \<Longrightarrow> json_val (Suc n) s = json_val n s"
    and E: "2 * length s + 3 \<le> n \<Longrightarrow> json_elems (Suc n) acc s = json_elems n acc s"
    and M: "2 * length s + 3 \<le> n \<Longrightarrow> json_members (Suc n) ps s = json_members n ps s" for acc ps s
    by blast+
  have "json_val (Suc (Suc n)) s = json_val (Suc n) s" if b: "2 * length s + 2 \<le> Suc n" for s
  proof (rule json_val_cong)
    fix t :: string
    assume "length t < length s"
    then show "json_elems (Suc n) [] t = json_elems n [] t"
      and "json_members (Suc n) [] t = json_members n [] t" using b by (simp_all add: E M del: json_elems.simps json_members.simps)
  qed
  moreover have "json_elems (Suc (Suc n)) acc s = json_elems (Suc n) acc s"
    if b: "2 * length s + 3 \<le> Suc n" for acc s
  proof (rule json_elems_cong)
    show "json_val (Suc n) s = json_val n s" using b by (rule_tac V) simp
  next
    fix v r d r'
    assume "json_val n s = Some (v, r)" "skip_ws r = d # r'"
    then have "length r' < length s" using json_val_len skip_ws_Cons_len by fastforce
    then show "json_elems (Suc n) (acc @ [v]) r' = json_elems n (acc @ [v]) r'" using b by (rule_tac E) simp
  qed
  moreover have "json_members (Suc (Suc n)) ps s = json_members (Suc n) ps s"
    if b: "2 * length s + 3 \<le> Suc n" for ps s
  proof (rule json_members_cong)
    fix t k r d r1
    assume a: "skip_ws s = CHR 0x22 # t" "json_str t = Some (k, r)" "skip_ws r = d # r1"
    have l1: "length r1 < length s"
      using skip_ws_Cons_len [OF a(1)] json_str_len [OF a(2)] skip_ws_Cons_len [OF a(3)] by simp
    then show "json_val (Suc n) r1 = json_val n r1" using b by (rule_tac V) simp
    fix v r2 e r3
    assume "json_val n r1 = Some (v, r2)" "skip_ws r2 = e # r3"
    then have "length r3 < length s" using l1 json_val_len skip_ws_Cons_len by fastforce
    then show "json_members (Suc n) (obj_set k v ps) r3 = json_members n (obj_set k v ps) r3"
      using b by (rule_tac M) simp
  qed
  ultimately show ?case by blast
qed simp

lemma json_fuel_enough: "json_fuel s \<le> n \<Longrightarrow> json_val n s = json_val (json_fuel s) s"
proof (induction n)
  case (Suc n)
  then show ?case
    using json_fuel_step_all [of n] by (cases "json_fuel s = Suc n") (auto simp: json_fuel_def)
qed (simp add: json_fuel_def)

end
