(* ===== verification/Json_Roundtrip.thy ===== *)
theory Json_Roundtrip
  imports JS_Json
begin

text \<open>
  \<^verbatim>\<open>JSON.parse\<close> inverts \<^verbatim>\<open>JSON.stringify(v, null, 2)\<close>: for a value whose
  objects have distinct keys and whose finite numbers are canonical and within the range
  of binary64, parsing the printed text gives the value back, with the members holding
  \<^verbatim>\<open>undefined\<close> left out, \<^verbatim>\<open>undefined\<close> array elements read as \<^verbatim>\<open>null\<close>, and
  non-finite numbers read as \<^verbatim>\<open>null\<close> (\<open>json_norm\<close>).
\<close>

section \<open>Definitions\<close>

text \<open>What \<^verbatim>\<open>JSON.stringify\<close> keeps of a value, as \<^verbatim>\<open>JSON.parse\<close> reads it back.\<close>

fun json_norm :: "jsval \<Rightarrow> jsval"
and json_norm_elems :: "jsval list \<Rightarrow> jsval list"
and json_norm_props :: "(string \<times> jsval) list \<Rightarrow> (string \<times> jsval) list" where
  "json_norm (JNum n) = (case n of JFin m e \<Rightarrow> JNum n | _ \<Rightarrow> JNull)"
| "json_norm (JArr xs) = JArr (json_norm_elems xs)"
| "json_norm (JObj ps) = JObj (json_norm_props ps)"
| "json_norm JUndef = JUndef"
| "json_norm JNull = JNull"
| "json_norm (JBool b) = JBool b"
| "json_norm (JStr s) = JStr s"
| "json_norm_elems [] = []"
| "json_norm_elems (x # xs) = (if x = JUndef then JNull else json_norm x) # json_norm_elems xs"
| "json_norm_props [] = []"
| "json_norm_props ((k, v) # ps) =
     (if v = JUndef then json_norm_props ps else (k, json_norm v) # json_norm_props ps)"

text \<open>Values a JavaScript program can hold: distinct keys, numbers as binary64 has them.\<close>

fun json_wf :: "jsval \<Rightarrow> bool"
and json_wf_elems :: "jsval list \<Rightarrow> bool"
and json_wf_props :: "(string \<times> jsval) list \<Rightarrow> bool" where
  "json_wf (JNum n) = (num_canonical n \<and> num_in_range n)"
| "json_wf (JArr xs) = json_wf_elems xs"
| "json_wf (JObj ps) = (distinct (map fst ps) \<and> json_wf_props ps)"
| "json_wf JUndef = True"
| "json_wf JNull = True"
| "json_wf (JBool b) = True"
| "json_wf (JStr s) = True"
| "json_wf_elems [] = True"
| "json_wf_elems (x # xs) = (json_wf x \<and> json_wf_elems xs)"
| "json_wf_props [] = True"
| "json_wf_props ((k, v) # ps) = (json_wf v \<and> json_wf_props ps)"

text \<open>The text after a value: nothing, white space, or a delimiter of the enclosing value.\<close>

definition json_stop :: "string \<Rightarrow> bool" where
  "json_stop r =
     (case r of [] \<Rightarrow> True | c # _ \<Rightarrow> json_ws c \<or> c = CHR '','' \<or> c = CHR '']'' \<or> c = CHR ''}'')"

text \<open>Indentation: spaces only.\<close>

abbreviation spaces :: "string \<Rightarrow> bool" where
  "spaces ind \<equiv> list_all (\<lambda>c. c = CHR '' '') ind"

section \<open>String literals\<close>

lemma append_single_fun [simp]: "(@) [c] = Cons c"
  by (rule ext) simp

lemma hex_val_hex_lower: "d < 16 \<Longrightarrow> hex_val (hex_lower d) = Some d"
  by (auto simp: hex_val_def hex_lower_def digit_char_def is_digit_def digit_val_def Let_def)

lemma json_str_quote_char:
  "json_str (json_quote_char c @ r) = map_option (apfst (Cons c)) (json_str r)"
proof -
  let ?n = "of_char c :: nat"
  have ctl: "json_str (CHR 0x5C # CHR ''u'' # CHR ''0'' # CHR ''0'' # hex_lower (?n div 16) # hex_lower (?n mod 16) # r)
               = map_option (apfst (Cons c)) (json_str r)" if "?n < 32"
  proof -
    have "?n div 16 < 16" "?n mod 16 < 16" using that by simp_all
    moreover have "hex_val CHR ''0'' = Some 0" by (simp add: hex_val_def is_digit_def digit_val_def)
    ultimately have "hex4 (CHR ''0'' # CHR ''0'' # hex_lower (?n div 16) # hex_lower (?n mod 16) # r) = Some ?n"
      by (simp add: hex_val_hex_lower)
    moreover have "utf16_unit ?n r = (?n, 0)" using that by (simp add: utf16_unit_def)
    moreover have "utf8_encode ?n = [c]" using that by (simp add: utf8_encode_def)
    ultimately show ?thesis by simp
  qed
  have esc: "json_str (CHR 0x5C # e # r) = map_option (apfst (Cons c)) (json_str r)"
    if "short_escape e = Some c" for e
  proof -
    have "e \<noteq> CHR ''u''" using that by (auto simp: short_escape_def)
    then show ?thesis using that by simp
  qed
  consider "c = CHR 0x22" | "c = CHR 0x5C" | "c = CHR 0x08" | "c = CHR 0x0C" | "c = CHR 0x0A"
    | "c = CHR 0x0D" | "c = CHR 0x09"
    | "c \<noteq> CHR 0x22" "c \<noteq> CHR 0x5C" "c \<noteq> CHR 0x08" "c \<noteq> CHR 0x0C" "c \<noteq> CHR 0x0A"
      "c \<noteq> CHR 0x0D" "c \<noteq> CHR 0x09"
    by blast
  then show ?thesis
  proof cases
    case 8
    show ?thesis
    proof (cases "?n < 32")
      case True
      then show ?thesis using 8 by (simp add: json_quote_char_def ctl del: json_str.simps)
    qed (use 8 in \<open>simp add: json_quote_char_def\<close>)
  qed (simp_all add: json_quote_char_def esc short_escape_def)
qed

lemma json_str_quote: "json_str (concat (map json_quote_char s) @ CHR 0x22 # rest) = Some (s, rest)"
  by (induction s) (simp_all add: json_str_quote_char)

section \<open>Number literals\<close>

lemma dropWhile_takeWhile_Nil: "takeWhile P xs = [] \<Longrightarrow> dropWhile P xs = xs"
  using takeWhile_dropWhile_id [of P xs] by simp

lemma dec_string_hd: "0 < n \<Longrightarrow> hd (dec_string n) \<noteq> CHR ''0''"
proof (induction n rule: dec_string.induct)
  case (1 n)
  show ?case
  proof (cases "n < 10")
    case True
    then show ?thesis using 1(2) by (subst dec_string.simps) (simp add: digit_char_def char_of_eq_iff)
  next
    case False
    then have "hd (dec_string (n div 10)) \<noteq> CHR ''0''" using 1 by simp
    then show ?thesis using False by (subst dec_string.simps) simp
  qed
qed

lemma pos_to_string_shape:
  assumes "0 < s"
  shows "\<exists>ip fp r. pos_to_string s e = ip @ (if fp = [] then [] else CHR ''.'' # fp) @ r \<and>
           list_all is_digit ip \<and> ip \<noteq> [] \<and> (hd ip = CHR ''0'' \<longrightarrow> ip = ''0'') \<and>
           list_all is_digit fp \<and> (r = [] \<or> (\<exists>x. r = exp_suffix x))"
proof -
  define ds where "ds = dec_string s"
  define k where "k = int (length ds)"
  define n where "n = k + e"
  have d: "list_all is_digit ds" "ds \<noteq> []" "hd ds \<noteq> CHR ''0''"
    using dec_string_hd [OF assms] by (simp_all add: ds_def)
  have all: "list_all is_digit (take i ds)" "list_all is_digit (drop i ds)" for i
    using d(1) by (auto simp: list_all_iff dest: in_set_takeD in_set_dropD)
  have hd_take: "0 < i \<Longrightarrow> take i ds \<noteq> [] \<and> hd (take i ds) \<noteq> CHR ''0''" for i
    using d(2,3) by (cases ds) simp_all
  have pos: "pos_to_string s e =
     (if k \<le> n \<and> n \<le> 21 then ds @ replicate (nat (n - k)) CHR ''0''
      else if 0 < n \<and> n \<le> 21 then take (nat n) ds @ CHR ''.'' # drop (nat n) ds
      else if -6 < n \<and> n \<le> 0 then CHR ''0'' # CHR ''.'' # replicate (nat (- n)) CHR ''0'' @ ds
      else if k = 1 then ds @ exp_suffix (n - 1)
      else take 1 ds @ CHR ''.'' # drop 1 ds @ exp_suffix (n - 1))"
    by (simp add: pos_to_string_def Let_def ds_def k_def n_def)
  have k1: "1 \<le> k" using d(2) by (cases ds) (simp_all add: k_def)
  show ?thesis
  proof (cases "k \<le> n \<and> n \<le> 21")
    case True
    then show ?thesis using pos d
      apply -
      apply (rule exI [of _ "ds @ replicate (nat (n - k)) CHR ''0''"])
      apply (rule exI [of _ "[]"])
      apply (rule exI [of _ "[]"])
      apply (simp add: hd_append2)
      done
  next
    case c1: False
    show ?thesis
    proof (cases "0 < n \<and> n \<le> 21")
      case True
      have "nat n < length ds" using c1 True by (simp add: k_def nat_less_iff)
      then show ?thesis using c1 True pos all hd_take [of "nat n"]
        apply -
        apply (rule exI [of _ "take (nat n) ds"], rule exI [of _ "drop (nat n) ds"], rule exI [of _ "[]"])
        apply simp
        done
    next
      case c2: False
      show ?thesis
      proof (cases "-6 < n \<and> n \<le> 0")
        case True
        then show ?thesis using c1 c2 pos d
          apply -
          apply (rule exI [of _ "''0''"], rule exI [of _ "replicate (nat (- n)) CHR ''0'' @ ds"], rule exI [of _ "[]"])
          apply simp
          done
      next
        case c3: False
        show ?thesis
        proof (cases "k = 1")
          case True
          then show ?thesis using c1 c2 c3 pos d
            apply -
            apply (rule exI [of _ ds], rule exI [of _ "[]"], rule exI [of _ "exp_suffix (n - 1)"])
            apply auto
            done
        next
          case False
          have "1 < length ds" using False k1 by (simp add: k_def)
          then show ?thesis using c1 c2 c3 False pos all hd_take [of 1]
            apply -
            apply (rule exI [of _ "take 1 ds"], rule exI [of _ "drop 1 ds"], rule exI [of _ "exp_suffix (n - 1)"])
            apply auto
            done
        qed
      qed
    qed
  qed
qed

lemma json_stop_num:
  assumes "json_stop rest"
  shows "takeWhile is_digit rest = []" "dropWhile is_digit rest = rest"
    "json_frac rest = ([], rest)" "json_exp rest = ([], rest)"
  using assms by (auto simp: json_stop_def json_ws_def is_digit_def json_frac_def json_exp_def split: list.splits)

lemma exp_suffix_lex:
  assumes "json_stop rest"
  shows "json_exp (exp_suffix x @ rest) = (exp_suffix x, rest)"
    and "takeWhile is_digit (exp_suffix x @ rest) = []"
    and "json_frac (exp_suffix x @ rest) = ([], exp_suffix x @ rest)"
    and "is_digit (last (exp_suffix x))"
proof -
  obtain d ds where ds: "dec_string (nat \<bar>x\<bar>) = d # ds" by (cases "dec_string (nat \<bar>x\<bar>)") simp_all
  have dig: "list_all is_digit (d # ds)" using dec_string_digits [of "nat \<bar>x\<bar>"] ds by simp
  show "json_exp (exp_suffix x @ rest) = (exp_suffix x, rest)"
    using assms dig ds by (simp add: exp_suffix_def json_exp_def json_exp_sign_def takeWhile_digits
                                    dropWhile_digits json_stop_num)
  show "takeWhile is_digit (exp_suffix x @ rest) = []" "json_frac (exp_suffix x @ rest) = ([], exp_suffix x @ rest)"
    by (simp_all add: exp_suffix_def json_frac_def)
  show "is_digit (last (exp_suffix x))" using dig ds by (simp add: exp_suffix_def list_all_iff)
qed

lemma json_number_dec:
  assumes sg: "sg = [] \<or> sg = ''-''"
    and ip: "list_all is_digit ip" "ip \<noteq> []" "hd ip = CHR ''0'' \<longrightarrow> ip = ''0''"
    and fp: "list_all is_digit fp"
    and r: "r = [] \<or> (\<exists>x. r = exp_suffix x)"
    and st: "json_stop rest"
  shows "json_number (sg @ ip @ (if fp = [] then [] else CHR ''.'' # fp) @ r @ rest) =
           Some (parse_float_str (sg @ ip @ (if fp = [] then [] else CHR ''.'' # fp) @ r), rest)"
proof -
  define f where "f = (if fp = [] then [] else CHR ''.'' # fp)"
  have rx: "json_exp (r @ rest) = (r, rest)" "takeWhile is_digit (r @ rest) = []"
      "json_frac (r @ rest) = ([], r @ rest)" "r \<noteq> [] \<longrightarrow> is_digit (last r)"
    using r json_stop_num [OF st] exp_suffix_lex [OF st] by auto
  have dw: "dropWhile is_digit (r @ rest) = r @ rest"
    using rx(2) by (rule dropWhile_takeWhile_Nil)
  have fx: "json_frac (f @ r @ rest) = (f, r @ rest) \<and> takeWhile is_digit (f @ r @ rest) = [] \<and>
    f \<noteq> [CHR ''.'']"
  proof (cases "fp = []")
    case True
    then show ?thesis using rx by (simp add: f_def)
  next
    case False
    then show ?thesis using rx(2) dw fp by (simp add: f_def json_frac_def takeWhile_digits dropWhile_digits)
  qed
  obtain c cs where ipc: "ip = c # cs" "is_digit c" using ip(1,2) by (cases ip) auto
  have "c \<noteq> CHR ''-''" using ipc(2) by (auto simp: is_digit_def)
  then have sx: "json_sign (sg @ ip @ f @ r @ rest) = (sg, ip @ f @ r @ rest)"
    using sg ipc by (auto simp: json_sign_def)
  have "\<not> (hd ip = CHR ''0'' \<and> 1 < length ip)" using ip(3) by auto
  moreover have "dropWhile is_digit (f @ r @ rest) = f @ r @ rest"
    using fx dropWhile_takeWhile_Nil by blast
  ultimately show ?thesis
    using sx fx rx ip(1,2) unfolding f_def [symmetric]
    by (simp add: json_number_def takeWhile_digits dropWhile_digits) (use rx(4) in blast)
qed

lemma json_number_num:
  assumes "num_canonical (JFin m e)" "num_in_range (JFin m e)" "json_stop rest"
  shows "json_number (num_to_string (JFin m e) @ rest) = Some (JFin m e, rest)"
proof -
  have tok: "\<exists>sg ip fp r. num_to_string (JFin m e) = sg @ ip @ (if fp = [] then [] else CHR ''.'' # fp) @ r \<and>
      (sg = [] \<or> sg = ''-'') \<and> list_all is_digit ip \<and> ip \<noteq> [] \<and> (hd ip = CHR ''0'' \<longrightarrow> ip = ''0'') \<and>
      list_all is_digit fp \<and> (r = [] \<or> (\<exists>x. r = exp_suffix x))"
  proof (cases "m = 0")
    case True
    then show ?thesis
      apply -
      apply (rule exI [of _ "[]"], rule exI [of _ "''0''"], rule exI [of _ "[]"], rule exI [of _ "[]"])
      apply simp
      done
  next
    case False
    obtain s sg where s: "0 < s" "num_to_string (JFin m e) = sg @ pos_to_string s e" "sg = [] \<or> sg = ''-''"
    proof (cases "m < 0")
      case True
      then show thesis using that [of "nat (- m)" "''-''"] by simp
    next
      case nn: False
      then show thesis using that [of "nat m" "[]"] False by simp
    qed
    obtain ip fp r where p: "pos_to_string s e = ip @ (if fp = [] then [] else CHR ''.'' # fp) @ r"
      "list_all is_digit ip" "ip \<noteq> []" "hd ip = CHR ''0'' \<longrightarrow> ip = ''0''"
      "list_all is_digit fp" "r = [] \<or> (\<exists>x. r = exp_suffix x)"
      using pos_to_string_shape [OF s(1), of e] by blast
    have "num_to_string (JFin m e) = sg @ ip @ (if fp = [] then [] else CHR ''.'' # fp) @ r"
      using s(2) p(1) by simp
    then show ?thesis using s(3) p(2-6)
      apply -
      apply (rule exI [of _ sg], rule exI [of _ ip], rule exI [of _ fp], rule exI [of _ r])
      apply simp
      done
  qed
  then obtain sg ip fp r where t: "num_to_string (JFin m e) = sg @ ip @ (if fp = [] then [] else CHR ''.'' # fp) @ r"
      "sg = [] \<or> sg = ''-''" "list_all is_digit ip" "ip \<noteq> []" "hd ip = CHR ''0'' \<longrightarrow> ip = ''0''"
      "list_all is_digit fp" "r = [] \<or> (\<exists>x. r = exp_suffix x)"
    by blast
  show ?thesis
    using json_number_dec [OF t(2-7) assms(3)] num_to_string_roundtrip [OF assms(1,2)] t(1) by simp
qed

section \<open>White space and the first character of a value\<close>

lemma skip_ws_append: "list_all json_ws w \<Longrightarrow> skip_ws (w @ s) = skip_ws s"
  by (induction w) (simp_all add: skip_ws_def)

lemma skip_ws_Cons: "\<not> json_ws c \<Longrightarrow> skip_ws (c # s) = c # s"
  by (simp add: skip_ws_def)

lemma json_val_ws: "list_all json_ws w \<Longrightarrow> json_val n (w @ s) = json_val n s"
  by (cases n) (simp_all add: skip_ws_append)

lemma json_elems_ws: "list_all json_ws w \<Longrightarrow> json_elems n acc (w @ s) = json_elems n acc s"
  by (cases n) (simp_all add: json_val_ws del: json_val.simps)

lemma json_members_ws: "list_all json_ws w \<Longrightarrow> json_members n ps (w @ s) = json_members n ps s"
  by (cases n) (simp_all add: skip_ws_append)

lemma spaces_ws: "list_all (\<lambda>c. c = CHR '' '') w \<Longrightarrow> list_all json_ws w"
  by (auto simp: list_all_iff json_ws_def)

lemma json_ws_simps [simp]:
  "json_ws CHR '' ''" "json_ws (CHR 0x0A)" "\<not> json_ws CHR ''[''" "\<not> json_ws CHR ''{''"
  "\<not> json_ws (CHR 0x22)" "\<not> json_ws CHR '',''" "\<not> json_ws CHR '']''" "\<not> json_ws CHR ''}''"
  "\<not> json_ws CHR '':''" "\<not> json_ws CHR ''n''" "\<not> json_ws CHR ''t''" "\<not> json_ws CHR ''f''"
  by (simp_all add: json_ws_def)

lemma json_ser_None: "json_ser ind v = None \<longleftrightarrow> v = JUndef"
  by (cases v) simp_all

lemma json_ser_props_Nil: "json_ser_props ind ps = [] \<longleftrightarrow> json_norm_props ps = []"
proof (induction ps)
  case (Cons a ps)
  then show ?case by (cases a) (auto simp: json_ser_None split: option.splits)
qed simp

lemma json_ser_elems_length: "length (json_ser_elems ind xs) = length xs"
  by (induction xs) simp_all

lemma num_to_string_hd: "\<exists>c t. num_to_string (JFin m e) = c # t \<and> (is_digit c \<or> c = CHR ''-'')"
proof -
  obtain c t where "pos_to_string (nat m) e = c # t" "is_digit c" using pos_to_string_hd by blast
  then show ?thesis by (cases "m = 0"; cases "m < 0") (auto simp: is_digit_def)
qed

lemma json_start_char: "is_digit c \<or> c \<in> set ''-[{ntf'' \<or> c = CHR 0x22 \<Longrightarrow>
    \<not> json_ws c \<and> c \<noteq> CHR '']'' \<and> c \<noteq> CHR ''}''"
  by (auto simp: is_digit_def json_ws_def)

lemma json_ser_start:
  assumes "json_ser ind v = Some s"
  shows "\<exists>c t. s = c # t \<and> (is_digit c \<or> c \<in> set ''-[{ntf'' \<or> c = CHR 0x22)"
proof (cases v)
  case (JNum n)
  show ?thesis
  proof (cases n)
    case (JFin m e)
    obtain c t where ct: "num_to_string (JFin m e) = c # t" "is_digit c \<or> c = CHR ''-''"
      using num_to_string_hd by blast
    have "s = c # t" using assms JNum JFin ct(1) by simp
    then show ?thesis using ct(2) by auto
  qed (use assms JNum in \<open>simp_all add: eq_commute [of "''null''"]\<close>)
next
  case (JArr xs)
  then have "\<exists>t. s = CHR ''['' # t" using assms by (simp split: if_splits) blast+
  then show ?thesis by (elim exE) simp
next
  case (JObj ps)
  then have "\<exists>t. s = CHR ''{'' # t" using assms by (simp split: if_splits) blast+
  then show ?thesis by (elim exE) simp
next
  case (JStr x)
  then have "\<exists>t. s = CHR 0x22 # t" using assms by (auto simp: json_quote_def)
  then show ?thesis by (elim exE) simp
next
  case (JBool b)
  then show ?thesis using assms by (cases b) auto
qed (use assms in auto)

lemma json_ser_hd:
  assumes "json_ser ind v = Some s"
  shows "\<exists>c t. s = c # t \<and> \<not> json_ws c \<and> c \<noteq> CHR '']'' \<and> c \<noteq> CHR ''}''"
  using json_ser_start [OF assms] json_start_char by blast

section \<open>The round trip\<close>

lemma eventually_Suc_all: "(\<And>m. P (Suc m)) \<Longrightarrow> eventually P sequentially"
  by (subst eventually_sequentially_Suc [symmetric]) simp

lemma eventually_from_Suc: "eventually (\<lambda>n. P (Suc n)) sequentially \<Longrightarrow> eventually P sequentially"
  by (rule eventually_sequentially_Suc [THEN iffD1])

lemma obj_set_new: "k \<notin> set (map fst ps) \<Longrightarrow> obj_set k v ps = ps @ [(k, v)]"
  by (simp add: obj_set_def)

lemma json_stop_close: "list_all json_ws w \<Longrightarrow> c = CHR '']'' \<or> c = CHR ''}'' \<Longrightarrow> json_stop (w @ c # r)"
  by (cases w) (auto simp: json_stop_def)

lemma json_literals:
  "json_val (Suc m) (''null'' @ r) = Some (JNull, r)"
  "json_val (Suc m) (''true'' @ r) = Some (JBool True, r)"
  "json_val (Suc m) (''false'' @ r) = Some (JBool False, r)"
  by (simp_all add: skip_ws_Cons)

lemma json_val_scalar:
  assumes "json_ser ind v = Some s" "json_stop rest" "json_wf v"
    and "\<And>xs. v \<noteq> JArr xs" "\<And>ps. v \<noteq> JObj ps"
  shows "json_val (Suc m) (s @ rest) = Some (json_norm v, rest)"
proof (cases v)
  case (JNum n)
  show ?thesis
  proof (cases n)
    case (JFin a e)
    obtain c t where ct: "num_to_string (JFin a e) = c # t" "is_digit c \<or> c = CHR ''-''"
      using num_to_string_hd by blast
    have nc: "\<not> json_ws c" "c \<noteq> CHR ''[''" "c \<noteq> CHR ''{''" "c \<noteq> CHR 0x22" "c \<noteq> CHR ''t''"
      "c \<noteq> CHR ''f''" "c \<noteq> CHR ''n''"
      using ct(2) by (auto simp: is_digit_def json_ws_def)
    have "json_number (c # t @ rest) = Some (JFin a e, rest)"
      using json_number_num [of a e rest] assms(2,3) JNum JFin ct(1) by simp
    then show ?thesis using assms(1) JNum JFin ct(1) nc by (simp add: skip_ws_Cons)
  qed (use assms(1) JNum in \<open>simp_all add: eq_commute [of "''null''"] json_literals [simplified]\<close>)
next
  case (JStr x)
  then show ?thesis using assms(1) by (auto simp: json_quote_def skip_ws_Cons json_str_quote)
next
  case (JBool b)
  then show ?thesis using assms(1) by (cases b) (auto simp: json_literals [simplified])
qed (use assms in \<open>auto simp: json_literals [simplified]\<close>)

lemma json_elems_last:
  assumes "eventually (\<lambda>n. json_val n (e @ w @ CHR '']'' # rest) = Some (v, w @ CHR '']'' # rest)) sequentially"
    and "list_all json_ws w"
  shows "eventually (\<lambda>n. json_elems n acc (e @ w @ CHR '']'' # rest) = Some (JArr (acc @ [v]), rest)) sequentially"
proof -
  have "eventually (\<lambda>n. json_elems (Suc n) acc (e @ w @ CHR '']'' # rest) = Some (JArr (acc @ [v]), rest)) sequentially"
    using assms(1) by (rule eventually_mono) (simp add: skip_ws_append [OF assms(2)] skip_ws_Cons)
  then show ?thesis by (rule eventually_from_Suc)
qed

lemma json_elems_more:
  assumes "eventually (\<lambda>n. json_val n (e @ CHR '','' # w @ J) = Some (v, CHR '','' # w @ J)) sequentially"
    and "list_all json_ws w"
    and "eventually (\<lambda>n. json_elems n (acc @ [v]) J = R) sequentially"
  shows "eventually (\<lambda>n. json_elems n acc (e @ CHR '','' # w @ J) = R) sequentially"
proof -
  have "eventually (\<lambda>n. json_elems (Suc n) acc (e @ CHR '','' # w @ J) = R) sequentially"
    using eventually_conj [OF assms(1) assms(3)]
    by (rule eventually_mono) (simp add: skip_ws_Cons json_elems_ws [OF assms(2)] del: json_elems.simps(1))
  then show ?thesis by (rule eventually_from_Suc)
qed

lemma json_member_prefix:
  "json_members (Suc n) acc (json_quote k @ CHR '':'' # CHR '' '' # sv @ X) =
     (case json_val n (sv @ X) of
        None \<Rightarrow> None
      | Some (v, r2) \<Rightarrow>
          (case skip_ws r2 of
             [] \<Rightarrow> None
           | e # r3 \<Rightarrow>
               if e = CHR '','' then json_members n (obj_set k v acc) r3
               else if e = CHR ''}'' then Some (JObj (obj_set k v acc), r3) else None))"
proof -
  have "json_val n (CHR '' '' # sv @ X) = json_val n (sv @ X)"
    using json_val_ws [of "[CHR '' '']" n "sv @ X"] by simp
  then show ?thesis by (simp add: json_quote_def skip_ws_Cons json_str_quote del: json_val.simps)
qed

lemma json_members_last:
  assumes "eventually (\<lambda>n. json_val n (sv @ w @ CHR ''}'' # rest) = Some (v, w @ CHR ''}'' # rest)) sequentially"
    and "list_all json_ws w" "k \<notin> set (map fst acc)"
  shows "eventually (\<lambda>n. json_members n acc (json_quote k @ '': '' @ sv @ w @ CHR ''}'' # rest) =
                          Some (JObj (acc @ [(k, v)]), rest)) sequentially"
proof -
  have "eventually (\<lambda>n. json_members (Suc n) acc (json_quote k @ '': '' @ sv @ w @ CHR ''}'' # rest) =
                          Some (JObj (acc @ [(k, v)]), rest)) sequentially"
    using assms(1) by (rule eventually_mono)
      (simp add: json_member_prefix skip_ws_append [OF assms(2)] skip_ws_Cons obj_set_new [OF assms(3)]
            del: json_val.simps json_members.simps)
  then show ?thesis by (rule eventually_from_Suc)
qed

lemma json_members_more:
  assumes "eventually (\<lambda>n. json_val n (sv @ CHR '','' # w @ J) = Some (v, CHR '','' # w @ J)) sequentially"
    and "list_all json_ws w" "k \<notin> set (map fst acc)"
    and "eventually (\<lambda>n. json_members n (acc @ [(k, v)]) J = R) sequentially"
  shows "eventually (\<lambda>n. json_members n acc (json_quote k @ '': '' @ sv @ CHR '','' # w @ J) = R) sequentially"
proof -
  have "eventually (\<lambda>n. json_members (Suc n) acc (json_quote k @ '': '' @ sv @ CHR '','' # w @ J) = R) sequentially"
    using eventually_conj [OF assms(1) assms(4)] by (rule eventually_mono)
      (simp add: json_member_prefix skip_ws_Cons obj_set_new [OF assms(3)] json_members_ws [OF assms(2)]
            del: json_val.simps json_members.simps)
  then show ?thesis by (rule eventually_from_Suc)
qed

lemma json_ser_elems_Nil: "json_ser_elems ind xs = [] \<longleftrightarrow> xs = []"
  by (cases xs) simp_all

lemma join_with_Cons: "join_with sep (e # ys) = e @ (if ys = [] then [] else sep @ join_with sep ys)"
  by (cases ys) simp_all

lemma json_elem_start:
  "\<exists>c t. (case json_ser ind x of None \<Rightarrow> ''null'' | Some s \<Rightarrow> s) = c # t \<and> \<not> json_ws c \<and> c \<noteq> CHR '']''"
  using json_ser_hd [of ind x] by (cases "json_ser ind x") auto

lemma json_elems_start:
  "xs \<noteq> [] \<Longrightarrow> \<exists>c t. join_with sep (json_ser_elems ind xs) @ z = c # t \<and> \<not> json_ws c \<and> c \<noteq> CHR '']''"
  using json_elem_start [of ind "hd xs"] by (cases xs) (auto simp: join_with_Cons)

lemma json_props_start:
  "json_ser_props ind ps \<noteq> [] \<Longrightarrow> \<exists>t. join_with sep (json_ser_props ind ps) @ z = CHR 0x22 # t"
proof (induction ps)
  case (Cons a ps)
  obtain k v where a: "a = (k, v)" by fastforce
  then show ?case using Cons
    by (cases "json_ser ind v") (auto simp: join_with_Cons json_quote_def)
qed simp

lemma json_elem_val:
  assumes "\<And>sx. json_ser ind x = Some sx \<Longrightarrow> json_stop tail \<Longrightarrow>
             eventually (\<lambda>n. json_val n (sx @ tail) = Some (json_norm x, tail)) sequentially"
    and "json_stop tail"
  shows "eventually (\<lambda>n. json_val n ((case json_ser ind x of None \<Rightarrow> ''null'' | Some s \<Rightarrow> s) @ tail) =
                        Some (if x = JUndef then JNull else json_norm x, tail)) sequentially"
proof (cases "json_ser ind x")
  case None
  then have "x = JUndef" by (simp add: json_ser_None)
  then show ?thesis using None by (intro eventually_Suc_all) (simp add: json_literals [simplified])
next
  case (Some y)
  then have "x \<noteq> JUndef" by (auto simp: json_ser_None [symmetric])
  then show ?thesis using assms(1) [OF Some assms(2)] Some by simp
qed

lemma json_roundtrip_mutual:
  "json_wf v \<Longrightarrow> spaces ind \<Longrightarrow> json_ser ind v = Some s \<Longrightarrow> json_stop rest \<Longrightarrow>
     eventually (\<lambda>n. json_val n (s @ rest) = Some (json_norm v, rest)) sequentially"
  "json_wf_elems xs \<Longrightarrow> xs \<noteq> [] \<Longrightarrow> spaces ind \<Longrightarrow> list_all json_ws w \<Longrightarrow>
     eventually (\<lambda>n. json_elems n acc (join_with (CHR '','' # CHR 0x0A # ind) (json_ser_elems ind xs) @ w @ CHR '']'' # rest)
                      = Some (JArr (acc @ json_norm_elems xs), rest)) sequentially"
  "json_wf_props ps \<Longrightarrow> distinct (map fst ps) \<Longrightarrow> set (map fst ps) \<inter> set (map fst qs) = {} \<Longrightarrow>
     json_ser_props ind ps \<noteq> [] \<Longrightarrow> spaces ind \<Longrightarrow> list_all json_ws w \<Longrightarrow>
     eventually (\<lambda>n. json_members n qs (join_with (CHR '','' # CHR 0x0A # ind) (json_ser_props ind ps) @ w @ CHR ''}'' # rest)
                      = Some (JObj (qs @ json_norm_props ps), rest)) sequentially"
proof (induction ind v and ind xs and ind ps arbitrary: s rest and acc w rest and qs w rest
       rule: json_ser_json_ser_elems_json_ser_props.induct)
  case (6 ind xs)
  show ?case
  proof (cases "xs = []")
    case True
    then show ?thesis using 6 by (intro eventually_Suc_all) (auto simp: skip_ws_Cons)
  next
    case False
    let ?J = "join_with (CHR '','' # CHR 0x0A # ind @ json_gap) (json_ser_elems (ind @ json_gap) xs)"
    let ?w = "CHR 0x0A # ind"
    have ws: "list_all json_ws (CHR 0x0A # ind @ json_gap)" "list_all json_ws ?w" "spaces (ind @ json_gap)"
      using 6(3) spaces_ws [OF 6(3)] by (simp_all add: json_gap_def)
    have sk: "skip_ws (CHR 0x0A # ind @ json_gap @ z) = skip_ws z"
      and ev: "json_elems n acc (CHR 0x0A # ind @ json_gap @ z) = json_elems n acc z" for z n acc
      using skip_ws_append [OF ws(1), of z] json_elems_ws [OF ws(1), of n acc z] by simp_all
    obtain c t where ct: "?J @ CHR 0x0A # ind @ CHR '']'' # rest = c # t" "\<not> json_ws c" "c \<noteq> CHR '']''"
      using json_elems_start [OF False] by blast
    have s: "s @ rest = CHR ''['' # (CHR 0x0A # ind @ json_gap) @ ?J @ ?w @ CHR '']'' # rest"
      using 6(4) False by auto
    have "eventually (\<lambda>n. json_elems n [] (?J @ ?w @ CHR '']'' # rest) =
            Some (JArr ([] @ json_norm_elems xs), rest)) sequentially"
      using 6(1) [OF False _ False ws(3) ws(2), of "[]" rest] 6(2) by simp
    then have "eventually (\<lambda>n. json_val (Suc n) (s @ rest) = Some (json_norm (JArr xs), rest)) sequentially"
      by (rule eventually_mono)
         (simp add: s skip_ws_Cons sk ct ev del: json_elems.simps)
    then show ?thesis by (rule eventually_from_Suc)
  qed
next
  case (7 ind ps)
  show ?case
  proof (cases "json_ser_props (ind @ json_gap) ps = []")
    case True
    then have "json_norm_props ps = []" by (simp add: json_ser_props_Nil)
    then show ?thesis using 7 True by (intro eventually_Suc_all) (auto simp: skip_ws_Cons)
  next
    case False
    let ?J = "join_with (CHR '','' # CHR 0x0A # ind @ json_gap) (json_ser_props (ind @ json_gap) ps)"
    let ?w = "CHR 0x0A # ind"
    have ws: "list_all json_ws (CHR 0x0A # ind @ json_gap)" "list_all json_ws ?w" "spaces (ind @ json_gap)"
      using 7(4) spaces_ws [OF 7(4)] by (simp_all add: json_gap_def)
    have sk: "skip_ws (CHR 0x0A # ind @ json_gap @ z) = skip_ws z"
      and ev: "json_members n qs (CHR 0x0A # ind @ json_gap @ z) = json_members n qs z" for z n qs
      using skip_ws_append [OF ws(1), of z] json_members_ws [OF ws(1), of n qs z] by simp_all
    obtain t where ct: "?J @ CHR 0x0A # ind @ CHR ''}'' # rest = CHR 0x22 # t"
      using json_props_start [OF False] by blast
    have s: "s @ rest = CHR ''{'' # (CHR 0x0A # ind @ json_gap) @ ?J @ ?w @ CHR ''}'' # rest"
      using 7(5) False by auto
    have "eventually (\<lambda>n. json_members n [] (?J @ ?w @ CHR ''}'' # rest) =
            Some (JObj ([] @ json_norm_props ps), rest)) sequentially"
      using 7(2) [OF False _ _ _ False ws(3) ws(2), of "[]" rest] 7(3) by simp
    then have "eventually (\<lambda>n. json_val (Suc n) (s @ rest) = Some (json_norm (JObj ps), rest)) sequentially"
      by (rule eventually_mono)
         (simp add: s skip_ws_Cons sk ct ev del: json_members.simps)
    then show ?thesis by (rule eventually_from_Suc)
  qed
next
  case (9 ind x xs)
  let ?e = "case json_ser ind x of None \<Rightarrow> ''null'' | Some s \<Rightarrow> s"
  let ?v = "if x = JUndef then JNull else json_norm x"
  have ev: "eventually (\<lambda>n. json_val n (?e @ tail) = Some (?v, tail)) sequentially" if "json_stop tail" for tail
    using 9(1) 9(3) 9(5) that by (intro json_elem_val) simp_all
  have ws: "list_all json_ws (CHR 0x0A # ind)" using spaces_ws [OF 9(5)] by simp
  show ?case
  proof (cases "xs = []")
    case True
    then show ?thesis
      using json_elems_last [OF ev [OF json_stop_close [OF 9(6)]] 9(6), of acc] by simp
  next
    case False
    have "eventually (\<lambda>n. json_elems n (acc @ [?v])
             (join_with (CHR '','' # CHR 0x0A # ind) (json_ser_elems ind xs) @ w @ CHR '']'' # rest) =
             Some (JArr ((acc @ [?v]) @ json_norm_elems xs), rest)) sequentially"
      using 9(2) [OF _ False 9(5,6), of "acc @ [?v]" rest] 9(3) by simp
    then show ?thesis
    proof -
      obtain y ys where "json_ser_elems ind xs = y # ys" using False by (cases xs) simp_all
      then show ?thesis
        using json_elems_more [OF ev ws] \<open>eventually _ sequentially\<close> by (simp add: json_stop_def)
    qed
  qed
next
  case (11 ind k v ps)
  have d: "k \<notin> set (map fst ps)" "distinct (map fst ps)" "k \<notin> set (map fst qs)"
    "set (map fst ps) \<inter> set (map fst qs) = {}" using 11(5,6) by auto
  show ?case
  proof (cases "json_ser ind v")
    case None
    then have "v = JUndef" by (simp add: json_ser_None)
    then show ?thesis using 11(2) [OF None] 11(4-9) None d by simp
  next
    case (Some sv)
    then have nv: "v \<noteq> JUndef" by (auto simp: json_ser_None [symmetric])
    have ws: "list_all json_ws (CHR 0x0A # ind)" using spaces_ws [OF 11(8)] by simp
    have ev: "eventually (\<lambda>n. json_val n (sv @ tail) = Some (json_norm v, tail)) sequentially"
      if "json_stop tail" for tail
      using 11(1) 11(4) 11(8) Some that by simp
    show ?thesis
    proof (cases "json_ser_props ind ps = []")
      case True
      then have "json_norm_props ps = []" by (simp add: json_ser_props_Nil)
      then show ?thesis
        using json_members_last [OF ev [OF json_stop_close [OF 11(9)]] 11(9) d(3)] True Some nv by simp
    next
      case False
      have "eventually (\<lambda>n. json_members n (qs @ [(k, json_norm v)])
               (join_with (CHR '','' # CHR 0x0A # ind) (json_ser_props ind ps) @ w @ CHR ''}'' # rest) =
               Some (JObj ((qs @ [(k, json_norm v)]) @ json_norm_props ps), rest)) sequentially"
        using 11(3) [OF Some _ d(2) _ False 11(8,9), of "qs @ [(k, json_norm v)]" rest] 11(4) d(1,4) by auto
      then show ?thesis
        using json_members_more [OF ev ws d(3)] False Some nv by (simp add: join_with_Cons json_stop_def)
    qed
  qed
next
  case (2 ind)
  then show ?case by (intro eventually_Suc_all json_val_scalar) simp_all
next
  case (3 ind b)
  then show ?case by (intro eventually_Suc_all json_val_scalar) simp_all
next
  case (4 ind n)
  then show ?case by (intro eventually_Suc_all json_val_scalar) simp_all
next
  case (5 ind s)
  then show ?case by (intro eventually_Suc_all json_val_scalar) simp_all
qed simp_all

lemma json_parse_eventually:
  assumes "eventually (\<lambda>n. json_val n s = Some (v, [])) sequentially"
  shows "json_parse s = Some v"
proof -
  obtain N where N: "\<And>n. N \<le> n \<Longrightarrow> json_val n s = Some (v, [])"
    using assms by (auto simp: eventually_sequentially)
  have "json_val (json_fuel s) s = json_val (max N (json_fuel s)) s"
    by (rule json_fuel_enough [symmetric]) simp
  also have "\<dots> = Some (v, [])" by (rule N) simp
  finally show ?thesis by (simp add: json_parse_def skip_ws_def)
qed

theorem json_parse_stringify:
  assumes "json_wf v" "json_stringify2 v = Some s"
  shows "json_parse s = Some (json_norm v)"
  using json_roundtrip_mutual(1) [OF assms(1) _ assms(2) [unfolded json_stringify2_def], of "[]"]
  by (intro json_parse_eventually) (simp add: json_stop_def)

section \<open>What \<^verbatim>\<open>JSON.parse\<close> returns\<close>

lemma json_wf_elems_iff: "json_wf_elems xs \<longleftrightarrow> list_all json_wf xs"
  by (induction xs) simp_all

lemma json_wf_props_iff: "json_wf_props ps \<longleftrightarrow> list_all (\<lambda>p. json_wf (snd p)) ps"
  by (induction ps) auto

lemma obj_set_keys: "map fst (obj_set k v ps) = (if k \<in> set (map fst ps) then map fst ps else map fst ps @ [k])"
  by (induction ps) (auto simp: obj_set_def)

lemma obj_set_wf: "json_wf v \<Longrightarrow> json_wf_props ps \<Longrightarrow> json_wf_props (obj_set k v ps)"
  by (auto simp: json_wf_props_iff list_all_iff obj_set_def)

lemma obj_set_distinct: "distinct (map fst ps) \<Longrightarrow> distinct (map fst (obj_set k v ps))"
  by (simp add: obj_set_keys)

lemma json_val_wf_all:
  "(\<forall>s v r. json_val n s = Some (v, r) \<longrightarrow> json_wf v) \<and>
   (\<forall>acc s v r. json_elems n acc s = Some (v, r) \<longrightarrow> json_wf_elems acc \<longrightarrow> json_wf v) \<and>
   (\<forall>ps s v r. json_members n ps s = Some (v, r) \<longrightarrow> json_wf_props ps \<longrightarrow> distinct (map fst ps) \<longrightarrow> json_wf v)"
proof (induction n)
  case (Suc n)
  then have V: "json_val n s = Some (v, r) \<Longrightarrow> json_wf v"
    and E: "json_elems n acc s = Some (v, r) \<Longrightarrow> json_wf_elems acc \<Longrightarrow> json_wf v"
    and M: "json_members n ps s = Some (v, r) \<Longrightarrow> json_wf_props ps \<Longrightarrow> distinct (map fst ps) \<Longrightarrow> json_wf v"
    for acc ps s v r
    by blast+
  have num: "json_number s = Some (x, r) \<Longrightarrow> num_canonical x \<and> num_in_range x" for s x r
    by (auto simp: json_number_def Let_def parse_float_str_wf split: prod.splits if_splits)
  have "json_wf v" if a: "json_val (Suc n) s = Some (v, r)" for s v r
    using a by (auto split: if_splits list.splits dest!: E M num)
  moreover have "json_wf v" if a: "json_elems (Suc n) acc s = Some (v, r)" "json_wf_elems acc" for acc s v r
    using a by (auto simp: json_wf_elems_iff split: if_splits list.splits option.splits
                     dest!: V E [unfolded json_wf_elems_iff])
  moreover have "json_wf v"
    if a: "json_members (Suc n) ps s = Some (v, r)" "json_wf_props ps" "distinct (map fst ps)" for ps s v r
    using a by (auto split: if_splits list.splits option.splits dest!: V M simp: obj_set_wf obj_set_distinct)
  ultimately show ?case by blast
qed simp

lemma json_parse_wf: "json_parse s = Some v \<Longrightarrow> json_wf v"
proof -
  assume "json_parse s = Some v"
  then obtain r where "json_val (json_fuel s) s = Some (v, r)"
    by (auto simp: json_parse_def split: option.splits if_splits)
  then show ?thesis using json_val_wf_all [of "json_fuel s"] by blast
qed

lemma json_norm_Undef: "json_norm v = JUndef \<longleftrightarrow> v = JUndef"
  by (cases v rule: json_norm.cases) (auto split: jsnum.splits)

lemma json_norm_elems_Nil: "json_norm_elems xs = [] \<longleftrightarrow> xs = []"
  by (cases xs) simp_all

lemma json_ser_norm:
  "json_ser ind (json_norm v) = json_ser ind v"
  "json_ser_elems ind (json_norm_elems xs) = json_ser_elems ind xs"
  "json_ser_props ind (json_norm_props ps) = json_ser_props ind ps"
proof (induction ind v and ind xs and ind ps rule: json_ser_json_ser_elems_json_ser_props.induct)
  case (4 ind n)
  then show ?case by (cases n) simp_all
next
  case (9 ind x xs)
  then show ?case by (auto simp: json_norm_Undef json_ser_None split: option.splits)
next
  case (11 ind k v ps)
  then show ?case by (auto simp: json_norm_Undef json_ser_None split: option.splits)
qed (simp_all add: json_norm_elems_Nil)

section \<open>Properties\<close>

text \<open>\<^verbatim>\<open>JSON.parse\<close> inverts \<^verbatim>\<open>JSON.stringify(v, null, 2)\<close>: for a value whose objects have distinct keys and whose finite numbers are canonical binary64 values, parsing the printed text gives the value with its \<^verbatim>\<open>undefined\<close> members left out, \<^verbatim>\<open>undefined\<close> array elements and non-finite numbers read as \<^verbatim>\<open>null\<close>; and printing that value again gives the same text.\<close>

theorem JSON_parse_stringify_roundtrip:
  assumes "json_wf v" "json_stringify2 v = Some s"
  shows "json_parse s = Some (json_norm v) \<and> json_stringify2 (json_norm v) = Some s"
  using json_parse_stringify [OF assms] json_ser_norm(1) [of "[]" v] assms(2)
  by (simp add: json_stringify2_def)

theorem JSON_parse_stringify_roundtrip_witness:
  "json_wf (JObj [(''city'', JStr ''Paris''), (''t'', JNum JNaN), (''x'', JUndef), (''tags'', JArr [JBool True, JUndef])]) \<and>
   json_parse (the (json_stringify2 (JObj [(''city'', JStr ''Paris''), (''t'', JNum JNaN), (''x'', JUndef),
                                           (''tags'', JArr [JBool True, JUndef])]))) =
     Some (JObj [(''city'', JStr ''Paris''), (''t'', JNull), (''tags'', JArr [JBool True, JNull])])"
proof -
  let ?v = "JObj [(''city'', JStr ''Paris''), (''t'', JNum JNaN), (''x'', JUndef), (''tags'', JArr [JBool True, JUndef])]"
  have wf: "json_wf ?v" by (simp add: num_canonical_def num_in_range_def)
  have s: "json_stringify2 ?v = Some (the (json_stringify2 ?v))" by (simp add: json_stringify2_def)
  show ?thesis using JSON_parse_stringify_roundtrip [OF wf s] wf by simp
qed

end
