(* ===== verification/Services.thy ===== *)
theory Services
  imports Json_Roundtrip
begin

text \<open>
  The interface between the program and the services it calls, shared by every
  component: a chat-completion request of \<^verbatim>\<open>@gensx/openai\<close>, the observable events
  of a run (a model call with the credential it carried, an HTTP GET, a console line), the
  \<open>world\<close> that answers calls (the OpenAI API and the wttr.in server, as functions of the
  request), and the gensx context that \<^verbatim>\<open>OpenAIProvider\<close> fills. The library
  components are modelled from their documented behaviour: \<^verbatim>\<open>ChatCompletion\<close> reads
  the client from the nearest enclosing provider and returns the text of the first choice,
  and fails when no provider encloses it. \<^verbatim>\<open>axios.get\<close> is modelled from the axios
  sources it runs under Node: the server's answer is a status and a body (or a network
  failure); the http adapter strips a byte-order mark, \<^verbatim>\<open>settle\<close> rejects a status outside
  200..299 with \<^verbatim>\<open>Request failed with status code N\<close>, and the default
  \<^verbatim>\<open>transformResponse\<close> parses the body with \<^verbatim>\<open>JSON.parse\<close>, keeping the text when it
  does not parse (silent JSON parsing). Each service call is one event, so
  the event list of a run records which calls were made and in which order.
\<close>

datatype role = System | User

record chat_message =
  role :: role
  content :: string

record chat_request =
  model :: string
  messages :: "chat_message list"

datatype event =
    LlmCall string chat_request
  | HttpGet string
  | ConsoleLog string
  | ConsoleError string js_error

text \<open>An HTTP answer: its status code and its body, as the UTF-8 bytes of the text.\<close>

record http_response =
  status :: nat
  body :: string

text \<open>
  The services: OpenAI answers a request with a text or an error; the wttr.in server
  answers a GET with a response or fails before answering (a network error).
\<close>

record world =
  openai :: "string \<Rightarrow> chat_request \<Rightarrow> js_error + string"
  wttr :: "string \<Rightarrow> js_error + http_response"

record gensx_ctx =
  openai_key :: "string option"

type_synonym 'a run = "(event, 'a) comp"

definition root_ctx :: gensx_ctx where
  "root_ctx = \<lparr>openai_key = None\<rparr>"

text \<open>\<^verbatim>\<open><OpenAIProvider apiKey={key}>\<close>: the client of every nested call carries \<open>key\<close>.\<close>

definition OpenAIProvider :: "string \<Rightarrow> gensx_ctx \<Rightarrow> gensx_ctx" where
  "OpenAIProvider key ctx = ctx\<lparr>openai_key := Some key\<rparr>"

definition ChatCompletion :: "world \<Rightarrow> gensx_ctx \<Rightarrow> chat_request \<Rightarrow> string run" where
  "ChatCompletion w ctx req =
     (case openai_key ctx of
        None \<Rightarrow> cthrow (Error ''OpenAI client not found in context'')
      | Some key \<Rightarrow> cbind (emit (LlmCall key req)) (\<lambda>_. clift (openai w key req)))"

text \<open>\<^verbatim>\<open>utils.stripBOM\<close>: a leading U+FEFF (the bytes EF BB BF) is dropped.\<close>

definition strip_bom :: "string \<Rightarrow> string" where
  "strip_bom s = (if take 3 s = [CHR 0xEF, CHR 0xBB, CHR 0xBF] then drop 3 s else s)"

text \<open>
  \<^verbatim>\<open>transformResponse\<close> with the default transitional options: a body that parses as
  JSON becomes the parsed value, any other body stays a string.
\<close>

definition axios_data :: "string \<Rightarrow> jsval" where
  "axios_data b = (case json_parse (strip_bom b) of Some v \<Rightarrow> v | None \<Rightarrow> JStr (strip_bom b))"

definition axios_status_error :: "nat \<Rightarrow> js_error" where
  "axios_status_error n = AxiosError (''Request failed with status code '' @ dec_string n)"

text \<open>\<^verbatim>\<open>settle\<close> with the default \<^verbatim>\<open>validateStatus\<close> (\<^verbatim>\<open>status >= 200 && status < 300\<close>).\<close>

definition axios_settle :: "http_response \<Rightarrow> js_error + jsval" where
  "axios_settle r =
     (if 200 \<le> status r \<and> status r < 300 then Inr (axios_data (body r))
      else Inl (axios_status_error (status r)))"

definition axios_result :: "world \<Rightarrow> string \<Rightarrow> js_error + jsval" where
  "axios_result w url = (case wttr w url of Inl err \<Rightarrow> Inl err | Inr r \<Rightarrow> axios_settle r)"

definition axios_get :: "world \<Rightarrow> string \<Rightarrow> jsval run" where
  "axios_get w url = cbind (emit (HttpGet url)) (\<lambda>_. clift (axios_result w url))"

text \<open>The external calls of a run, in order, and the credentials its model calls carried.\<close>

fun is_call :: "event \<Rightarrow> bool" where
  "is_call (LlmCall k r) = True"
| "is_call (HttpGet u) = True"
| "is_call (ConsoleLog s) = False"
| "is_call (ConsoleError s e) = False"

fun llm_keys :: "event list \<Rightarrow> string list" where
  "llm_keys [] = []"
| "llm_keys (LlmCall k r # evs) = k # llm_keys evs"
| "llm_keys (ev # evs) = llm_keys evs"

lemma llm_keys_append [simp]: "llm_keys (xs @ ys) = llm_keys xs @ llm_keys ys"
  by (induction xs rule: llm_keys.induct) auto

lemma llm_keys_mem: "LlmCall k r \<in> set evs \<Longrightarrow> k \<in> set (llm_keys evs)"
  by (induction evs rule: llm_keys.induct) auto

lemma axios_data_wf: "json_wf (axios_data b)"
  by (simp add: axios_data_def json_parse_wf split: option.split)

lemma axios_result_wf: "axios_result w url = Inr v \<Longrightarrow> json_wf v"
  using axios_data_wf
  by (auto simp: axios_result_def axios_settle_def split: sum.splits if_splits)

lemma ChatCompletion_keys:
  "openai_key ctx = Some key \<Longrightarrow> set (llm_keys (snd (ChatCompletion w ctx req))) \<subseteq> {key}"
  by (auto simp: ChatCompletion_def comp_simps split: sum.splits)

end
