(* ===== verification/Weather.thy ===== *)
theory Weather
  imports Services
begin

text \<open>
  The weather data source: the \<^verbatim>\<open>WeatherData\<close> interface (index.tsx lines 26-34) as a
  record and the \<^verbatim>\<open>FetchWeather\<close> component (lines 64-93). Fields the interface marks
  optional are \<open>option\<close>s (absent in the record the \<^verbatim>\<open>catch\<close> branch builds);
  \<^verbatim>\<open>location\<close> and \<^verbatim>\<open>description\<close> hold whatever JavaScript value the
  provider document has at their paths (the type annotation is not checked at run time), and
  the numeric fields hold what \<^verbatim>\<open>parseFloat\<close> returns, \<^verbatim>\<open>NaN\<close> included.
  \<open>weather_to_js\<close> is the object the code builds, with its keys in literal order, as
  \<^verbatim>\<open>JSON.stringify\<close> and the truthiness test in \<^verbatim>\<open>WeatherAgent\<close> see it.
  \<^verbatim>\<open>response.data\<close> is what \<open>axios_result\<close> makes of the server's answer, so the
  properties cover a network failure, a rejected status and a body that is not JSON.
\<close>

record WeatherData =
  location :: jsval
  temperature :: jsnum
  description :: jsval
  humidity :: "jsnum option"
  windSpeed :: "jsnum option"
  feelsLike :: "jsnum option"
  lastUpdated :: "jsval option"

definition opt_prop :: "string \<Rightarrow> jsval option \<Rightarrow> (string \<times> jsval) list" where
  "opt_prop k v = (case v of None \<Rightarrow> [] | Some x \<Rightarrow> [(k, x)])"

definition weather_to_js :: "WeatherData \<Rightarrow> jsval" where
  "weather_to_js wd =
     JObj ([(''location'', location wd), (''temperature'', JNum (temperature wd)),
            (''description'', description wd)]
           @ opt_prop ''humidity'' (map_option JNum (humidity wd))
           @ opt_prop ''windSpeed'' (map_option JNum (windSpeed wd))
           @ opt_prop ''feelsLike'' (map_option JNum (feelsLike wd))
           @ opt_prop ''lastUpdated'' (lastUpdated wd))"

text \<open>The request URL, \<^verbatim>\<open>https://wttr.in/${encodeURIComponent(location)}?format=j1\<close>.\<close>

definition wttr_url :: "string \<Rightarrow> string" where
  "wttr_url loc = ''https://wttr.in/'' @ encodeURIComponent loc @ ''?format=j1''"

text \<open>
  The object literal of the \<^verbatim>\<open>try\<close> block over \<^verbatim>\<open>response.data\<close>, its
  properties evaluated in order; a read through \<^verbatim>\<open>undefined\<close> throws, and the
  index \<^verbatim>\<open>[0]\<close> is the key \<^verbatim>\<open>"0"\<close>.
\<close>

definition cc_path :: "string list \<Rightarrow> string list" where
  "cc_path ks = [''current_condition'', ''0''] @ ks"

definition parse_weather :: "jsval \<Rightarrow> js_error + WeatherData" where
  "parse_weather data =
     sbind (js_path data [''nearest_area'', ''0'', ''areaName'', ''0'', ''value'']) (\<lambda>loc.
     sbind (js_path data (cc_path [''temp_C''])) (\<lambda>temp.
     sbind (js_path data (cc_path [''weatherDesc'', ''0'', ''value''])) (\<lambda>desc.
     sbind (js_path data (cc_path [''humidity''])) (\<lambda>hum.
     sbind (js_path data (cc_path [''windspeedKmph''])) (\<lambda>wind.
     sbind (js_path data (cc_path [''FeelsLikeC''])) (\<lambda>feels.
     sbind (js_path data (cc_path [''observation_time''])) (\<lambda>obs.
       Inr \<lparr>location = loc, temperature = js_parseFloat temp, description = desc,
            humidity = Some (js_parseFloat hum), windSpeed = Some (js_parseFloat wind),
            feelsLike = Some (js_parseFloat feels), lastUpdated = Some obs\<rparr>)))))))"

text \<open>The record of the \<^verbatim>\<open>catch\<close> block.\<close>

definition degraded_weather :: "string \<Rightarrow> WeatherData" where
  "degraded_weather loc =
     \<lparr>location = JStr loc, temperature = JFin 0 0, description = JStr ''Information unavailable'',
      humidity = None, windSpeed = None, feelsLike = None, lastUpdated = None\<rparr>"

text \<open>
  The part of a \<^verbatim>\<open>?format=j1\<close> document of wttr.in that the code reads, with the
  provider's string fields; used to state what a well-formed answer yields.
\<close>

definition wttr_doc :: "string \<Rightarrow> string \<Rightarrow> string \<Rightarrow> string \<Rightarrow> string \<Rightarrow> string \<Rightarrow> string \<Rightarrow> jsval" where
  "wttr_doc area temp desc hum wind feels obs =
     JObj [(''current_condition'',
            JArr [JObj [(''FeelsLikeC'', JStr feels), (''humidity'', JStr hum),
                        (''observation_time'', JStr obs), (''temp_C'', JStr temp),
                        (''weatherDesc'', JArr [JObj [(''value'', JStr desc)]]),
                        (''windspeedKmph'', JStr wind)]]),
           (''nearest_area'', JArr [JObj [(''areaName'', JArr [JObj [(''value'', JStr area)]])]])]"

definition FetchWeather :: "world \<Rightarrow> string \<Rightarrow> WeatherData run" where
  "FetchWeather w loc =
     ccatch
       (cbind (axios_get w (wttr_url loc)) (\<lambda>data. clift (parse_weather data)))
       (\<lambda>err. cbind (emit (ConsoleError ''Error fetching weather data:'' err))
                (\<lambda>_. creturn (degraded_weather loc)))"

section \<open>Properties\<close>

lemma FetchWeather_eq:
  "FetchWeather w loc =
     (case axios_result w (wttr_url loc) of
        Inl err \<Rightarrow> (Inr (degraded_weather loc), [HttpGet (wttr_url loc), ConsoleError ''Error fetching weather data:'' err])
      | Inr data \<Rightarrow>
          (case parse_weather data of
             Inl err \<Rightarrow> (Inr (degraded_weather loc), [HttpGet (wttr_url loc), ConsoleError ''Error fetching weather data:'' err])
           | Inr wd \<Rightarrow> (Inr wd, [HttpGet (wttr_url loc)])))"
  by (simp add: FetchWeather_def axios_get_def comp_simps split: sum.splits)

lemma FetchWeather_Inr: "\<exists>wd evs. FetchWeather w loc = (Inr wd, evs)"
  by (simp add: FetchWeather_eq split: sum.splits)

lemma FetchWeather_calls: "filter is_call (snd (FetchWeather w loc)) = [HttpGet (wttr_url loc)]"
  by (simp add: FetchWeather_eq split: sum.splits)

lemma FetchWeather_keys [simp]: "llm_keys (snd (FetchWeather w loc)) = []"
  by (simp add: FetchWeather_eq split: sum.splits)

lemma weather_to_js_truthy [simp]: "js_truthy (weather_to_js wd)"
  by (simp add: weather_to_js_def)

text \<open>C9: \<^verbatim>\<open>FetchWeather\<close> never throws: whatever the weather service does, it resolves with a \<^verbatim>\<open>WeatherData\<close> record after exactly one HTTP request.\<close>

theorem FetchWeather_never_throws:
  "\<exists>wd. fst (FetchWeather w loc) = Inr wd \<and> filter is_call (snd (FetchWeather w loc)) = [HttpGet (wttr_url loc)]"
  using FetchWeather_Inr [of w loc] FetchWeather_calls [of w loc] by fastforce

text \<open>C3: when the weather request fails (a network error, or an answer whose status axios rejects), \<^verbatim>\<open>FetchWeather\<close> logs the error and resolves with the degraded record: the input location, temperature 0, description \<^verbatim>\<open>Information unavailable\<close>, no optional field.\<close>

theorem FetchWeather_degraded:
  "axios_result w (wttr_url loc) = Inl err \<Longrightarrow>
   FetchWeather w loc =
     (Inr \<lparr>location = JStr loc, temperature = JFin 0 0, description = JStr ''Information unavailable'',
           humidity = None, windSpeed = None, feelsLike = None, lastUpdated = None\<rparr>,
      [HttpGet (wttr_url loc), ConsoleError ''Error fetching weather data:'' err])"
  by (simp add: FetchWeather_eq degraded_weather_def)

theorem FetchWeather_degraded_witness:
  "axios_result \<lparr>openai = (\<lambda>k r. Inr []), wttr = (\<lambda>u. Inl (AxiosError ''connect ECONNREFUSED''))\<rparr> (wttr_url ''Zzqqxx'')
     = Inl (AxiosError ''connect ECONNREFUSED'') \<and>
   fst (FetchWeather \<lparr>openai = (\<lambda>k r. Inr []), wttr = (\<lambda>u. Inl (AxiosError ''connect ECONNREFUSED''))\<rparr> ''Zzqqxx'')
     = Inr (degraded_weather ''Zzqqxx'')"
proof -
  have h: "axios_result \<lparr>openai = (\<lambda>k r. Inr []), wttr = (\<lambda>u. Inl (AxiosError ''connect ECONNREFUSED''))\<rparr> (wttr_url ''Zzqqxx'')
             = Inl (AxiosError ''connect ECONNREFUSED'')"
    by (simp add: axios_result_def)
  show ?thesis using h FetchWeather_degraded [OF h] by (simp add: degraded_weather_def)
qed

text \<open>C10: on a well-formed wttr.in document the record holds the area name and description as read and the numeric fields as \<^verbatim>\<open>parseFloat\<close> of the provider's strings.\<close>

theorem parse_weather_wttr_doc:
  "parse_weather (wttr_doc area temp desc hum wind feels obs) =
     Inr \<lparr>location = JStr area, temperature = parse_float_str temp, description = JStr desc,
          humidity = Some (parse_float_str hum), windSpeed = Some (parse_float_str wind),
          feelsLike = Some (parse_float_str feels), lastUpdated = Some (JStr obs)\<rparr>"
  by (simp add: parse_weather_def wttr_doc_def cc_path_def js_parseFloat_def index_of_key_def
                is_digit_def digits_val_def digit_val_def)

text \<open>C12: the success path does not guarantee the record the spec describes: a provider document with the expected arrays but no \<^verbatim>\<open>value\<close> and no \<^verbatim>\<open>temp_C\<close> yields a record whose location is \<^verbatim>\<open>undefined\<close> and whose temperature is \<^verbatim>\<open>NaN\<close>, with no exception to trigger the degraded record.\<close>

theorem parse_weather_location_undefined:
  "\<exists>data wd. parse_weather data = Inr wd \<and> location wd = JUndef \<and> temperature wd = JNaN"
proof -
  let ?data = "JObj [(''current_condition'', JArr [JObj [(''weatherDesc'', JArr [JObj []])]]),
                     (''nearest_area'', JArr [JObj [(''areaName'', JArr [JObj []])]])]"
  have "parse_weather ?data =
          Inr \<lparr>location = JUndef, temperature = parse_float_str ''undefined'', description = JUndef,
               humidity = Some (parse_float_str ''undefined''), windSpeed = Some (parse_float_str ''undefined''),
               feelsLike = Some (parse_float_str ''undefined''), lastUpdated = Some JUndef\<rparr>"
    by (simp add: parse_weather_def cc_path_def js_parseFloat_def index_of_key_def
                  is_digit_def digits_val_def digit_val_def)
  moreover have "parse_float_str ''undefined'' = JNaN"
    by (simp add: parse_float_str_def trim_start.simps js_ws_def parse_unsigned_def is_digit_def)
  ultimately show ?thesis by fastforce
qed

text \<open>C13: the request URL is the wttr.in prefix, one percent-encoded path segment that decodes back to the location and contains no \<^verbatim>\<open>/\<close>, \<^verbatim>\<open>?\<close> or \<^verbatim>\<open>#\<close>, and the fixed query \<^verbatim>\<open>?format=j1\<close>: no location can change the host, the path depth or the query.\<close>

theorem wttr_url_component:
  "\<exists>enc. wttr_url loc = ''https://wttr.in/'' @ enc @ ''?format=j1'' \<and>
         uri_decode enc = Some loc \<and> set enc \<inter> set ''/?#'' = {}"
  using uri_decode_encode [of loc] encodeURIComponent_safe [of loc] by (auto simp: wttr_url_def)

text \<open>C24: an answer whose status is outside 200..299 is rejected by axios with \<^verbatim>\<open>Request failed with status code N\<close>; \<^verbatim>\<open>FetchWeather\<close> logs that error and resolves with the degraded record, without reading the body.\<close>

theorem FetchWeather_bad_status:
  assumes "wttr w (wttr_url loc) = Inr r" "\<not> (200 \<le> status r \<and> status r < 300)"
  shows "FetchWeather w loc =
     (Inr (degraded_weather loc),
      [HttpGet (wttr_url loc),
       ConsoleError ''Error fetching weather data:''
         (AxiosError (''Request failed with status code '' @ dec_string (status r)))])"
proof -
  have "axios_result w (wttr_url loc) = Inl (axios_status_error (status r))"
    using assms by (simp add: axios_result_def axios_settle_def)
  then show ?thesis by (simp add: FetchWeather_eq axios_status_error_def)
qed

theorem FetchWeather_bad_status_witness:
  "wttr \<lparr>openai = (\<lambda>k r. Inr []), wttr = (\<lambda>u. Inr \<lparr>status = 503, body = ''{}''\<rparr>)\<rparr> (wttr_url ''Paris'')
     = Inr \<lparr>status = 503, body = ''{}''\<rparr> \<and>
   \<not> (200 \<le> status \<lparr>status = 503, body = ''{}''\<rparr> \<and> status \<lparr>status = 503, body = ''{}''\<rparr> < (300::nat)) \<and>
   fst (FetchWeather \<lparr>openai = (\<lambda>k r. Inr []), wttr = (\<lambda>u. Inr \<lparr>status = 503, body = ''{}''\<rparr>)\<rparr> ''Paris'')
     = Inr (degraded_weather ''Paris'')"
proof -
  have h: "wttr \<lparr>openai = (\<lambda>k r. Inr []), wttr = (\<lambda>u. Inr \<lparr>status = 503, body = ''{}''\<rparr>)\<rparr> (wttr_url ''Paris'')
             = Inr \<lparr>status = 503, body = ''{}''\<rparr>" by simp
  have s: "\<not> (200 \<le> status \<lparr>status = 503, body = ''{}''\<rparr> \<and> status \<lparr>status = 503, body = ''{}''\<rparr> < (300::nat))"
    by simp
  show ?thesis using h s FetchWeather_bad_status [OF h s] by simp
qed

text \<open>C25: a 2xx answer whose body is not JSON (an HTML error page, a plain-text message) reaches the code as a string; the first property read of the \<^verbatim>\<open>try\<close> block then throws a \<^verbatim>\<open>TypeError\<close>, which \<^verbatim>\<open>FetchWeather\<close> logs before resolving with the degraded record.\<close>

theorem FetchWeather_non_json_body:
  assumes "wttr w (wttr_url loc) = Inr r" "200 \<le> status r \<and> status r < 300"
    and "json_parse (strip_bom (body r)) = None"
  shows "FetchWeather w loc =
     (Inr (degraded_weather loc),
      [HttpGet (wttr_url loc),
       ConsoleError ''Error fetching weather data:'' (TypeError ''Cannot read properties of undefined reading 0'')])"
  using assms
  by (simp add: FetchWeather_eq axios_result_def axios_settle_def axios_data_def parse_weather_def
                index_of_key_def)

theorem FetchWeather_non_json_body_witness:
  "wttr \<lparr>openai = (\<lambda>k r. Inr []), wttr = (\<lambda>u. Inr \<lparr>status = 200, body = ''<html>''\<rparr>)\<rparr> (wttr_url ''Paris'')
     = Inr \<lparr>status = 200, body = ''<html>''\<rparr> \<and>
   json_parse (strip_bom ''<html>'') = None \<and>
   fst (FetchWeather \<lparr>openai = (\<lambda>k r. Inr []), wttr = (\<lambda>u. Inr \<lparr>status = 200, body = ''<html>''\<rparr>)\<rparr> ''Paris'')
     = Inr (degraded_weather ''Paris'')"
proof -
  have h: "wttr \<lparr>openai = (\<lambda>k r. Inr []), wttr = (\<lambda>u. Inr \<lparr>status = 200, body = ''<html>''\<rparr>)\<rparr> (wttr_url ''Paris'')
             = Inr \<lparr>status = 200, body = ''<html>''\<rparr>" by simp
  have s: "200 \<le> status \<lparr>status = 200, body = ''<html>''\<rparr> \<and> status \<lparr>status = 200, body = ''<html>''\<rparr> < (300::nat)"
    by simp
  have p: "json_parse (strip_bom (body \<lparr>status = 200, body = ''<html>''\<rparr>)) = None"
    by code_simp
  show ?thesis using h s p FetchWeather_non_json_body [OF h s p] by simp
qed

end
