(* ===== verification/Agent.thy ===== *)
theory Agent
  imports Weather
begin

text \<open>
  The query pipeline of index.tsx: the two model steps \<^verbatim>\<open>ExtractLocation\<close>
  (lines 42-56) and \<^verbatim>\<open>GenerateResponse\<close> (lines 102-120), the orchestrating
  \<^verbatim>\<open>WeatherAgent\<close> (lines 123-146), the provider wrapper
  \<^verbatim>\<open>WeatherAgentComponent\<close> and the workflow (lines 149-158), and the failure
  boundary \<^verbatim>\<open>processWeatherQuery\<close> (lines 161-169). Each is a function of the
  \<open>world\<close> and its inputs to an awaited computation; the context of
  \<^verbatim>\<open>OpenAIProvider\<close> is an explicit \<open>gensx_ctx\<close> argument, the credential
  a run starts with. A model step's result is the string \<^verbatim>\<open>ChatCompletion\<close>
  resolves with, so \<^verbatim>\<open>String(...)\<close> of it is the identity.
\<close>

section \<open>The model steps\<close>

definition gpt_model :: string where
  "gpt_model = ''gpt-4o-mini''"

definition extract_instruction :: string where
  "extract_instruction =
     ''Extract the city or location name from the user'' @ [CHR 0x27] @ ''s weather query. ''
     @ ''Return only the city/location name, nothing else. ''
     @ ''If the query doesn'' @ [CHR 0x27] @ ''t contain a city/location, return an empty string.''"

definition ExtractLocation_request :: "string \<Rightarrow> chat_request" where
  "ExtractLocation_request userInput =
     \<lparr>model = gpt_model,
      messages = [\<lparr>role = System, content = extract_instruction\<rparr>,
                  \<lparr>role = User, content = userInput\<rparr>]\<rparr>"

definition ExtractLocation :: "world \<Rightarrow> gensx_ctx \<Rightarrow> string \<Rightarrow> string run" where
  "ExtractLocation w ctx userInput = ChatCompletion w ctx (ExtractLocation_request userInput)"

definition generate_instruction :: string where
  "generate_instruction =
     ''You are a weather assistant. Use the provided weather data to answer the user'' @ [CHR 0x27]
     @ ''s question. Do not answer or ask anything else. Be friendly and informative.''"

text \<open>A template literal \<^verbatim>\<open>${v}\<close> prints \<^verbatim>\<open>undefined\<close> when \<^verbatim>\<open>JSON.stringify\<close> returns it.\<close>

definition json_text :: "jsval \<Rightarrow> string" where
  "json_text v = (case json_stringify2 v of None \<Rightarrow> ''undefined'' | Some s \<Rightarrow> s)"

definition GenerateResponse_request :: "WeatherData \<Rightarrow> string \<Rightarrow> chat_request" where
  "GenerateResponse_request weatherData userInput =
     \<lparr>model = gpt_model,
      messages = [\<lparr>role = System, content = generate_instruction\<rparr>,
                  \<lparr>role = User, content = userInput\<rparr>,
                  \<lparr>role = System, content = ''Weather data: '' @ json_text (weather_to_js weatherData)\<rparr>]\<rparr>"

definition GenerateResponse :: "world \<Rightarrow> gensx_ctx \<Rightarrow> WeatherData \<Rightarrow> string \<Rightarrow> string run" where
  "GenerateResponse w ctx weatherData userInput =
     ChatCompletion w ctx (GenerateResponse_request weatherData userInput)"

section \<open>The workflow\<close>

definition please_specify :: string where
  "please_specify = ''Please specify a city or location in your request.''"

definition no_location_log :: "string \<Rightarrow> string" where
  "no_location_log userInput = ''Query doesn'' @ [CHR 0x27] @ ''t contain city/location: '' @ userInput"

definition fetch_failed :: js_error where
  "fetch_failed = Error ''Failed to fetch weather data.''"

definition WeatherAgent :: "world \<Rightarrow> gensx_ctx \<Rightarrow> string \<Rightarrow> string run" where
  "WeatherAgent w ctx userInput =
     cbind (ExtractLocation w ctx userInput) (\<lambda>location.
       if \<not> js_truthy (JStr location) then
         cbind (emit (ConsoleLog (no_location_log userInput))) (\<lambda>_. creturn please_specify)
       else
         cbind (emit (ConsoleLog (''Detected location: '' @ location))) (\<lambda>_.
         cbind (FetchWeather w location) (\<lambda>weatherData.
         cbind (emit (ConsoleLog (''Received weather data: '' @ json_text (weather_to_js weatherData)))) (\<lambda>_.
         if \<not> js_truthy (weather_to_js weatherData) then cthrow fetch_failed
         else GenerateResponse w ctx weatherData userInput))))"

definition WeatherAgentComponent :: "world \<Rightarrow> string \<Rightarrow> gensx_ctx \<Rightarrow> string \<Rightarrow> string run" where
  "WeatherAgentComponent w apiKey ctx userInput = WeatherAgent w (OpenAIProvider apiKey ctx) userInput"

text \<open>\<^verbatim>\<open>workflow.run\<close> renders the component in a fresh root context.\<close>

definition workflow_run :: "world \<Rightarrow> string \<Rightarrow> string \<Rightarrow> string run" where
  "workflow_run w apiKey query = WeatherAgentComponent w apiKey root_ctx query"

definition apology :: string where
  "apology = ''Sorry, an error occurred while processing your request. Please try again.''"

definition processWeatherQuery :: "world \<Rightarrow> string \<Rightarrow> string \<Rightarrow> string run" where
  "processWeatherQuery w apiKey query =
     ccatch (workflow_run w apiKey query)
       (\<lambda>err. cbind (emit (ConsoleError ''An error occurred while processing your request:'' err))
                (\<lambda>_. creturn apology))"

section \<open>A concrete world for the example scenarios of the spec\<close>

definition paris_doc :: jsval where
  "paris_doc = wttr_doc ''Paris'' ''12'' ''Sunny'' ''80'' ''9'' ''11'' ''10:00 AM''"

definition paris_wd :: WeatherData where
  "paris_wd =
     \<lparr>location = JStr ''Paris'', temperature = parse_float_str ''12'', description = JStr ''Sunny'',
      humidity = Some (parse_float_str ''80''), windSpeed = Some (parse_float_str ''9''),
      feelsLike = Some (parse_float_str ''11''), lastUpdated = Some (JStr ''10:00 AM'')\<rparr>"

text \<open>The body wttr.in sends for Paris: the document as \<^verbatim>\<open>JSON.stringify\<close> prints it.\<close>

definition paris_body :: string where
  "paris_body = the (json_stringify2 paris_doc)"

definition demo_world :: world where
  "demo_world =
     \<lparr>openai = (\<lambda>k r.
        if r = ExtractLocation_request ''Weather in Paris?'' then Inr ''Paris''
        else if r = ExtractLocation_request ''Tell me a joke'' then Inr []
        else if r = ExtractLocation_request ''Weather here?'' then Inr '' ''
        else if r = ExtractLocation_request ''Weather in Oslo?'' then Inr ''Oslo''
        else if r = ExtractLocation_request ''Weather?!'' then Inl (OpenAIError ''503'')
        else if r = GenerateResponse_request (degraded_weather ''Oslo'') ''Weather in Oslo?''
          then Inl (OpenAIError ''429'')
        else Inr ''It is sunny in Paris.''),
      wttr = (\<lambda>u. if u = wttr_url ''Paris'' then Inr \<lparr>status = 200, body = paris_body\<rparr>
                  else Inr \<lparr>status = 404, body = ''Unknown location''\<rparr>)\<rparr>"

section \<open>Properties\<close>

lemma ChatCompletion_provider [simp]:
  "ChatCompletion w (OpenAIProvider key ctx) req = (openai w key req, [LlmCall key req])"
  by (cases "openai w key req") (simp_all add: ChatCompletion_def OpenAIProvider_def comp_simps)

lemma WeatherAgent_extract_error:
  "openai w key (ExtractLocation_request q) = Inl err \<Longrightarrow>
   WeatherAgent w (OpenAIProvider key ctx) q = (Inl err, [LlmCall key (ExtractLocation_request q)])"
  by (simp add: WeatherAgent_def ExtractLocation_def)

lemma WeatherAgent_no_location:
  "openai w key (ExtractLocation_request q) = Inr [] \<Longrightarrow>
   WeatherAgent w (OpenAIProvider key ctx) q =
     (Inr please_specify, [LlmCall key (ExtractLocation_request q), ConsoleLog (no_location_log q)])"
  by (simp add: WeatherAgent_def ExtractLocation_def comp_simps)

lemma WeatherAgent_located:
  assumes "openai w key (ExtractLocation_request q) = Inr loc" "loc \<noteq> []"
    and "FetchWeather w loc = (Inr wd, evs)"
  shows "WeatherAgent w (OpenAIProvider key ctx) q =
     (openai w key (GenerateResponse_request wd q),
      [LlmCall key (ExtractLocation_request q), ConsoleLog (''Detected location: '' @ loc)] @ evs
      @ [ConsoleLog (''Received weather data: '' @ json_text (weather_to_js wd)),
         LlmCall key (GenerateResponse_request wd q)])"
  using assms by (simp add: WeatherAgent_def ExtractLocation_def GenerateResponse_def comp_simps)

lemma workflow_run_eq [simp]:
  "workflow_run w key q = WeatherAgent w (OpenAIProvider key root_ctx) q"
  by (simp add: workflow_run_def WeatherAgentComponent_def)

lemma paris_parse: "parse_weather paris_doc = Inr paris_wd"
  by (simp add: paris_doc_def paris_wd_def parse_weather_def wttr_doc_def cc_path_def js_parseFloat_def
                index_of_key_def is_digit_def digits_val_def digit_val_def)

lemma paris_body_data: "axios_data paris_body = paris_doc"
proof -
  have wf: "json_wf paris_doc" by (simp add: paris_doc_def wttr_doc_def)
  have s: "json_stringify2 paris_doc = Some paris_body"
    by (simp add: paris_body_def paris_doc_def wttr_doc_def json_stringify2_def)
  have "strip_bom paris_body = paris_body"
    by (simp add: strip_bom_def paris_body_def paris_doc_def wttr_doc_def json_stringify2_def)
  moreover have "json_norm paris_doc = paris_doc" by (simp add: paris_doc_def wttr_doc_def)
  ultimately show ?thesis using json_parse_stringify [OF wf s] by (simp add: axios_data_def)
qed

lemma demo_paris_url: "axios_result demo_world (wttr_url ''Paris'') = Inr paris_doc"
  by (simp add: axios_result_def axios_settle_def paris_body_data demo_world_def)

lemma processWeatherQuery_cases:
  obtains (error) err where "openai w key (ExtractLocation_request q) = Inl err"
  | (empty) "openai w key (ExtractLocation_request q) = Inr []"
  | (located) loc wd evs where "openai w key (ExtractLocation_request q) = Inr loc" "loc \<noteq> []"
      "FetchWeather w loc = (Inr wd, evs)"
  using FetchWeather_Inr by (cases "openai w key (ExtractLocation_request q)") blast+

lemma processWeatherQuery_Inr: "\<exists>s. fst (processWeatherQuery w key q) = Inr s"
proof (cases rule: processWeatherQuery_cases [of w key q])
  case (located loc wd evs)
  then show ?thesis
    by (cases "openai w key (GenerateResponse_request wd q)")
       (simp_all add: processWeatherQuery_def WeatherAgent_located comp_simps)
qed (simp_all add: processWeatherQuery_def WeatherAgent_extract_error WeatherAgent_no_location comp_simps)

lemma processWeatherQuery_keys:
  "set (llm_keys (snd (processWeatherQuery w key q))) \<subseteq> {key}"
proof (cases rule: processWeatherQuery_cases [of w key q])
  case (error err)
  then show ?thesis by (simp add: processWeatherQuery_def WeatherAgent_extract_error comp_simps)
next
  case empty
  then show ?thesis by (simp add: processWeatherQuery_def WeatherAgent_no_location)
next
  case (located loc wd evs)
  moreover have "llm_keys evs = []" using FetchWeather_keys [of w loc] located(3) by simp
  ultimately show ?thesis
    by (cases "openai w key (GenerateResponse_request wd q)")
       (auto simp: processWeatherQuery_def WeatherAgent_located comp_simps)
qed

text \<open>C1: \<^verbatim>\<open>processWeatherQuery\<close> never throws, whatever the services answer: its outcome is a string, and that string is the fixed request for a location, the fixed apology, or a text the model returned for a \<^verbatim>\<open>GenerateResponse\<close> request about this query.\<close>

theorem processWeatherQuery_always_answers:
  "\<exists>s. fst (processWeatherQuery w key q) = Inr s \<and>
       (s = please_specify \<or> s = apology \<or> (\<exists>wd. openai w key (GenerateResponse_request wd q) = Inr s))"
proof (cases rule: processWeatherQuery_cases [of w key q])
  case (error err)
  then show ?thesis by (simp add: processWeatherQuery_def WeatherAgent_extract_error comp_simps)
next
  case empty
  then show ?thesis by (simp add: processWeatherQuery_def WeatherAgent_no_location)
next
  case (located loc wd evs)
  then show ?thesis
    by (cases "openai w key (GenerateResponse_request wd q)")
       (auto simp: processWeatherQuery_def WeatherAgent_located comp_simps)
qed

text \<open>C2: when the model extracts the empty string, the run answers the fixed request for a location after exactly one model call and one log line: the weather service and the generation step are never called.\<close>

theorem processWeatherQuery_no_location:
  "openai w key (ExtractLocation_request q) = Inr [] \<Longrightarrow>
   processWeatherQuery w key q =
     (Inr please_specify, [LlmCall key (ExtractLocation_request q), ConsoleLog (no_location_log q)])"
  by (simp add: processWeatherQuery_def WeatherAgent_no_location)

theorem processWeatherQuery_no_location_witness:
  "openai demo_world ''sk-test'' (ExtractLocation_request ''Tell me a joke'') = Inr [] \<and>
   processWeatherQuery demo_world ''sk-test'' ''Tell me a joke'' =
     (Inr please_specify, [LlmCall ''sk-test'' (ExtractLocation_request ''Tell me a joke''),
                           ConsoleLog (no_location_log ''Tell me a joke'')])"
proof -
  have h: "openai demo_world ''sk-test'' (ExtractLocation_request ''Tell me a joke'') = Inr []"
    by (simp add: demo_world_def ExtractLocation_request_def)
  show ?thesis using h processWeatherQuery_no_location [OF h] by simp
qed

text \<open>C4: on the success path the run makes exactly the calls extraction, weather lookup, generation, in that order, with the two log lines between them, and returns the generated text unchanged.\<close>

theorem processWeatherQuery_answer:
  assumes "openai w key (ExtractLocation_request q) = Inr loc" "loc \<noteq> []"
    and "axios_result w (wttr_url loc) = Inr data" "parse_weather data = Inr wd"
    and "openai w key (GenerateResponse_request wd q) = Inr answer"
  shows "processWeatherQuery w key q =
     (Inr answer,
      [LlmCall key (ExtractLocation_request q), ConsoleLog (''Detected location: '' @ loc),
       HttpGet (wttr_url loc),
       ConsoleLog (''Received weather data: '' @ json_text (weather_to_js wd)),
       LlmCall key (GenerateResponse_request wd q)])"
proof -
  have "FetchWeather w loc = (Inr wd, [HttpGet (wttr_url loc)])"
    using assms(3,4) by (simp add: FetchWeather_eq)
  with assms(1,2,5) show ?thesis
    by (simp add: processWeatherQuery_def WeatherAgent_located)
qed

theorem processWeatherQuery_answer_witness:
  "openai demo_world ''sk-test'' (ExtractLocation_request ''Weather in Paris?'') = Inr ''Paris'' \<and>
   openai demo_world ''sk-test'' (GenerateResponse_request paris_wd ''Weather in Paris?'')
     = Inr ''It is sunny in Paris.'' \<and>
   processWeatherQuery demo_world ''sk-test'' ''Weather in Paris?'' =
     (Inr ''It is sunny in Paris.'',
      [LlmCall ''sk-test'' (ExtractLocation_request ''Weather in Paris?''),
       ConsoleLog (''Detected location: '' @ ''Paris''), HttpGet (wttr_url ''Paris''),
       ConsoleLog (''Received weather data: '' @ json_text (weather_to_js paris_wd)),
       LlmCall ''sk-test'' (GenerateResponse_request paris_wd ''Weather in Paris?'')])"
proof -
  have h1: "openai demo_world ''sk-test'' (ExtractLocation_request ''Weather in Paris?'') = Inr ''Paris''"
    by (simp add: demo_world_def ExtractLocation_request_def)
  have h5: "openai demo_world ''sk-test'' (GenerateResponse_request paris_wd ''Weather in Paris?'')
              = Inr ''It is sunny in Paris.''"
    by (simp add: demo_world_def ExtractLocation_request_def GenerateResponse_request_def)
  have h2: "''Paris'' \<noteq> []" by simp
  show ?thesis
    using h1 h5 processWeatherQuery_answer [OF h1 h2 demo_paris_url paris_parse h5] by simp
qed

text \<open>C7: a failure of the extraction call is converted by the failure boundary into the apology, after an error log line, and no weather lookup is made.\<close>

theorem processWeatherQuery_extraction_failure:
  "openai w key (ExtractLocation_request q) = Inl err \<Longrightarrow>
   processWeatherQuery w key q =
     (Inr apology, [LlmCall key (ExtractLocation_request q),
                    ConsoleError ''An error occurred while processing your request:'' err])"
  by (simp add: processWeatherQuery_def WeatherAgent_extract_error comp_simps)

theorem processWeatherQuery_extraction_failure_witness:
  "openai demo_world ''sk-test'' (ExtractLocation_request ''Weather?!'') = Inl (OpenAIError ''503'') \<and>
   fst (processWeatherQuery demo_world ''sk-test'' ''Weather?!'') = Inr apology"
proof -
  have h: "openai demo_world ''sk-test'' (ExtractLocation_request ''Weather?!'') = Inl (OpenAIError ''503'')"
    by (simp add: demo_world_def ExtractLocation_request_def)
  show ?thesis using h processWeatherQuery_extraction_failure [OF h] by simp
qed

text \<open>C6: a failure of the generation call after a weather lookup ends in the apology, and the last event of the run is the error log of the failure boundary.\<close>

theorem processWeatherQuery_generation_failure:
  assumes "openai w key (ExtractLocation_request q) = Inr loc" "loc \<noteq> []"
    and "FetchWeather w loc = (Inr wd, evs)"
    and "openai w key (GenerateResponse_request wd q) = Inl err"
  shows "fst (processWeatherQuery w key q) = Inr apology \<and>
         last (snd (processWeatherQuery w key q)) = ConsoleError ''An error occurred while processing your request:'' err"
  using assms by (simp add: processWeatherQuery_def WeatherAgent_located comp_simps)

theorem processWeatherQuery_generation_failure_witness:
  "fst (processWeatherQuery demo_world ''sk-test'' ''Weather in Oslo?'') = Inr apology"
proof -
  have h1: "openai demo_world ''sk-test'' (ExtractLocation_request ''Weather in Oslo?'') = Inr ''Oslo''"
    by (simp add: demo_world_def ExtractLocation_request_def)
  have h2: "''Oslo'' \<noteq> []" by simp
  have h3: "FetchWeather demo_world ''Oslo'' =
              (Inr (degraded_weather ''Oslo''),
               [HttpGet (wttr_url ''Oslo''),
                ConsoleError ''Error fetching weather data:'' (axios_status_error 404)])"
    by (simp add: FetchWeather_eq axios_result_def axios_settle_def demo_world_def wttr_url_def encodeURIComponent_def uri_unreserved_def
                  is_alpha_def is_digit_def)
  have h4: "openai demo_world ''sk-test'' (GenerateResponse_request (degraded_weather ''Oslo'') ''Weather in Oslo?'')
              = Inl (OpenAIError ''429'')"
    by (simp add: demo_world_def ExtractLocation_request_def GenerateResponse_request_def)
  show ?thesis using processWeatherQuery_generation_failure [OF h1 h2 h3 h4] by simp
qed

text \<open>C8: the external calls of any run are a prefix of extraction, then one weather lookup, then one generation: no retry, no reordering, at most three calls.\<close>

theorem processWeatherQuery_call_order:
  "\<exists>n loc wd. filter is_call (snd (processWeatherQuery w key q)) =
     take n [LlmCall key (ExtractLocation_request q), HttpGet (wttr_url loc),
             LlmCall key (GenerateResponse_request wd q)]"
proof (cases rule: processWeatherQuery_cases [of w key q])
  case (error err)
  then show ?thesis
    by (simp add: processWeatherQuery_def WeatherAgent_extract_error comp_simps)
       (metis take_Suc_Cons take_0)
next
  case empty
  then show ?thesis
    by (simp add: processWeatherQuery_def WeatherAgent_no_location) (metis take_Suc_Cons take_0)
next
  case (located loc wd evs)
  have "filter is_call evs = [HttpGet (wttr_url loc)]"
    using FetchWeather_calls [of w loc] located(3) by simp
  with located have "filter is_call (snd (processWeatherQuery w key q)) =
     [LlmCall key (ExtractLocation_request q), HttpGet (wttr_url loc), LlmCall key (GenerateResponse_request wd q)]"
    by (cases "openai w key (GenerateResponse_request wd q)")
       (simp_all add: processWeatherQuery_def WeatherAgent_located comp_simps)
  then show ?thesis by (metis take_all order_refl length_Cons list.size(3))
qed

text \<open>C11: the emptiness test on the extracted location does not trim: every non-empty string the model returns, one of white space only included, is taken as the location exactly as returned, and the run makes the three calls extraction, lookup of the URL built from that untrimmed string, and generation on the record the lookup gives; for a single space wttr.in is asked for \<^verbatim>\<open>%20\<close>.\<close>

theorem processWeatherQuery_untrimmed_location:
  assumes "openai w key (ExtractLocation_request q) = Inr loc" "loc \<noteq> []"
  shows "filter is_call (snd (processWeatherQuery w key q)) =
     [LlmCall key (ExtractLocation_request q), HttpGet (wttr_url loc),
      LlmCall key (GenerateResponse_request (projr (fst (FetchWeather w loc))) q)]"
proof -
  obtain wd evs where fw: "FetchWeather w loc = (Inr wd, evs)"
    using FetchWeather_Inr by blast
  have "filter is_call evs = [HttpGet (wttr_url loc)]"
    using FetchWeather_calls [of w loc] fw by simp
  with assms fw show ?thesis
    by (cases "openai w key (GenerateResponse_request wd q)")
       (simp_all add: processWeatherQuery_def WeatherAgent_located comp_simps)
qed

theorem processWeatherQuery_untrimmed_location_witness:
  "openai demo_world ''sk-test'' (ExtractLocation_request ''Weather here?'') = Inr '' '' \<and>
   filter is_call (snd (processWeatherQuery demo_world ''sk-test'' ''Weather here?'')) =
     [LlmCall ''sk-test'' (ExtractLocation_request ''Weather here?''), HttpGet ''https://wttr.in/%20?format=j1'',
      LlmCall ''sk-test'' (GenerateResponse_request (degraded_weather '' '') ''Weather here?'')]"
proof -
  have h1: "openai demo_world ''sk-test'' (ExtractLocation_request ''Weather here?'') = Inr '' ''"
    by (simp add: demo_world_def ExtractLocation_request_def)
  have h2: "'' '' \<noteq> []" by simp
  have u: "wttr_url '' '' = ''https://wttr.in/%20?format=j1''"
    by (simp add: wttr_url_def encodeURIComponent_def uri_unreserved_def is_alpha_def is_digit_def
                  pct_encode_def hex_char_def digit_char_def char_of_def bit_0)
  have f: "projr (fst (FetchWeather demo_world '' '')) = degraded_weather '' ''"
  proof -
    have "wttr_url '' '' \<noteq> wttr_url ''Paris''"
      by (simp add: wttr_url_def encodeURIComponent_def uri_unreserved_def is_alpha_def is_digit_def
                    pct_encode_def)
    then show ?thesis by (simp add: FetchWeather_eq axios_result_def axios_settle_def demo_world_def)
  qed
  show ?thesis using h1 processWeatherQuery_untrimmed_location [OF h1 h2] by (simp only: u f)
qed

end
