(* ===== verification/Frontends.thy ===== *)
theory Frontends
  imports Agent
begin

text \<open>
  The front ends of index.tsx around the pipeline: the start-up code that reads the
  environment, checks the API key and picks a mode (lines 8-23 and 246-257), the console
  session (\<^verbatim>\<open>startConsoleMode\<close>, lines 213-244) and the Telegram handlers
  (\<^verbatim>\<open>startTelegramBot\<close>, lines 172-210). Their observable behaviour is a list of
  \<open>ui_event\<close>s: lines on standard output and error, the readline prompt, the events of
  each pipeline run, the exit of the process, and the bot's outgoing calls. The environment
  is the map \<^verbatim>\<open>process.env\<close> after \<^verbatim>\<open>dotenv.config()\<close>. The readline loop
  is a function of the list of input lines: each answered line asks the next question, so
  runs never overlap; when the input ends no further callback runs.
\<close>

datatype ui_event =
    Print string
  | ErrPrint string
  | Prompt string
  | Pipeline event
  | ProcessExit nat
  | SendMessage int string
  | ChatAction int string

type_synonym env = "string \<Rightarrow> string option"

section \<open>Emoji, as UTF-8 bytes\<close>

definition cross_mark :: string where "cross_mark = [CHR 0xE2, CHR 0x9D, CHR 0x8C]"
definition robot_face :: string where "robot_face = [CHR 0xF0, CHR 0x9F, CHR 0xA4, CHR 0x96]"
definition desktop :: string where "desktop = [CHR 0xF0, CHR 0x9F, CHR 0x96, CHR 0xA5, CHR 0xEF, CHR 0xB8, CHR 0x8F]"
definition waving_hand :: string where "waving_hand = [CHR 0xF0, CHR 0x9F, CHR 0x91, CHR 0x8B]"
definition hourglass :: string where "hourglass = [CHR 0xE2, CHR 0x8C, CHR 0x9B]"
definition sun_cloud :: string where "sun_cloud = [CHR 0xF0, CHR 0x9F, CHR 0x8C, CHR 0xA4, CHR 0xEF, CHR 0xB8, CHR 0x8F]"

section \<open>Start-up\<close>

text \<open>An environment variable as a JavaScript value (\<^verbatim>\<open>undefined\<close> when unset).\<close>

definition env_val :: "env \<Rightarrow> string \<Rightarrow> jsval" where
  "env_val e k = (case e k of None \<Rightarrow> JUndef | Some s \<Rightarrow> JStr s)"

text \<open>\<^verbatim>\<open>process.env.MODE || 'console'\<close>.\<close>

definition MODE :: "env \<Rightarrow> string" where
  "MODE e = (case e ''MODE'' of Some s \<Rightarrow> (if s = [] then ''console'' else s) | None \<Rightarrow> ''console'')"

datatype launch = Exited nat | TelegramMode string string | ConsoleMode string

definition startTelegramBot :: "env \<Rightarrow> string \<Rightarrow> launch \<times> ui_event list" where
  "startTelegramBot e apiKey =
     (case e ''TELEGRAM_BOT_TOKEN'' of
        Some token \<Rightarrow>
          (if token = [] then
             (Exited 1, [ErrPrint (cross_mark @ '' TELEGRAM_BOT_TOKEN not found in environment variables!''),
                         ErrPrint ''Please add TELEGRAM_BOT_TOKEN to your .env file to use Telegram mode.''])
           else (TelegramMode apiKey token, [Print (robot_face @ '' Telegram bot started and ready to answer queries!'')]))
      | None \<Rightarrow>
          (Exited 1, [ErrPrint (cross_mark @ '' TELEGRAM_BOT_TOKEN not found in environment variables!''),
                      ErrPrint ''Please add TELEGRAM_BOT_TOKEN to your .env file to use Telegram mode.'']))"

definition telegram_mode_error :: string where
  "telegram_mode_error = cross_mark @ '' '' @ [CHR 0x27] @ ''telegram'' @ [CHR 0x27]
     @ '' mode selected, but TELEGRAM_BOT_TOKEN not found in environment variables!''"

text \<open>The mode choice at the end of the module (lines 246-257), run once the key is known.\<close>

definition choose_mode :: "env \<Rightarrow> string \<Rightarrow> launch \<times> ui_event list" where
  "choose_mode e apiKey =
     (if MODE e = ''telegram'' then
        (if \<not> js_truthy (env_val e ''TELEGRAM_BOT_TOKEN'') then
           (Exited 1, [ErrPrint telegram_mode_error,
                       ErrPrint (''Please add TELEGRAM_BOT_TOKEN to your .env file or use ''
                                 @ [CHR 0x27] @ ''console'' @ [CHR 0x27] @ '' mode.'')])
         else startTelegramBot e apiKey)
      else (ConsoleMode apiKey, [Print (desktop @ '' Starting in console mode...'')]))"

text \<open>The key check of lines 18-23, then the mode choice.\<close>

definition startup :: "env \<Rightarrow> launch \<times> ui_event list" where
  "startup e =
     (case e ''OPENAI_API_KEY'' of
        None \<Rightarrow> (Exited 1, [ErrPrint (cross_mark @ '' OPENAI_API_KEY not found in environment variables!''),
                            ErrPrint ''Please add OPENAI_API_KEY to your .env file''])
      | Some apiKey \<Rightarrow>
          (if \<not> js_truthy (JStr apiKey) then
             (Exited 1, [ErrPrint (cross_mark @ '' OPENAI_API_KEY not found in environment variables!''),
                         ErrPrint ''Please add OPENAI_API_KEY to your .env file''])
           else choose_mode e apiKey))"

fun launch_key :: "launch \<Rightarrow> string option" where
  "launch_key (Exited n) = None"
| "launch_key (TelegramMode k t) = Some k"
| "launch_key (ConsoleMode k) = Some k"

section \<open>Console mode\<close>

definition is_exit :: "string \<Rightarrow> bool" where
  "is_exit q \<longleftrightarrow> map ascii_lower q = ''exit''"

definition question_prompt :: string where
  "question_prompt = ''Your question: ''"

definition getting_info :: string where
  "getting_info = hourglass @ '' Getting weather information...''"

definition answer_line :: "string \<Rightarrow> string" where
  "answer_line s = [CHR 0x0A] @ sun_cloud @ '' '' @ s @ [CHR 0x0A]"

text \<open>
  \<^verbatim>\<open>processQuery\<close> and the next \<^verbatim>\<open>rl.question\<close>, over the remaining input lines.
  A rejected \<^verbatim>\<open>processWeatherQuery\<close> would end the process with an unhandled rejection;
  the pipeline never rejects, so that branch is not reached.
\<close>

fun console_loop :: "world \<Rightarrow> string \<Rightarrow> string list \<Rightarrow> ui_event list" where
  "console_loop w key [] = []"
| "console_loop w key (q # qs) =
     (if is_exit q then [Print ''Goodbye! Have a great day!'', ProcessExit 0]
      else
        (let r = processWeatherQuery w key q in
         [Print getting_info] @ map Pipeline (snd r) @
         (case fst r of
            Inl err \<Rightarrow> [ProcessExit 1]
          | Inr s \<Rightarrow> [Print (answer_line s), Prompt question_prompt] @ console_loop w key qs)))"

definition startConsoleMode :: "world \<Rightarrow> string \<Rightarrow> string list \<Rightarrow> ui_event list" where
  "startConsoleMode w key lines =
     [Print (waving_hand @ '' Weather assistant welcomes you!''),
      Print (''Ask about the weather in any city, for example: '' @ [CHR 0x22]
             @ ''What'' @ [CHR 0x27] @ ''s the weather in London?'' @ [CHR 0x22]),
      Print (''To exit type '' @ [CHR 0x27] @ ''exit'' @ [CHR 0x27]),
      Prompt question_prompt] @ console_loop w key lines"

section \<open>Telegram mode\<close>

record tg_message =
  chat_id :: int
  msg_text :: "string option"

fun has_infix :: "string \<Rightarrow> string \<Rightarrow> bool" where
  "has_infix p [] = (p = [])"
| "has_infix p (c # cs) = (take (length p) (c # cs) = p \<or> has_infix p cs)"

definition welcome_text :: string where
  "welcome_text = waving_hand @ '' Weather assistant welcomes you!'' @ [CHR 0x0A, CHR 0x0A]
     @ ''Ask about the weather in any city, for example: '' @ [CHR 0x22]
     @ ''What'' @ [CHR 0x27] @ ''s the weather in London?'' @ [CHR 0x22]"

text \<open>\<^verbatim>\<open>bot.onText(/\/start/, ...)\<close>: runs for a text message containing \<^verbatim>\<open>/start\<close> anywhere.\<close>

definition on_start :: "tg_message \<Rightarrow> ui_event list" where
  "on_start msg =
     (case msg_text msg of
        None \<Rightarrow> []
      | Some t \<Rightarrow> (if has_infix ''/start'' t then [SendMessage (chat_id msg) welcome_text] else []))"

text \<open>\<^verbatim>\<open>msg.text?.startsWith('/')\<close>: \<^verbatim>\<open>undefined\<close> for a message without text.\<close>

definition starts_with_slash :: "string option \<Rightarrow> jsval" where
  "starts_with_slash t = (case t of None \<Rightarrow> JUndef | Some s \<Rightarrow> JBool (take 1 s = ''/''))"

definition on_message :: "world \<Rightarrow> string \<Rightarrow> tg_message \<Rightarrow> ui_event list" where
  "on_message w key msg =
     (if \<not> js_truthy (starts_with_slash (msg_text msg)) then
        (let userQuery = (case msg_text msg of None \<Rightarrow> [] | Some t \<Rightarrow> t);
             r = processWeatherQuery w key userQuery
         in [ChatAction (chat_id msg) ''typing''] @ map Pipeline (snd r) @
            (case fst r of Inl err \<Rightarrow> [] | Inr s \<Rightarrow> [SendMessage (chat_id msg) (sun_cloud @ '' '' @ s)]))
      else [])"

section \<open>The program\<close>

text \<open>
  One update of the bot, processed alone. The library emits \<^verbatim>\<open>'message'\<close> first, then
  runs the \<^verbatim>\<open>/\/start/\<close> handler. The \<^verbatim>\<open>'message'\<close> handler is an
  \<^verbatim>\<open>async\<close> function: it runs at once up to its first suspension, after
  \<^verbatim>\<open>sendChatAction\<close> (its first event, if any), and the pipeline and the reply come
  after the \<^verbatim>\<open>/start\<close> handler has run. How the updates of several chats interleave
  is the subject of \<open>Concurrency\<close>.
\<close>

definition tg_update :: "world \<Rightarrow> string \<Rightarrow> tg_message \<Rightarrow> ui_event list" where
  "tg_update w key msg = take 1 (on_message w key msg) @ on_start msg @ drop 1 (on_message w key msg)"

text \<open>
  The whole module run: start-up, then the console session over the input lines or the bot
  over the delivered messages.
\<close>

definition run_program :: "env \<Rightarrow> world \<Rightarrow> string list \<Rightarrow> tg_message list \<Rightarrow> ui_event list" where
  "run_program e w lines msgs =
     (case startup e of
        (Exited n, evs) \<Rightarrow> evs @ [ProcessExit n]
      | (ConsoleMode key, evs) \<Rightarrow> evs @ startConsoleMode w key lines
      | (TelegramMode key token, evs) \<Rightarrow> evs @ concat (map (tg_update w key) msgs))"

section \<open>Lemmas\<close>

lemma MODE_telegram: "MODE e = ''telegram'' \<longleftrightarrow> e ''MODE'' = Some ''telegram''"
  by (simp add: MODE_def split: option.split)

lemma startup_key: "launch_key (fst (startup e)) = Some k \<Longrightarrow> e ''OPENAI_API_KEY'' = Some k"
  by (auto simp: startup_def choose_mode_def startTelegramBot_def split: option.splits if_splits)

lemma startup_events: "Pipeline ev \<notin> set (snd (startup e))"
  by (auto simp: startup_def choose_mode_def startTelegramBot_def split: option.splits)

lemma pipeline_key:
  "Pipeline (LlmCall k r) \<in> set (map Pipeline (snd (processWeatherQuery w key q))) \<Longrightarrow> k = key"
  using processWeatherQuery_keys [of w key q] llm_keys_mem [of k r] by auto

lemma console_loop_key: "Pipeline (LlmCall k r) \<in> set (console_loop w key qs) \<Longrightarrow> k = key"
proof (induction qs)
  case (Cons q qs)
  then show ?case
    using pipeline_key [of k r w key q]
    by (auto simp: Let_def split: if_splits sum.splits)
qed simp

lemma tg_update_key: "Pipeline (LlmCall k r) \<in> set (tg_update w key msg) \<Longrightarrow> k = key"
  using pipeline_key [of k r w key]
  by (auto simp: tg_update_def on_message_def on_start_def Let_def split: if_splits sum.splits option.splits)

lemma tg_update_send: "SendMessage c txt \<in> set (tg_update w key msg) \<Longrightarrow> c = chat_id msg"
  by (auto simp: tg_update_def on_message_def on_start_def Let_def
           dest: in_set_takeD in_set_dropD split: if_splits sum.splits option.splits)

lemma console_loop_step:
  "\<not> is_exit q \<Longrightarrow> console_loop w key (q # qs) =
     Print getting_info # map Pipeline (snd (processWeatherQuery w key q))
     @ [Print (answer_line (projr (fst (processWeatherQuery w key q)))), Prompt question_prompt]
     @ console_loop w key qs"
  using processWeatherQuery_Inr [of w key q] by (auto simp: Let_def)

lemma on_message_query:
  "\<not> js_truthy (starts_with_slash (msg_text msg)) \<Longrightarrow>
   on_message w key msg =
     (let q = (case msg_text msg of None \<Rightarrow> [] | Some t \<Rightarrow> t) in
      ChatAction (chat_id msg) ''typing'' # map Pipeline (snd (processWeatherQuery w key q))
      @ [SendMessage (chat_id msg) (sun_cloud @ '' '' @ projr (fst (processWeatherQuery w key q)))])"
  using processWeatherQuery_Inr [of w key "case msg_text msg of None \<Rightarrow> [] | Some t \<Rightarrow> t"]
  by (auto simp: on_message_def Let_def)

section \<open>Properties\<close>

text \<open>C5: every model call of a whole program run, in either mode and for any inputs and service behaviour, carries the \<^verbatim>\<open>OPENAI_API_KEY\<close> of the environment.\<close>

theorem program_credential:
  "Pipeline (LlmCall k r) \<in> set (run_program e w lines msgs) \<Longrightarrow> e ''OPENAI_API_KEY'' = Some k"
proof -
  assume a: "Pipeline (LlmCall k r) \<in> set (run_program e w lines msgs)"
  obtain l evs where s: "startup e = (l, evs)" by fastforce
  have "Pipeline (LlmCall k r) \<notin> set evs" using startup_events [of _ e] s by simp
  then have "launch_key l = Some k"
    using a s console_loop_key [of k r w] tg_update_key [of k r w]
    by (cases l) (auto simp: run_program_def startConsoleMode_def)
  then show ?thesis using startup_key [of e k] s by simp
qed

theorem program_credential_witness:
  "Pipeline (LlmCall ''sk'' (ExtractLocation_request ''Tell me a joke''))
     \<in> set (run_program (map_of [(''OPENAI_API_KEY'', ''sk'')]) demo_world [''Tell me a joke''] []) \<and>
   map_of [(''OPENAI_API_KEY'', ''sk'')] ''OPENAI_API_KEY'' = Some ''sk''"
proof -
  have s: "startup (map_of [(''OPENAI_API_KEY'', ''sk'')]) =
             (ConsoleMode ''sk'', [Print (desktop @ '' Starting in console mode...'')])"
    by (simp add: startup_def choose_mode_def MODE_def)
  have h: "openai demo_world ''sk'' (ExtractLocation_request ''Tell me a joke'') = Inr []"
    by (simp add: demo_world_def ExtractLocation_request_def)
  have x: "\<not> is_exit ''Tell me a joke''" by (simp add: is_exit_def ascii_lower_def char_of_eq_iff)
  have "Pipeline (LlmCall ''sk'' (ExtractLocation_request ''Tell me a joke''))
          \<in> set (run_program (map_of [(''OPENAI_API_KEY'', ''sk'')]) demo_world [''Tell me a joke''] [])"
    unfolding run_program_def s
    by (simp add: x startConsoleMode_def console_loop_step [OF x]
                  processWeatherQuery_def WeatherAgent_no_location [OF h])
  then show ?thesis using program_credential by blast
qed

text \<open>C14: start-up refuses to run without an OpenAI key: when \<^verbatim>\<open>OPENAI_API_KEY\<close> is unset or empty the program prints the two error lines and exits with status 1, whatever the mode.\<close>

theorem startup_missing_key:
  "e ''OPENAI_API_KEY'' = None \<or> e ''OPENAI_API_KEY'' = Some [] \<Longrightarrow>
   startup e = (Exited 1, [ErrPrint (cross_mark @ '' OPENAI_API_KEY not found in environment variables!''),
                           ErrPrint ''Please add OPENAI_API_KEY to your .env file''])"
  by (auto simp: startup_def choose_mode_def)

theorem startup_missing_key_witness:
  "map_of [(''MODE'', ''telegram'')] ''OPENAI_API_KEY'' = None \<and> fst (startup (map_of [(''MODE'', ''telegram'')])) = Exited 1"
  using startup_missing_key [of "map_of [(''MODE'', ''telegram'')]"] by simp

text \<open>C15: with a key, the program runs the Telegram bot exactly when \<^verbatim>\<open>MODE\<close> is \<^verbatim>\<open>telegram\<close> and a non-empty bot token is set, exits with status 1 when \<^verbatim>\<open>MODE\<close> is \<^verbatim>\<open>telegram\<close> without a token, and runs the console otherwise (any other or no \<^verbatim>\<open>MODE\<close>, \<^verbatim>\<open>Telegram\<close> included); the chosen front end carries the key.\<close>

theorem startup_mode:
  "e ''OPENAI_API_KEY'' = Some key \<Longrightarrow> key \<noteq> [] \<Longrightarrow>
   fst (startup e) =
     (if e ''MODE'' = Some ''telegram'' then
        (case e ''TELEGRAM_BOT_TOKEN'' of
           None \<Rightarrow> Exited 1
         | Some token \<Rightarrow> if token = [] then Exited 1 else TelegramMode key token)
      else ConsoleMode key)"
  by (auto simp: startup_def choose_mode_def startTelegramBot_def env_val_def MODE_telegram split: option.splits)

theorem startup_mode_witness:
  "map_of [(''OPENAI_API_KEY'', ''sk''), (''MODE'', ''Telegram'')] ''OPENAI_API_KEY'' = Some ''sk'' \<and> ''sk'' \<noteq> [] \<and>
   fst (startup (map_of [(''OPENAI_API_KEY'', ''sk''), (''MODE'', ''Telegram'')])) = ConsoleMode ''sk''"
  using startup_mode [of "map_of [(''OPENAI_API_KEY'', ''sk''), (''MODE'', ''Telegram'')]" "''sk''"] by simp

text \<open>C16: the console session ends at the first line that lower-cases to \<^verbatim>\<open>exit\<close>: it says goodbye and exits with status 0, and the lines after it are never read.\<close>

theorem console_exit_stops:
  "list_all (\<lambda>q. \<not> is_exit q) qs \<Longrightarrow> is_exit q \<Longrightarrow>
   console_loop w key (qs @ q # rest) = console_loop w key qs @ [Print ''Goodbye! Have a great day!'', ProcessExit 0]"
  by (induction qs) (simp, simp add: console_loop_step del: console_loop.simps)

theorem console_exit_stops_witness:
  "list_all (\<lambda>q. \<not> is_exit q) [''Tell me a joke''] \<and> is_exit ''ExIT'' \<and>
   console_loop demo_world ''sk'' [''Tell me a joke'', ''ExIT'', ''Weather in Paris?''] =
   console_loop demo_world ''sk'' [''Tell me a joke''] @ [Print ''Goodbye! Have a great day!'', ProcessExit 0]"
proof -
  have h: "list_all (\<lambda>q. \<not> is_exit q) [''Tell me a joke'']" "is_exit ''ExIT''"
    by (simp_all add: is_exit_def ascii_lower_def char_of_eq_iff)
  have "console_loop demo_world ''sk'' [''Tell me a joke'', ''ExIT'', ''Weather in Paris?''] =
        console_loop demo_world ''sk'' [''Tell me a joke''] @ [Print ''Goodbye! Have a great day!'', ProcessExit 0]"
    using console_exit_stops [OF h, of demo_world "''sk''" "[''Weather in Paris?'']"]
    by (simp only: append_Cons append_Nil)
  then show ?thesis using h by blast
qed

text \<open>C17: before an exit line the console answers each line in order, one pipeline run per line, each run finished (its answer printed and the next question asked) before the next line is read.\<close>

theorem console_session:
  "list_all (\<lambda>q. \<not> is_exit q) qs \<Longrightarrow>
   console_loop w key qs =
     concat (map (\<lambda>q. Print getting_info # map Pipeline (snd (processWeatherQuery w key q))
                       @ [Print (answer_line (projr (fst (processWeatherQuery w key q)))), Prompt question_prompt]) qs)"
  by (induction qs) (simp_all add: console_loop_step del: console_loop.simps(2))

theorem console_session_witness:
  "list_all (\<lambda>q. \<not> is_exit q) [''Tell me a joke''] \<and>
   console_loop demo_world ''sk'' [''Tell me a joke''] =
     Print getting_info # map Pipeline (snd (processWeatherQuery demo_world ''sk'' ''Tell me a joke''))
     @ [Print (answer_line please_specify), Prompt question_prompt]"
proof -
  have h: "list_all (\<lambda>q. \<not> is_exit q) [''Tell me a joke'']" by (simp add: is_exit_def ascii_lower_def char_of_eq_iff)
  have p: "fst (processWeatherQuery demo_world ''sk'' ''Tell me a joke'') = Inr please_specify"
    by (simp add: processWeatherQuery_def WeatherAgent_no_location ExtractLocation_request_def demo_world_def)
  have "console_loop demo_world ''sk'' [''Tell me a joke''] =
          Print getting_info # map Pipeline (snd (processWeatherQuery demo_world ''sk'' ''Tell me a joke''))
          @ [Print (answer_line please_specify), Prompt question_prompt]"
    using console_session [OF h, of demo_world "''sk''"]
    by (simp only: list.map concat.simps append_Nil2 p sum.sel append_Cons)
  then show ?thesis using h by blast
qed

text \<open>C18: a Telegram message without text (a photo, a sticker) is not ignored: the bot runs the pipeline on the empty query and replies.\<close>

theorem on_message_no_text:
  "msg_text msg = None \<Longrightarrow>
   on_message w key msg =
     ChatAction (chat_id msg) ''typing'' # map Pipeline (snd (processWeatherQuery w key []))
     @ [SendMessage (chat_id msg) (sun_cloud @ '' '' @ projr (fst (processWeatherQuery w key [])))]"
  by (simp add: on_message_query starts_with_slash_def)

theorem on_message_no_text_witness:
  "msg_text \<lparr>chat_id = 7, msg_text = None\<rparr> = None \<and>
   on_message demo_world ''sk'' \<lparr>chat_id = 7, msg_text = None\<rparr> =
     ChatAction 7 ''typing'' # map Pipeline (snd (processWeatherQuery demo_world ''sk'' []))
     @ [SendMessage 7 (sun_cloud @ '' '' @ projr (fst (processWeatherQuery demo_world ''sk'' [])))]"
  using on_message_no_text [of "\<lparr>chat_id = 7, msg_text = None\<rparr>" demo_world "''sk''"] by (simp only: tg_message.simps simp_thms)

text \<open>C19: a text that contains \<^verbatim>\<open>/start\<close> but does not begin with \<^verbatim>\<open>/\<close> gets two replies: the welcome text, sent first, and then the pipeline's answer.\<close>

theorem tg_start_in_text:
  "has_infix ''/start'' t \<Longrightarrow> take 1 t \<noteq> ''/'' \<Longrightarrow>
   tg_update w key \<lparr>chat_id = c, msg_text = Some t\<rparr> =
     ChatAction c ''typing'' # SendMessage c welcome_text # map Pipeline (snd (processWeatherQuery w key t))
     @ [SendMessage c (sun_cloud @ '' '' @ projr (fst (processWeatherQuery w key t)))]"
  by (simp add: tg_update_def on_message_query starts_with_slash_def on_start_def)

theorem tg_start_in_text_witness:
  "has_infix ''/start'' ''Hi /start'' \<and> take 1 ''Hi /start'' \<noteq> ''/'' \<and>
   length (tg_update demo_world ''sk'' \<lparr>chat_id = 7, msg_text = Some ''Hi /start''\<rparr>) =
     length (snd (processWeatherQuery demo_world ''sk'' ''Hi /start'')) + 3"
proof -
  have h: "has_infix ''/start'' ''Hi /start''" "take 1 ''Hi /start'' \<noteq> ''/''" by simp_all
  show ?thesis using h tg_start_in_text [OF h, of demo_world "''sk''" 7] by simp
qed

text \<open>C20: a text beginning with \<^verbatim>\<open>/\<close> causes no pipeline run and no model call: only a text containing \<^verbatim>\<open>/start\<close> is answered, with the welcome text.\<close>

theorem tg_command_ignored:
  "take 1 t = ''/'' \<Longrightarrow>
   tg_update w key \<lparr>chat_id = c, msg_text = Some t\<rparr> =
     (if has_infix ''/start'' t then [SendMessage c welcome_text] else [])"
  by (simp add: tg_update_def on_message_def starts_with_slash_def on_start_def)

theorem tg_command_ignored_witness:
  "take 1 ''/help'' = ''/'' \<and> tg_update demo_world ''sk'' \<lparr>chat_id = 7, msg_text = Some ''/help''\<rparr> = []"
  using tg_command_ignored [of "''/help''" demo_world "''sk''" 7] by simp

end
