(* ===== verification/Concurrency.thy ===== *)
theory Concurrency
  imports Sched Frontends
begin

text \<open>
  Concurrent operation, on the scheduler of \<open>Sched\<close>, whose jobs are:
  \<^item> \<open>bot_job\<close>: one Telegram update (index.tsx lines 185-209). The
    \<^verbatim>\<open>'message'\<close> handler runs to its first suspension (its
    \<^verbatim>\<open>sendChatAction\<close>), the \<^verbatim>\<open>/start\<close> handler runs at once after it, and
    the pipeline run and the reply of the \<^verbatim>\<open>'message'\<close> handler come later, one event
    per resumption, interleaved with the other updates in flight.
  The bot's jobs all use the process's key.
\<close>

definition bot_job :: "world \<Rightarrow> string \<Rightarrow> tg_message \<Rightarrow> ui_event list \<times> ui_event list" where
  "bot_job w key msg = (take 1 (on_message w key msg) @ on_start msg, drop 1 (on_message w key msg))"

section \<open>Lemmas\<close>

lemma bot_job_trace [simp]: "fst (bot_job w key msg) @ snd (bot_job w key msg) = tg_update w key msg"
  by (simp add: bot_job_def tg_update_def)

lemma bot_job_text:
  "take 1 t \<noteq> ''/'' \<Longrightarrow>
   snd (bot_job w key \<lparr>chat_id = c, msg_text = Some t\<rparr>) =
     map Pipeline (snd (processWeatherQuery w key t))
     @ [SendMessage c (sun_cloud @ '' '' @ projr (fst (processWeatherQuery w key t)))]"
  by (simp add: bot_job_def on_message_query starts_with_slash_def)

lemma sched_start_reachable: "sched_reachable run s \<Longrightarrow> sched_reachable run (sched_start run j s)"
  by (blast intro: sched_reachable.step sched_step.start)


section \<open>Properties\<close>

text \<open>C21: every message the bot sends goes to the chat of the update it belongs to, however the updates interleave.\<close>

theorem bot_reply_chat:
  "sched_reachable (bot_job w key) s \<Longrightarrow> (i, SendMessage c txt) \<in> set (out s) \<Longrightarrow>
   i < length (started s) \<and> c = chat_id (started s ! i)"
  using sched_out_in_trace [of "bot_job w key" s i "SendMessage c txt"] tg_update_send by auto

theorem bot_reply_chat_witness:
  "sched_reachable (bot_job demo_world ''sk'') (sched_start (bot_job demo_world ''sk'') \<lparr>chat_id = 7, msg_text = Some ''/start''\<rparr> sched_init) \<and>
   (0, SendMessage 7 welcome_text) \<in> set (out (sched_start (bot_job demo_world ''sk'') \<lparr>chat_id = 7, msg_text = Some ''/start''\<rparr> sched_init)) \<and>
   7 = chat_id (started (sched_start (bot_job demo_world ''sk'') \<lparr>chat_id = 7, msg_text = Some ''/start''\<rparr> sched_init) ! 0)"
proof -
  let ?s = "sched_start (bot_job demo_world ''sk'') \<lparr>chat_id = 7, msg_text = Some ''/start''\<rparr> sched_init"
  have r: "sched_reachable (bot_job demo_world ''sk'') ?s" by (intro sched_start_reachable sched_reachable.init)
  have o: "(0, SendMessage 7 welcome_text) \<in> set (out ?s)"
    by (simp add: sched_start_def sched_init_def bot_job_def on_message_def starts_with_slash_def on_start_def)
  show ?thesis using r o bot_reply_chat [OF r o] by blast
qed

text \<open>C22: replies are not ordered by arrival: for any two text messages there is an interleaving in which the reply to the second is sent before the reply to the first.\<close>

theorem bot_replies_reordered:
  assumes "take 1 t0 \<noteq> ''/''" and "take 1 t1 \<noteq> ''/''"
  shows "\<exists>s xs ys. sched_reachable (bot_job w key) s \<and>
     started s = [\<lparr>chat_id = c0, msg_text = Some t0\<rparr>, \<lparr>chat_id = c1, msg_text = Some t1\<rparr>] \<and>
     pending_size s = 0 \<and>
     out s = xs @ [(1, SendMessage c1 (sun_cloud @ '' '' @ projr (fst (processWeatherQuery w key t1))))] @ ys
             @ [(0, SendMessage c0 (sun_cloud @ '' '' @ projr (fst (processWeatherQuery w key t0))))]"
proof -
  let ?run = "bot_job w key"
  let ?m0 = "\<lparr>chat_id = c0, msg_text = Some t0\<rparr>" and ?m1 = "\<lparr>chat_id = c1, msg_text = Some t1\<rparr>"
  let ?s1 = "sched_start ?run ?m1 (sched_start ?run ?m0 sched_init)"
  let ?s2 = "?s1\<lparr>out := out ?s1 @ map (Pair 1) (pending ?s1 1), pending := (pending ?s1)(1 := [])\<rparr>"
  let ?s3 = "?s2\<lparr>out := out ?s2 @ map (Pair 0) (pending ?s2 0), pending := (pending ?s2)(0 := [])\<rparr>"
  have r1: "sched_reachable ?run ?s1" by (intro sched_start_reachable sched_reachable.init)
  have "sched_advance\<^sup>*\<^sup>* ?s1 ?s3" by (rule rtranclp_trans [OF sched_drain sched_drain])
  then have r3: "sched_reachable ?run ?s3" using r1 by (rule sched_advances_reachable)
  have p1: "pending ?s1 1 = snd (?run ?m1)" and p0: "pending ?s2 0 = snd (?run ?m0)"
    by (simp_all add: sched_start_def sched_init_def)
  have st: "started ?s3 = [?m0, ?m1]" by (simp add: sched_start_def sched_init_def)
  have ps: "pending_size ?s3 = 0" by (simp add: pending_size_def sched_start_def sched_init_def)
  have "out ?s3 = out ?s1 @ map (Pair 1) (snd (?run ?m1)) @ map (Pair 0) (snd (?run ?m0))"
    using p1 p0 by simp
  then have "out ?s3 =
      (out ?s1 @ map (Pair 1) (map Pipeline (snd (processWeatherQuery w key t1))))
      @ [(1, SendMessage c1 (sun_cloud @ '' '' @ projr (fst (processWeatherQuery w key t1))))]
      @ map (Pair 0) (map Pipeline (snd (processWeatherQuery w key t0)))
      @ [(0, SendMessage c0 (sun_cloud @ '' '' @ projr (fst (processWeatherQuery w key t0))))]"
    by (simp only: bot_job_text [OF assms(1)] bot_job_text [OF assms(2)] map_append list.map append_assoc append_Cons append_Nil)
  then show ?thesis using r3 st ps by blast
qed

theorem bot_replies_reordered_witness:
  "take 1 ''Tell me a joke'' \<noteq> ''/'' \<and>
   (\<exists>s xs ys. sched_reachable (bot_job demo_world ''sk'') s \<and>
     started s = [\<lparr>chat_id = 1, msg_text = Some ''Tell me a joke''\<rparr>, \<lparr>chat_id = 2, msg_text = Some ''Tell me a joke''\<rparr>] \<and>
     pending_size s = 0 \<and>
     out s = xs @ [(1, SendMessage 2 (sun_cloud @ '' '' @ projr (fst (processWeatherQuery demo_world ''sk'' ''Tell me a joke''))))] @ ys
             @ [(0, SendMessage 1 (sun_cloud @ '' '' @ projr (fst (processWeatherQuery demo_world ''sk'' ''Tell me a joke''))))])"
proof -
  have h: "take 1 ''Tell me a joke'' \<noteq> ''/''" by simp
  show ?thesis using h bot_replies_reordered [OF h h, of demo_world "''sk''" 1 2] by blast
qed

end
