(* ===== verification/Pipeline_Spec.thy ===== *)
theory Pipeline_Spec
  imports Agent
begin

text \<open>
  The pipeline as the specification describes it (spec sections 4.1 to 4.5), over abstract
  capabilities: a language model \<open>llm\<close> from requests to answers or failures, and a
  weather source \<open>ws\<close> from locations to records. The extraction step returns the trimmed
  model output; an empty location short-cuts; otherwise the source is asked and the answer
  generated; any model failure becomes the apology. Its observable behaviour is the answer and
  the sequence of external calls (\<open>spec_call\<close>). \<open>abs_calls\<close> maps the events of the
  code to these calls: a model call to its request, an HTTP request to the location its URL
  encodes, the log lines to nothing.
\<close>

datatype spec_call = Model chat_request | Lookup string

definition pipeline_spec ::
  "(chat_request \<Rightarrow> js_error + string) \<Rightarrow> (string \<Rightarrow> WeatherData) \<Rightarrow> string \<Rightarrow> string \<times> spec_call list" where
  "pipeline_spec llm ws q =
     (case llm (ExtractLocation_request q) of
        Inl err \<Rightarrow> (apology, [Model (ExtractLocation_request q)])
      | Inr out \<Rightarrow>
          (let loc = js_trim out in
           if loc = [] then (please_specify, [Model (ExtractLocation_request q)])
           else
             (let calls = [Model (ExtractLocation_request q), Lookup loc,
                           Model (GenerateResponse_request (ws loc) q)] in
              case llm (GenerateResponse_request (ws loc) q) of
                Inl err \<Rightarrow> (apology, calls)
              | Inr answer \<Rightarrow> (answer, calls))))"

text \<open>The location a wttr.in request URL encodes (its path segment, percent-decoded).\<close>

definition url_location :: "string \<Rightarrow> string" where
  "url_location u =
     (case uri_decode (drop (length ''https://wttr.in/'') (take (length u - length ''?format=j1'') u)) of
        Some loc \<Rightarrow> loc
      | None \<Rightarrow> u)"

fun abs_calls :: "event list \<Rightarrow> spec_call list" where
  "abs_calls [] = []"
| "abs_calls (LlmCall k r # evs) = Model r # abs_calls evs"
| "abs_calls (HttpGet u # evs) = Lookup (url_location u) # abs_calls evs"
| "abs_calls (ConsoleLog s # evs) = abs_calls evs"
| "abs_calls (ConsoleError s e # evs) = abs_calls evs"

text \<open>The weather source of the code, as the specification's capability.\<close>

definition code_ws :: "world \<Rightarrow> string \<Rightarrow> WeatherData" where
  "code_ws w loc = projr (fst (FetchWeather w loc))"

section \<open>Lemmas\<close>

lemma abs_calls_append [simp]: "abs_calls (xs @ ys) = abs_calls xs @ abs_calls ys"
  by (induction xs rule: abs_calls.induct) auto

lemma url_location_wttr_url [simp]: "url_location (wttr_url loc) = loc"
  by (simp add: url_location_def wttr_url_def uri_decode_encode)

lemma FetchWeather_abs [simp]: "abs_calls (snd (FetchWeather w loc)) = [Lookup loc]"
  by (simp add: FetchWeather_eq split: sum.splits)

lemma FetchWeather_code_ws: "fst (FetchWeather w loc) = Inr (code_ws w loc)"
  using FetchWeather_Inr [of w loc] by (auto simp: code_ws_def)

section \<open>Refinement\<close>

text \<open>C23: \<^verbatim>\<open>processWeatherQuery\<close> implements the specification's pipeline with the code's weather source: for every world, its answer and its sequence of external calls are those of \<open>pipeline_spec\<close>, provided the location the model returns has no surrounding white space (without that proviso the two differ, see C11).\<close>

theorem processWeatherQuery_refines_spec:
  assumes "\<forall>out. openai w key (ExtractLocation_request q) = Inr out \<longrightarrow> js_trim out = out"
  shows "(projr (fst (processWeatherQuery w key q)), abs_calls (snd (processWeatherQuery w key q)))
           = pipeline_spec (openai w key) (code_ws w) q"
proof (cases rule: processWeatherQuery_cases [of w key q])
  case (error err)
  then show ?thesis
    by (simp add: processWeatherQuery_def WeatherAgent_extract_error pipeline_spec_def comp_simps)
next
  case empty
  then show ?thesis using assms
    by (simp add: processWeatherQuery_def WeatherAgent_no_location pipeline_spec_def)
next
  case (located loc wd evs)
  have t: "js_trim loc = loc" using assms located(1) by blast
  have ws: "code_ws w loc = wd" using located(3) by (simp add: code_ws_def)
  have a: "abs_calls evs = [Lookup loc]" using FetchWeather_abs [of w loc] located(3) by simp
  show ?thesis
    using located t ws a
    by (cases "openai w key (GenerateResponse_request wd q)")
       (simp_all add: processWeatherQuery_def WeatherAgent_located pipeline_spec_def comp_simps)
qed

theorem processWeatherQuery_refines_spec_witness:
  "openai demo_world ''sk'' (ExtractLocation_request ''Weather in Paris?'') = Inr ''Paris'' \<and>
   js_trim ''Paris'' = ''Paris'' \<and>
   (projr (fst (processWeatherQuery demo_world ''sk'' ''Weather in Paris?'')),
    abs_calls (snd (processWeatherQuery demo_world ''sk'' ''Weather in Paris?'')))
     = pipeline_spec (openai demo_world ''sk'') (code_ws demo_world) ''Weather in Paris?''"
proof -
  have e: "openai demo_world ''sk'' (ExtractLocation_request ''Weather in Paris?'') = Inr ''Paris''"
    by (simp add: demo_world_def ExtractLocation_request_def)
  have t: "js_trim ''Paris'' = ''Paris''"
    by (simp add: js_trim_def trim_start.simps trim_end_rev.simps js_ws_def)
  have h: "\<forall>out. openai demo_world ''sk'' (ExtractLocation_request ''Weather in Paris?'') = Inr out \<longrightarrow> js_trim out = out"
    using e t by simp
  show ?thesis using e t processWeatherQuery_refines_spec [OF h] by blast
qed

end
