(* ===== verification/Record_Facts.thy ===== *)
theory Record_Facts
  imports Number_Facts Agent
begin

text \<open>
  The JSON of the \<^verbatim>\<open>WeatherData\<close> records the program builds. Every number of a
  record is in canonical form and within the range of binary64 (facts of
  \<open>Number_Facts\<close> about \<^verbatim>\<open>parseFloat\<close>, lifted to the records), and every record is a
  well-formed JSON value (\<open>FetchWeather_wf\<close>: its fields come from a parsed body or from
  \<^verbatim>\<open>parseFloat\<close>), so the text the generation request carries reads back as the record.
\<close>

text \<open>The numeric fields of a record, the optional ones when present.\<close>

definition weather_numbers :: "WeatherData \<Rightarrow> jsnum list" where
  "weather_numbers wd =
     temperature wd # concat (map (\<lambda>x. case x of None \<Rightarrow> [] | Some n \<Rightarrow> [n])
                                  [humidity wd, windSpeed wd, feelsLike wd])"

section \<open>Lemmas\<close>

lemma parse_weather_numbers:
  assumes "parse_weather data = Inr wd"
  shows "\<exists>vs. weather_numbers wd = map js_parseFloat vs"
proof -
  obtain temp hum wind feels where
    "temperature wd = js_parseFloat temp" "humidity wd = Some (js_parseFloat hum)"
    "windSpeed wd = Some (js_parseFloat wind)" "feelsLike wd = Some (js_parseFloat feels)"
    using assms unfolding parse_weather_def sbind_eq_Inr by fastforce
  then have "weather_numbers wd = map js_parseFloat [temp, hum, wind, feels]"
    by (simp add: weather_numbers_def)
  then show ?thesis by blast
qed

lemma js_get_wf: "json_wf v \<Longrightarrow> js_get v k = Inr u \<Longrightarrow> json_wf u"
proof (cases v)
  case (JObj ps)
  assume "json_wf v" "js_get v k = Inr u"
  then show ?thesis using JObj
    by (auto simp: json_wf_props_iff list_all_iff dest!: map_of_SomeD split: option.splits)
next
  case (JArr xs)
  assume "json_wf v" "js_get v k = Inr u"
  then show ?thesis using JArr
    by (auto simp: json_wf_elems_iff list_all_iff split: option.splits if_splits)
qed (auto split: option.splits if_splits)

lemma js_path_wf: "json_wf v \<Longrightarrow> js_path v ks = Inr u \<Longrightarrow> json_wf u"
  by (induction v ks rule: js_path.induct) (auto dest: js_get_wf split: sum.splits)

lemma weather_to_js_wf:
  assumes "json_wf (location wd)" "json_wf (description wd)" "list_all num_canonical (weather_numbers wd)"
    and "list_all num_in_range (weather_numbers wd)" "case_option True json_wf (lastUpdated wd)"
  shows "json_wf (weather_to_js wd)"
  using assms
  by (auto simp: weather_to_js_def opt_prop_def weather_numbers_def json_wf_props_iff split: option.splits)

lemma FetchWeather_wf: "json_wf (weather_to_js (projr (fst (FetchWeather w loc))))"
proof -
  have d: "json_wf (weather_to_js (degraded_weather loc))"
    by (rule weather_to_js_wf)
       (simp_all add: degraded_weather_def weather_numbers_def num_canonical_def normal_dec_def num_in_range_def
                      dec_val_def max_finite_bound_def)
  have p: "json_wf (weather_to_js wd)" if pw: "parse_weather data = Inr wd" and wfd: "json_wf data" for data wd
  proof (rule weather_to_js_wf)
    obtain lc ds ob where "js_path data [''nearest_area'', ''0'', ''areaName'', ''0'', ''value''] = Inr lc"
      "js_path data (cc_path [''weatherDesc'', ''0'', ''value'']) = Inr ds"
      "js_path data (cc_path [''observation_time'']) = Inr ob"
      "location wd = lc" "description wd = ds" "lastUpdated wd = Some ob"
      using pw unfolding parse_weather_def sbind_eq_Inr by fastforce
    then show "json_wf (location wd)" "json_wf (description wd)" "case_option True json_wf (lastUpdated wd)"
      using js_path_wf [OF wfd] by (auto simp del: js_path.simps)
    show "list_all num_canonical (weather_numbers wd)" "list_all num_in_range (weather_numbers wd)"
      using parse_weather_numbers [OF pw] js_parseFloat_wf by (auto simp: list_all_iff)
  qed
  show ?thesis using d p axios_result_wf [of w "wttr_url loc"] by (auto simp: FetchWeather_eq split: sum.splits)
qed

section \<open>Properties\<close>

text \<open>C26: every model call of a run other than the extraction is the \<^verbatim>\<open>GenerateResponse\<close> request: its messages are the fixed instruction, the user's query, and a system message \<^verbatim>\<open>Weather data: \<close> followed by the text \<^verbatim>\<open>JSON.stringify(weatherData, null, 2)\<close> prints of the record \<^verbatim>\<open>FetchWeather\<close> resolved with for the extracted location; whatever wttr.in answered, that text reads back with \<^verbatim>\<open>JSON.parse\<close> as the record (a field that is \<^verbatim>\<open>undefined\<close> dropped, a \<^verbatim>\<open>NaN\<close> as \<^verbatim>\<open>null\<close>), so the model is given the record and nothing else.\<close>

theorem processWeatherQuery_weather_message:
  assumes "openai w key (ExtractLocation_request q) = Inr loc"
    and "LlmCall k req \<in> set (snd (processWeatherQuery w key q))"
    and "req \<noteq> ExtractLocation_request q"
  shows "\<exists>s. messages req =
               [\<lparr>role = System, content = generate_instruction\<rparr>, \<lparr>role = User, content = q\<rparr>,
                \<lparr>role = System, content = ''Weather data: '' @ s\<rparr>] \<and>
             json_parse s = Some (json_norm (weather_to_js (projr (fst (FetchWeather w loc)))))"
proof -
  have gen: "req = GenerateResponse_request (projr (fst (FetchWeather w loc))) q"
  proof (cases "loc = []")
    case True
    then show ?thesis using assms by (simp add: processWeatherQuery_def WeatherAgent_no_location)
  next
    case False
    obtain wd evs where fw: "FetchWeather w loc = (Inr wd, evs)"
      using FetchWeather_Inr by blast
    have "LlmCall k req \<notin> set evs"
      using llm_keys_mem [of k req evs] FetchWeather_keys [of w loc] fw by auto
    then show ?thesis using assms False fw
      by (cases "openai w key (GenerateResponse_request wd q)")
         (auto simp: processWeatherQuery_def WeatherAgent_located comp_simps)
  qed
  obtain s where s: "json_stringify2 (weather_to_js (projr (fst (FetchWeather w loc)))) = Some s"
    by (simp add: weather_to_js_def json_stringify2_def)
  show ?thesis using json_parse_stringify [OF FetchWeather_wf s] s
    by (simp add: gen GenerateResponse_request_def json_text_def)
qed

theorem processWeatherQuery_weather_message_witness:
  "openai demo_world ''sk-test'' (ExtractLocation_request ''Weather in Paris?'') = Inr ''Paris'' \<and>
   LlmCall ''sk-test'' (GenerateResponse_request paris_wd ''Weather in Paris?'')
     \<in> set (snd (processWeatherQuery demo_world ''sk-test'' ''Weather in Paris?'')) \<and>
   GenerateResponse_request paris_wd ''Weather in Paris?'' \<noteq> ExtractLocation_request ''Weather in Paris?'' \<and>
   (\<exists>s. messages (GenerateResponse_request paris_wd ''Weather in Paris?'') =
          [\<lparr>role = System, content = generate_instruction\<rparr>, \<lparr>role = User, content = ''Weather in Paris?''\<rparr>,
           \<lparr>role = System, content = ''Weather data: '' @ s\<rparr>] \<and>
        json_parse s = Some (json_norm (weather_to_js paris_wd)))"
proof -
  have h1: "openai demo_world ''sk-test'' (ExtractLocation_request ''Weather in Paris?'') = Inr ''Paris''"
    by (simp add: demo_world_def ExtractLocation_request_def)
  have fw: "FetchWeather demo_world ''Paris'' = (Inr paris_wd, [HttpGet (wttr_url ''Paris'')])"
    by (simp add: FetchWeather_eq demo_paris_url paris_parse)
  have h2: "LlmCall ''sk-test'' (GenerateResponse_request paris_wd ''Weather in Paris?'')
              \<in> set (snd (processWeatherQuery demo_world ''sk-test'' ''Weather in Paris?''))"
    by (cases "openai demo_world ''sk-test'' (GenerateResponse_request paris_wd ''Weather in Paris?'')")
       (simp_all add: processWeatherQuery_def WeatherAgent_located [OF h1 _ fw] comp_simps)
  have h3: "GenerateResponse_request paris_wd ''Weather in Paris?'' \<noteq> ExtractLocation_request ''Weather in Paris?''"
    by (simp add: GenerateResponse_request_def ExtractLocation_request_def)
  have "\<exists>s. messages (GenerateResponse_request paris_wd ''Weather in Paris?'') =
          [\<lparr>role = System, content = generate_instruction\<rparr>, \<lparr>role = User, content = ''Weather in Paris?''\<rparr>,
           \<lparr>role = System, content = ''Weather data: '' @ s\<rparr>] \<and>
        json_parse s = Some (json_norm (weather_to_js paris_wd))"
    using processWeatherQuery_weather_message [OF h1 h2 h3] by (simp only: fw fst_conv sum.sel)
  with h1 h2 h3 show ?thesis by blast
qed

end
