(* ===== verification/Spec2Isabelle.thy ===== *)
theory Spec2Isabelle
  imports Concurrency Pipeline_Spec Record_Facts Json_Roundtrip
begin

text \<open>
  Verification development of the weather assistant, \<^verbatim>\<open>src/src/index.tsx\<close> (one
  TypeScript file). The program answers a weather question in three dependent steps: a
  language model extracts a location from the question (\<^verbatim>\<open>ExtractLocation\<close>), the
  wttr.in service is asked for the weather there (\<^verbatim>\<open>FetchWeather\<close>), and the model
  writes the answer from the data (\<^verbatim>\<open>GenerateResponse\<close>). \<^verbatim>\<open>WeatherAgent\<close>
  chains them with a short cut when no location is found; \<^verbatim>\<open>WeatherAgentComponent\<close>
  wraps it in \<^verbatim>\<open>OpenAIProvider\<close>, which gives every nested model call the API key;
  \<^verbatim>\<open>processWeatherQuery\<close> runs the workflow inside a \<^verbatim>\<open>try/catch\<close> that turns
  any failure into an apology. A console loop and a Telegram handler feed it queries; the
  start-up code reads the environment and picks one of them.

  \<^bold>\<open>Theories.\<close>
  \<^item> \<open>JS_Base\<close> (prelude): exceptions \<open>js_error\<close>; awaited computations
    \<open>('e, 'a) comp\<close> = outcome and emitted events, with \<open>cbind\<close> (await),
    \<open>cthrow\<close>, \<open>ccatch\<close> (try/catch) and their simp rules \<open>comp_simps\<close>;
    JavaScript values \<open>jsval\<close>, property reads \<open>js_get\<close>/\<open>js_path\<close> that throw a
    \<^verbatim>\<open>TypeError\<close> on \<^verbatim>\<open>undefined\<close>/\<^verbatim>\<open>null\<close>, truthiness
    \<open>js_truthy\<close>, decimal digit strings.
  \<^item> \<open>JS_Number\<close>: \<^verbatim>\<open>parseFloat\<close> (\<open>parse_float_str\<close>, \<open>js_parseFloat\<close>:
    white space skipped by \<open>trim_start\<close>, a \<open>function\<close> whose termination is proved by
    the length of the string; the longest StrDecimalLiteral prefix; overflow to Infinity and
    underflow to zero at the binary64 bounds) and \<^verbatim>\<open>Number::toString\<close>
    (\<open>num_to_string\<close>), ToString of any value.
  \<^item> \<open>JS_Text\<close>: \<^verbatim>\<open>encodeURIComponent\<close> with the decoding a server applies
    (round trip \<open>uri_decode_encode\<close>, no \<^verbatim>\<open>/?#\<close> in the output),
    \<^verbatim>\<open>JSON.stringify(v, null, 2)\<close> (\<open>json_stringify2\<close>), ASCII lower case.
  \<^item> \<open>JS_Json\<close>: \<^verbatim>\<open>JSON.parse\<close> as a recursive-descent parser (\<open>json_val\<close>,
    \<open>json_elems\<close>, \<open>json_members\<close>, mutually recursive over a fuel argument) with
    the lexical parts: white space, string literals with all escapes (\<^verbatim>\<open>\uXXXX\<close>
    surrogate pairs joined, a lone surrogate as U+FFFD in UTF-8), the number grammar with
    its value as \<^verbatim>\<open>parseFloat\<close> gives it, and \<open>obj_set\<close> for repeated keys.
    \<open>json_parse\<close> runs it with fuel \<open>json_fuel s = 2 * length s + 2\<close>. That fuel is
    enough: every call consumes input (\<open>json_val_len\<close>), a nested call gets one unit
    less, so at most two units are spent per character, and with at least that much fuel the
    result no longer depends on it (\<open>json_fuel_enough\<close>); a \<open>None\<close> is therefore a
    \<^verbatim>\<open>SyntaxError\<close>, never an exhausted budget.
  \<^item> \<open>Json_Roundtrip\<close>: \<^verbatim>\<open>JSON.parse\<close> of \<^verbatim>\<open>JSON.stringify(v, null, 2)\<close> is
    \<open>json_norm v\<close> (\<open>undefined\<close> members dropped, \<open>undefined\<close> elements and
    non-finite numbers as \<open>null\<close>) for every \<open>json_wf\<close> value (distinct keys,
    canonical numbers in the binary64 range), by mutual induction over the serialiser with
    the fuel handled by \<open>eventually sequentially\<close>; printing \<open>json_norm v\<close> gives the same
    text; every value \<^verbatim>\<open>JSON.parse\<close> returns is \<open>json_wf\<close>.
  \<^item> \<open>Services\<close>: the interface to the outside: chat requests, the events of a run
    (\<open>LlmCall key request\<close>, \<open>HttpGet url\<close>, console lines), the \<open>world\<close>
    record whose two functions answer the OpenAI and wttr.in calls, the gensx context filled
    by \<open>OpenAIProvider\<close>, and the library components \<open>ChatCompletion\<close> and
    \<open>axios_get\<close>, each emitting one event per call. wttr.in answers with an
    \<open>http_response\<close> (status and body) or a network error; \<open>axios_result\<close> is what
    \<^verbatim>\<open>axios.get\<close> makes of it: \<open>axios_settle\<close> rejects a status outside 200..299
    with \<^verbatim>\<open>Request failed with status code N\<close>, \<open>axios_data\<close> strips a byte-order
    mark and parses the body with \<open>json_parse\<close>, keeping the text when it does not parse.
  \<^item> \<open>Weather\<close>: the \<^verbatim>\<open>WeatherData\<close> record, the URL, the parse of the
    provider document (\<open>parse_weather\<close>, lines 73-83), the degraded record and
    \<open>FetchWeather\<close> (lines 64-93).
  \<^item> \<open>Agent\<close>: \<open>ExtractLocation\<close>, \<open>GenerateResponse\<close>, \<open>WeatherAgent\<close>,
    \<open>WeatherAgentComponent\<close>, \<open>workflow_run\<close>, \<open>processWeatherQuery\<close>
    (lines 42-169).
  \<^item> \<open>Frontends\<close>: the module's start-up and its two front ends (lines 8-23 and
    172-257). \<open>startup\<close> is the key check of lines 18-23 followed by \<open>choose_mode\<close>
    (lines 246-257) over the environment map; \<open>console_loop\<close> and
    \<open>startConsoleMode\<close> are the readline session over the list of input lines;
    \<open>on_start\<close> and \<open>on_message\<close> are the two bot handlers of
    \<open>startTelegramBot\<close>, \<open>tg_update\<close> both handlers of one update, and
    \<open>run_program\<close> the whole module run. Their output is a list of \<open>ui_event\<close>s
    (printed lines, prompts, exits, bot calls, and the events of each pipeline run).
  \<^item> \<open>Sched\<close>: the Node.js event loop running asynchronous jobs concurrently. A job
    emits its synchronous prefix when it starts and its other events one per resumption;
    \<open>sched_step\<close> is the step relation, \<open>sched_reachable\<close> its reachable states (rule
    induction gives the invariant \<open>sched_inv\<close>: each job's output and pending events make
    its whole trace), \<open>sched_exec\<close> an executable schedule. Resumption terminates by the
    measure \<open>pending_size\<close>, and every reachable state can run all jobs to completion.
  \<^item> \<open>Concurrency\<close>: the scheduler instantiated with the bot's updates
    (\<open>bot_job\<close>, lines 185-209).
  \<^item> \<open>Pipeline_Spec\<close>: the pipeline of the specification (sections 4.1 to 4.5) over an
    abstract model and weather source, \<open>pipeline_spec\<close>, with the abstraction
    \<open>abs_calls\<close> of the code's events to external calls; \<open>processWeatherQuery\<close>
    refines it.
  \<^item> \<open>Number_Facts\<close>: the real value of a decimal (\<open>dec_val\<close>), the proof that the
    digit-count tests of \<open>JS_Number\<close> are exactly the binary64 overflow and underflow
    comparisons, the canonical form and range of every parsed number, and the round trip
    \<open>num_to_string_roundtrip\<close>: \<^verbatim>\<open>parseFloat\<close> of \<^verbatim>\<open>Number::toString\<close> gives the number
    back, for every canonical number in range.
  \<^item> \<open>Record_Facts\<close>: the numbers and the JSON of the \<^verbatim>\<open>WeatherData\<close> records
    \<open>FetchWeather\<close> resolves with, and the generation request that carries them.
  \<^item> this root theory: the header. Each claim's witness sits right after the claim, in its
    component theory; \<open>Agent\<close> holds a concrete world (\<open>demo_world\<close>) that plays the
    example scenarios of the spec (Paris, a query without a location, failing services).

  \<^bold>\<open>How the model reads.\<close> Every component is a function of the \<open>world\<close> and its
  inputs; its value is the outcome (\<open>Inl\<close> an exception, \<open>Inr\<close> a value) and the list of
  events in the order the code emits them. Because the services are arbitrary functions in
  \<open>world\<close>, every theorem holds for every behaviour of OpenAI and wttr.in, failures
  included. The gensx context is an explicit argument: \<open>OpenAIProvider key\<close> sets the key
  and \<open>ChatCompletion\<close> reads it. Strings are UTF-8 byte lists; numbers are exact
  decimals. No loop of the pipeline needs fuel: the pipeline is straight-line code, and the
  recursions (white space, digits, JSON printing, URI decoding) are structural or have a
  termination proof; the one exception is \<^verbatim>\<open>JSON.parse\<close>, whose fuel is proved
  sufficient (see \<open>JS_Json\<close>).

  \<^bold>\<open>What is proved.\<close> The failure boundary always answers with one of three kinds of
  string (C1); the short cut makes no further call (C2); a failed lookup gives the degraded
  record and never an exception (C3, C9); the success path has exactly the calls and
  logs of the code in order (C4) and the calls of any run are a prefix of extraction, lookup,
  generation (C8); every model call of a whole program run, in either mode, carries the key of
  the environment (C5); model failures end in the apology (C6, C7); the parse of a well-formed
  document (C10); the URL cannot be steered by the location (C13). The defensive
  \<^verbatim>\<open>if (!weatherData)\<close> check of \<open>WeatherAgent\<close> never fires, since the record's
  object is always truthy (lemma \<open>weather_to_js_truthy\<close>). For the front ends: no key, no run (C14); the mode decision (C15); the console stops at
  the first \<^verbatim>\<open>exit\<close> line (C16) and otherwise answers every line in order, one
  complete run per line (C17); the bot commands (C20). Four divergences from the spec are
  theorems: the location is not trimmed before the emptiness test, so a location of white space
  only is looked up as it is and the generation step runs (C11), a document without
  the expected leaves yields \<^verbatim>\<open>undefined\<close>/\<^verbatim>\<open>NaN\<close> fields instead of the
  degraded record (C12), a message without text is answered as the empty query (C18), and a
  text with \<^verbatim>\<open>/start\<close> inside gets two replies (C19).

  \<^bold>\<open>Concurrency and refinement.\<close> However the bot's updates interleave, every reply
  goes to the chat of its own update (C21), and replies to two chats can come in either order
  (C22). \<open>processWeatherQuery\<close> refines the specification's pipeline when the extracted
  location has no surrounding white space (C23). \<open>Sched\<close> also proves, for any jobs,
  that each job's output and pending events make its sequential trace, that every reachable
  state can run to completion and that resuming terminates; these are facts of the event loop
  rather than of the bot, and are used as lemmas.

  \<^bold>\<open>The HTTP answer and the prompt's JSON.\<close> An answer with a status outside 200..299
  ends in the degraded record with axios's message logged (C24); a 2xx answer whose body is
  not JSON reaches the code as a string and ends in the degraded record after a
  \<^verbatim>\<open>TypeError\<close> (C25); and every model call of a run other than the extraction is the
  generation request, whose last message is \<^verbatim>\<open>Weather data: \<close> followed by the
  \<^verbatim>\<open>JSON.stringify(weatherData, null, 2)\<close> text of the record \<^verbatim>\<open>FetchWeather\<close>
  resolved with, which reads back with \<^verbatim>\<open>JSON.parse\<close> as that record whatever wttr.in
  answered (C26), because every field of the record comes from a parsed body or from
  \<^verbatim>\<open>parseFloat\<close>, whose numbers are canonical and within the binary64 range.

  \<^bold>\<open>Not modelled.\<close> \<^verbatim>\<open>dotenv\<close>, readline and the Telegram library are I/O
  and appear only through the inputs they deliver (the environment map, the input lines, the
  messages) and the events they are asked to produce. A job's events are fixed when it
  starts: the services are functions of the request, so the answers a run gets do not depend
  on the interleaving; timing, timeouts and cancellation (none in the code) are not modelled.
  \<open>run_program\<close> lists the Telegram updates one after the other; their interleavings are
  the reachable states of \<open>Concurrency\<close>. The rounding of decimals to binary64 is not
  modelled: a finite number is the exact decimal of its literal, with overflow and underflow
  decided exactly (see \<open>JS_Number\<close> and \<open>Number_Facts\<close>); there is no negative zero.
  The HTTP transport (sockets, TLS, redirects, the OpenAI client's retries) is the world's
  answer function. The response body is the UTF-8 encoding of the text axios decodes; a body
  with invalid UTF-8 (which Node would repair with U+FFFD) is outside the model. Objects
  keep their keys in insertion order; JavaScript would list array-index keys first, which
  changes nothing the program reads. \<^verbatim>\<open>parseFloat\<close> of an object converts it with
  \<open>js_to_string\<close>, which gives \<^verbatim>\<open>[object Object]\<close> (so \<^verbatim>\<open>NaN\<close>) even for an
  object with an own \<^verbatim>\<open>toString\<close> key, where JavaScript would call that key and throw a
  \<^verbatim>\<open>TypeError\<close> if it is not a function; a provider document with such a key is not
  considered.
\<close>

end
